(* ===== verification/Prelude.thy ===== *)
theory Prelude
  imports Main
begin

text \<open>
  Shared by every theory of the development: results with an error side and their
  sequencing, the step of a range loop that stops at its first error, and the collections
  the component proofs draw on.
\<close>

named_theorems world_simps \<open>how the operations of a component move the world\<close>
named_theorems table_simps \<open>register tables and the constants they are built from\<close>

section \<open>Results\<close>

text \<open>
  A Go function that returns \<open>(value, error)\<close> and leaves its caller nothing to use beside
  the error returns \<open>'e + 'a\<close>: \<open>Inl\<close> the error, \<open>Inr\<close> the value.
\<close>

definition and_then :: "'e + 'a \<Rightarrow> ('a \<Rightarrow> 'e + 'b) \<Rightarrow> 'e + 'b" where
  "and_then r f = (case r of Inl e \<Rightarrow> Inl e | Inr a \<Rightarrow> f a)"

lemma and_then_simps [simp]:
  "and_then (Inl e) f = Inl e"
  "and_then (Inr a) f = f a"
  by (simp_all add: and_then_def)

lemma and_then_eq_Inr [simp]:
  "and_then r f = Inr b \<longleftrightarrow> (\<exists>a. r = Inr a \<and> f a = Inr b)"
  by (cases r) auto

lemma and_then_eq_Inl:
  "and_then r f = Inl e \<longleftrightarrow> r = Inl e \<or> (\<exists>a. r = Inr a \<and> f a = Inl e)"
  by (cases r) auto

text \<open>A guard \<open>if c { return err }\<close> before the rest of the function.\<close>

definition guard_err :: "bool \<Rightarrow> 'e \<Rightarrow> 'e + 'a \<Rightarrow> 'e + 'a" where
  "guard_err c e r = (if c then Inl e else r)"

lemma guard_err_simps [simp]:
  "guard_err True e r = Inl e"
  "guard_err False e r = r"
  by (simp_all add: guard_err_def)

lemma guard_err_eq_Inr [simp]: "guard_err c e r = Inr a \<longleftrightarrow> \<not> c \<and> r = Inr a"
  by (simp add: guard_err_def)

section \<open>Association lists\<close>

text \<open>
  A Go map is an association list with distinct keys where the program ranges over it; the
  order of the list stands for the order the runtime picks.
\<close>

lemma map_of_map_fst: "map_of (map (\<lambda>d. (k d, v d)) ds) x = map_option v (find (\<lambda>d. k d = x) ds)"
  by (induction ds) auto

lemma find_key_in: "find P xs = Some x \<Longrightarrow> x \<in> set xs \<and> P x"
  by (induction xs) (auto split: if_splits)

lemma find_distinct_key:
  assumes "distinct (map k ds)" and "d \<in> set ds"
  shows "find (\<lambda>x. k x = k d) ds = Some d"
  using assms by (induction ds) (auto simp: rev_image_eqI)

lemma find_map_key:
  "find (\<lambda>x. k x = y) ds = None \<longleftrightarrow> y \<notin> k ` set ds"
  by (induction ds) auto

end
