(* ===== verification/Go_Error.thy ===== *)
theory Go_Error
  imports Prelude
begin

text \<open>
  Error values. A Go error is a tree: \<open>fmt.Errorf\<close> with \<open>%w\<close> and the program's own
  wrapper types have one child, \<open>errors.Join\<close> has several. \<open>errors.As\<close> and
  \<open>errors.Is\<close> search the whole tree, and the program's decisions rest on that search.
\<close>

datatype ctx_cause = Canceled | DeadlineExceeded

text \<open>The messages of the program's own \<open>fmt.Errorf\<close> calls, with their arguments.\<close>

datatype msg =
    MParseSyntax string
  | MParseRange string
  | MUnsupportedNumeric
  | MNotInteger
  | MInvalidNumeric
  | MStringRequired
  | MUnknownEnumNumber int
  | MUnknownEnumText string
  | MBoolExpected
  | MOutsideBuffer
  | MTooWide
  | MInvalidRegisterType
  | MTextRequired
  | MTooLong int
  | MUnsignedRange int
  | MSignedRange int
  | MReadCount int int nat
  | MInvalidKey string
  | MNotWriteable string
  | MNumericRequired string
  | MOutsideLimits string
  | MResetSuppressed int
  | MQueueFull
  | MNotStarted
  | MUnknownConfigKey
  | MInvalidValue
  | MConnectionChanged
  | MConfig string string
  | MLogLevel string

text \<open>
  \<open>EExt\<close> is an error of code outside the repository (the Modbus and MQTT libraries, the
  operating system), \<open>EFatal\<close> the program's \<open>fatalModbusError\<close>, \<open>ECommand\<close> its
  \<open>configCommandError\<close>, \<open>EWrap\<close> a \<open>fmt.Errorf\<close> with one \<open>%w\<close>.
\<close>

datatype err =
    EMsg msg
  | ECtx ctx_cause
  | EExt string
  | EFatal err
  | ECommand err
  | EWrap string err
  | EJoin "err list"

text \<open>\<open>errors.As(err, target)\<close> for the two types the program looks for.\<close>

fun isFatalModbus :: "err \<Rightarrow> bool" where
  "isFatalModbus (EFatal _) = True"
| "isFatalModbus (ECommand e) = isFatalModbus e"
| "isFatalModbus (EWrap _ e) = isFatalModbus e"
| "isFatalModbus (EJoin es) = list_ex isFatalModbus es"
| "isFatalModbus _ = False"

fun isCommandError :: "err \<Rightarrow> bool" where
  "isCommandError (ECommand _) = True"
| "isCommandError (EFatal e) = isCommandError e"
| "isCommandError (EWrap _ e) = isCommandError e"
| "isCommandError (EJoin es) = list_ex isCommandError es"
| "isCommandError _ = False"

text \<open>\<open>errors.Is(err, context.Canceled)\<close>.\<close>

fun isCanceled :: "err \<Rightarrow> bool" where
  "isCanceled (ECtx c) = (c = Canceled)"
| "isCanceled (EFatal e) = isCanceled e"
| "isCanceled (ECommand e) = isCanceled e"
| "isCanceled (EWrap _ e) = isCanceled e"
| "isCanceled (EJoin es) = list_ex isCanceled es"
| "isCanceled _ = False"

text \<open>\<open>errors.Join\<close> drops nil errors and is nil when all are.\<close>

definition errors_Join :: "err option list \<Rightarrow> err option" where
  "errors_Join es =
     (let present = List.map_filter id es in if present = [] then None else Some (EJoin present))"

lemma errors_Join_two [simp]:
  "errors_Join [Some a, Some b] = Some (EJoin [a, b])"
  "errors_Join [Some a, None] = Some (EJoin [a])"
  "errors_Join [None, Some b] = Some (EJoin [b])"
  "errors_Join [None, None] = None"
  by (simp_all add: errors_Join_def)

text \<open>
  \<open>fatalModbusErrorFor\<close> marks an error as fatal unless it is already; \<open>Inr\<close> is its nil
  argument.
\<close>

definition fatalModbusErrorFor :: "err + 'a \<Rightarrow> err + 'a" where
  "fatalModbusErrorFor r =
     (case r of Inr a \<Rightarrow> Inr a | Inl e \<Rightarrow> if isFatalModbus e then Inl e else Inl (EFatal e))"

lemma fatalModbusErrorFor_simps [simp]:
  "fatalModbusErrorFor (Inr a) = Inr a"
  "fatalModbusErrorFor r = Inr a \<longleftrightarrow> r = Inr a"
  by (auto simp: fatalModbusErrorFor_def split: sum.splits)

lemma fatalModbusErrorFor_fatal: "fatalModbusErrorFor r = Inl e \<Longrightarrow> isFatalModbus e"
  by (auto simp: fatalModbusErrorFor_def split: sum.splits if_splits)

end
