(* ===== verification/Go_Float.thy ===== *)
theory Go_Float
  imports Complex_Main "HOL-Library.Log_Nat" "HOL-Library.Word"
begin

text \<open>
  The part of Go's floating point that the program uses: \<open>float64\<close> values (IEEE 754
  binary64) as exact rationals with the non-finite values beside them, rounding to nearest
  even after every operation, \<open>math.Round\<close>, the comparisons, and the conversion to
  \<open>int64\<close>.

  The two zeros are one value here: the program never divides by a zero, and it never
  prints a negative zero, so nothing it does can tell them apart.
\<close>

section \<open>Rounding to a binary64 value\<close>

datatype float64 = FNaN | FInf bool | FFin rat  \<comment> \<open>\<open>FInf True\<close> is minus infinity\<close>

text \<open>\<open>ilog2 r\<close> is the exponent of a positive \<open>r\<close>: \<open>2 powi ilog2 r \<le> r < 2 powi (ilog2 r + 1)\<close>.\<close>

definition ilog2 :: "rat \<Rightarrow> int" where
  "ilog2 r = (let (p, q) = quotient_of r; e = bitlen p - bitlen q
              in if 2 powi e \<le> r then e else e - 1)"

definition round_half_even :: "rat \<Rightarrow> int" where
  "round_half_even x =
     (let f = \<lfloor>x\<rfloor>; d = x - of_int f
      in if d < 1 / 2 then f else if d > 1 / 2 then f + 1 else if even f then f else f + 1)"

text \<open>
  Round to nearest even: 53 bits of mantissa, exponents from \<open>-1074\<close> (subnormals) to
  \<open>971\<close>; what is \<open>2 ^ 1024\<close> or more after rounding overflows to an infinity.
\<close>

definition rne :: "rat \<Rightarrow> float64" where
  "rne r =
     (if r = 0 then FFin 0
      else let e = max (ilog2 \<bar>r\<bar> - 52) (-1074); m = round_half_even (r / 2 powi e)
           in if e > 971 \<or> e = 971 \<and> \<bar>m\<bar> \<ge> 2 ^ 53 then FInf (r < 0)
              else FFin (of_int m * 2 powi e))"

section \<open>Operations\<close>

fun fneg :: "float64 \<Rightarrow> float64" where
  "fneg FNaN = FNaN"
| "fneg (FInf s) = FInf (\<not> s)"
| "fneg (FFin x) = FFin (- x)"

fun fadd :: "float64 \<Rightarrow> float64 \<Rightarrow> float64" where
  "fadd (FFin x) (FFin y) = rne (x + y)"
| "fadd FNaN _ = FNaN"
| "fadd _ FNaN = FNaN"
| "fadd (FInf s) (FInf t) = (if s = t then FInf s else FNaN)"
| "fadd (FInf s) (FFin _) = FInf s"
| "fadd (FFin _) (FInf t) = FInf t"

definition fsub :: "float64 \<Rightarrow> float64 \<Rightarrow> float64" where
  "fsub a b = fadd a (fneg b)"

fun fmul :: "float64 \<Rightarrow> float64 \<Rightarrow> float64" where
  "fmul (FFin x) (FFin y) = rne (x * y)"
| "fmul FNaN _ = FNaN"
| "fmul _ FNaN = FNaN"
| "fmul (FInf s) (FInf t) = FInf (s \<noteq> t)"
| "fmul (FInf s) (FFin y) = (if y = 0 then FNaN else FInf (s \<noteq> (y < 0)))"
| "fmul (FFin x) (FInf t) = (if x = 0 then FNaN else FInf ((x < 0) \<noteq> t))"

fun fdiv :: "float64 \<Rightarrow> float64 \<Rightarrow> float64" where
  "fdiv (FFin x) (FFin y) =
     (if y = 0 then (if x = 0 then FNaN else FInf (x < 0)) else rne (x / y))"
| "fdiv FNaN _ = FNaN"
| "fdiv _ FNaN = FNaN"
| "fdiv (FInf _) (FInf _) = FNaN"
| "fdiv (FInf s) (FFin y) = FInf (s \<noteq> (y < 0))"
| "fdiv (FFin _) (FInf _) = FFin 0"

fun fabs :: "float64 \<Rightarrow> float64" where
  "fabs FNaN = FNaN"
| "fabs (FInf _) = FInf False"
| "fabs (FFin x) = FFin \<bar>x\<bar>"

text \<open>Go's \<open><\<close> and \<open><=\<close>: false as soon as one side is NaN.\<close>

fun flt :: "float64 \<Rightarrow> float64 \<Rightarrow> bool" where
  "flt FNaN _ = False"
| "flt _ FNaN = False"
| "flt (FFin x) (FFin y) = (x < y)"
| "flt (FInf s) (FInf t) = (s \<and> \<not> t)"
| "flt (FInf s) (FFin _) = s"
| "flt (FFin _) (FInf t) = (\<not> t)"

fun feq :: "float64 \<Rightarrow> float64 \<Rightarrow> bool" where
  "feq (FFin x) (FFin y) = (x = y)"
| "feq (FInf s) (FInf t) = (s = t)"
| "feq _ _ = False"

definition fle :: "float64 \<Rightarrow> float64 \<Rightarrow> bool" where
  "fle a b \<longleftrightarrow> flt a b \<or> feq a b"

fun is_nan :: "float64 \<Rightarrow> bool" where
  "is_nan FNaN = True"
| "is_nan _ = False"

fun is_inf :: "float64 \<Rightarrow> bool" where
  "is_inf (FInf _) = True"
| "is_inf _ = False"

text \<open>\<open>math.Round\<close>: to the nearest integer, halves away from zero.\<close>

definition round_away :: "rat \<Rightarrow> int" where
  "round_away r = (if 0 \<le> r then \<lfloor>r + 1 / 2\<rfloor> else - \<lfloor>1 / 2 - r\<rfloor>)"

fun fround :: "float64 \<Rightarrow> float64" where
  "fround (FFin x) = FFin (of_int (round_away x))"
| "fround f = f"

definition float_of_int :: "int \<Rightarrow> float64" where
  "float_of_int n = rne (of_int n)"

text \<open>
  \<open>int64(f)\<close> drops the fraction. Where the value does not fit, Go leaves the result to the
  implementation (it differs between amd64 and arm64, two machines the installer supports),
  so that case is a parameter \<open>oob\<close> with 64 bits of result.
\<close>

definition min_int64 :: int where "min_int64 = - (2 ^ 63)"

definition max_int64 :: int where "max_int64 = 2 ^ 63 - 1"

definition in_int64 :: "int \<Rightarrow> bool" where
  "in_int64 n \<longleftrightarrow> min_int64 \<le> n \<and> n \<le> max_int64"

definition truncate_rat :: "rat \<Rightarrow> int" where
  "truncate_rat r = (if 0 \<le> r then \<lfloor>r\<rfloor> else - \<lfloor>- r\<rfloor>)"

fun int64_of_float :: "(float64 \<Rightarrow> 64 word) \<Rightarrow> float64 \<Rightarrow> int" where
  "int64_of_float oob (FFin x) =
     (if in_int64 (truncate_rat x) then truncate_rat x else sint (oob (FFin x)))"
| "int64_of_float oob f = sint (oob f)"

lemma in_int64_sint [simp]: "in_int64 (sint (w :: 64 word))"
  using sint_ge [of w] sint_lt [of w] by (simp add: in_int64_def min_int64_def max_int64_def)

lemma in_int64_of_float [simp]: "in_int64 (int64_of_float oob f)"
  by (cases f) simp_all

section \<open>Facts about rounding\<close>

lemma ilog2_bounds:
  assumes "0 < r"
  shows "2 powi ilog2 r \<le> r" and "r < 2 powi (ilog2 r + 1)"
proof -
  obtain p q where pq: "quotient_of r = (p, q)" by (cases "quotient_of r")
  have q: "0 < q" by (rule quotient_of_denom_pos [OF pq])
  have r: "r = of_int p / of_int q" by (rule quotient_of_div [OF pq])
  from assms r q have p: "0 < p" by (simp add: zero_less_divide_iff)
  define a where "a = bitlen p"
  define b where "b = bitlen q"
  from p q have ab: "1 \<le> a" "1 \<le> b"
    unfolding a_def b_def by (simp_all add: bitlen_ge_iff_power)
  have pw: "(of_int (2 ^ nat n) :: rat) = 2 powi n" if "0 \<le> n" for n
    using that by (simp add: power_int_def)
  have p1: "2 powi (a - 1) \<le> (of_int p :: rat)" and p2: "(of_int p :: rat) < 2 powi a"
    using bitlen_bounds [of p] p ab unfolding a_def
    by (simp_all add: pw [symmetric] del: of_int_power)
  have q1: "2 powi (b - 1) \<le> (of_int q :: rat)" and q2: "(of_int q :: rat) < 2 powi b"
    using bitlen_bounds [of q] q ab unfolding b_def
    by (simp_all add: pw [symmetric] del: of_int_power)
  have lo: "2 powi (a - b - 1) < r"
  proof -
    have "2 powi (a - b - 1) * of_int q < 2 powi (a - b - 1) * (2 powi b :: rat)"
      using q2 by simp
    also have "\<dots> = 2 powi (a - 1)" by (simp add: power_int_add [symmetric])
    also have "\<dots> \<le> of_int p" by (rule p1)
    finally show ?thesis using q by (simp add: r field_simps)
  qed
  have hi: "r < 2 powi (a - b + 1)"
  proof -
    have "(of_int p :: rat) < 2 powi a" by (rule p2)
    also have "\<dots> = 2 powi (a - b + 1) * 2 powi (b - 1)" by (simp add: power_int_add [symmetric])
    also have "\<dots> \<le> 2 powi (a - b + 1) * of_int q" using q1 by simp
    finally show ?thesis using q by (simp add: r field_simps)
  qed
  have il: "ilog2 r = (if 2 powi (a - b) \<le> r then a - b else a - b - 1)"
    by (simp add: ilog2_def pq a_def b_def Let_def)
  show "2 powi ilog2 r \<le> r" using lo by (simp add: il less_imp_le)
  show "r < 2 powi (ilog2 r + 1)" using hi by (simp add: il)
qed

lemma powi2_less_iff: "(2 powi a :: rat) < 2 powi b \<longleftrightarrow> a < b"
  by (metis linorder_not_le one_less_numeral_iff order_less_imp_le power_int_increasing
      power_int_strict_increasing semiring_norm(76))

lemma ilog2_less:
  assumes "0 < r" and "r < 2 powi k"
  shows "ilog2 r < k"
proof -
  have "2 powi ilog2 r < (2 powi k :: rat)"
    using ilog2_bounds(1) [OF assms(1)] assms(2) by (rule le_less_trans)
  then show ?thesis by (simp add: powi2_less_iff)
qed

lemma ilog2_ge:
  assumes "2 powi k \<le> (r :: rat)"
  shows "k \<le> ilog2 r"
proof -
  have "0 < (2 powi k :: rat)" by simp
  with assms have "0 < r" by (rule less_le_trans [rotated])
  then have "2 powi k < (2 powi (ilog2 r + 1) :: rat)"
    using ilog2_bounds(2) assms by (blast intro: le_less_trans)
  then show ?thesis by (simp add: powi2_less_iff)
qed

lemma round_half_even_error: "\<bar>of_int (round_half_even x) - x\<bar> \<le> 1 / 2"
proof -
  have "of_int \<lfloor>x\<rfloor> \<le> x" and "x < of_int \<lfloor>x\<rfloor> + 1" by linarith+
  then show ?thesis by (auto simp: round_half_even_def Let_def abs_le_iff)
qed

lemma round_half_even_of_int [simp]: "round_half_even (of_int n) = n"
  by (simp add: round_half_even_def)

text \<open>
  Every rational of normal size rounds to a finite value with a relative error of at most
  half a unit in the last place.
\<close>

lemma rne_relative_error:
  assumes lo: "2 powi (-1022) \<le> \<bar>r\<bar>" and hi: "\<bar>r\<bar> < 2 powi 1022"
  obtains v where "rne r = FFin v" and "\<bar>v - r\<bar> \<le> \<bar>r\<bar> / 2 ^ 53"
proof -
  have "0 < (2 powi (-1022) :: rat)" by (rule zero_less_power_int) simp
  then have pos: "0 < \<bar>r\<bar>" using lo by (rule less_le_trans)
  define e where "e = ilog2 \<bar>r\<bar> - 52"
  define m where "m = round_half_even (r / 2 powi e)"
  have e1: "-1074 \<le> e" using ilog2_ge [OF lo] by (simp add: e_def)
  have e2: "e < 970" using ilog2_less [OF pos hi] by (simp add: e_def)
  have "rne r = FFin (of_int m * 2 powi e)"
    using pos e1 e2 by (simp add: rne_def Let_def e_def [symmetric] m_def [symmetric])
  moreover have "\<bar>of_int m * 2 powi e - r\<bar> \<le> \<bar>r\<bar> / 2 ^ 53"
  proof -
    have "of_int m * 2 powi e - r = (of_int m - r / 2 powi e) * 2 powi e"
      by (simp add: left_diff_distrib)
    then have "\<bar>of_int m * 2 powi e - r\<bar> = \<bar>of_int m - r / 2 powi e\<bar> * 2 powi e"
      by (simp add: abs_mult)
    also have "\<dots> \<le> 1 / 2 * 2 powi e"
      unfolding m_def by (intro mult_right_mono round_half_even_error) simp
    also have "\<dots> = 2 powi (ilog2 \<bar>r\<bar>) / 2 ^ 53"
      by (simp add: e_def power_int_diff)
    also have "\<dots> \<le> \<bar>r\<bar> / 2 ^ 53"
      using ilog2_bounds(1) [OF pos] by (simp add: divide_right_mono)
    finally show ?thesis .
  qed
  ultimately show thesis by (rule that)
qed

lemma round_away_of_int [simp]: "round_away (of_int n) = n"
  by (auto simp: round_away_def floor_unique)

lemma round_away_near:
  assumes "\<bar>x - of_int n\<bar> < 1 / 2"
  shows "round_away x = n"
proof (cases "0 \<le> x")
  case True
  have "\<lfloor>x + 1 / 2\<rfloor> = n" using assms by (intro floor_unique) linarith+
  with True show ?thesis by (simp add: round_away_def)
next
  case False
  have "\<lfloor>1 / 2 - x\<rfloor> = - n"
    using assms by (intro floor_unique) (unfold of_int_minus, linarith+)
  with False show ?thesis by (simp add: round_away_def)
qed

lemma ilog2_powi: "ilog2 (2 powi k) = k"
  using ilog2_less [of "2 powi k" "k + 1"] ilog2_ge [of k "2 powi k"]
  by (simp add: powi2_less_iff)

lemma rne_on_grid:
  assumes "r \<noteq> 0" and "e = max (ilog2 \<bar>r\<bar> - 52) (-1074)" and "e < 971"
    and "r = of_int j * 2 powi e"
  shows "rne r = FFin r"
proof -
  have "round_half_even (r / 2 powi e) = j" by (simp add: assms(4))
  then have "rne r = (if e > 971 \<or> e = 971 \<and> \<bar>j\<bar> \<ge> 2 ^ 53 then FInf (r < 0) else FFin r)"
    using assms(1) by (simp only: rne_def Let_def assms(2) [symmetric] assms(4) [symmetric] if_False)
  with assms(3) show ?thesis by simp
qed

text \<open>A value with at most 53 significant bits is its own rounding.\<close>

lemma powi_shift: "e \<le> k \<Longrightarrow> (2 powi k :: rat) = of_int (2 ^ nat (k - e)) * 2 powi e"
  by (simp add: power_int_def [of _ "k - e", symmetric] power_int_add [symmetric]
      flip: power_int_of_nat)

lemma rne_exact:
  assumes m: "\<bar>m\<bar> < 2 ^ 53" and k: "-1074 \<le> k" "k \<le> 900"
  shows "rne (of_int m * 2 powi k) = FFin (of_int m * 2 powi k)"
proof (cases "m = 0")
  case True
  then show ?thesis by (simp add: rne_def)
next
  case False
  define r :: rat where "r = of_int m * 2 powi k"
  define e where "e = max (ilog2 \<bar>r\<bar> - 52) (-1074)"
  have r0: "0 < \<bar>r\<bar>" using False by (simp add: r_def)
  have "\<bar>r\<bar> = of_int \<bar>m\<bar> * 2 powi k" by (simp add: r_def abs_mult)
  also have "\<dots> < 2 ^ 53 * 2 powi k"
    using m by (metis mult_less_cancel_right_pos of_int_less_iff of_int_numeral of_int_power
        zero_less_numeral zero_less_power_int)
  also have "\<dots> = 2 powi (k + 53)" by (simp add: power_int_add)
  finally have "ilog2 \<bar>r\<bar> < k + 53" by (rule ilog2_less [OF r0])
  then have e: "e \<le> k" "e < 971" using k by (simp_all add: e_def)
  have "r = of_int (m * 2 ^ nat (k - e)) * 2 powi e"
    using powi_shift [OF e(1)] by (simp add: r_def)
  with r0 show ?thesis
    unfolding r_def [symmetric]
    by (intro rne_on_grid [OF _ e_def e(2), of "m * 2 ^ nat (k - e)"]) simp_all
qed

lemma rne_of_int: "\<bar>n\<bar> < 2 ^ 53 \<Longrightarrow> rne (of_int n) = FFin (of_int n)"
  using rne_exact [of n 0] by simp

text \<open>
  Dividing an integer by a small constant and multiplying the result back gives, after
  both roundings, a value within one half of the integer.
\<close>

lemma rne_relative_error_mid:
  assumes "1 / 2 ^ 20 \<le> r" and "r < 2 ^ 60"
  obtains v where "rne r = FFin v" and "\<bar>v - r\<bar> \<le> r / 2 ^ 53"
proof -
  have "(2 powi (-1022) :: rat) \<le> 2 powi (-20)" by (intro power_int_increasing) simp_all
  moreover have "(2 powi 60 :: rat) < 2 powi 1022" by (simp only: powi2_less_iff)
  ultimately have "2 powi (-1022) \<le> (1 / 2 ^ 20 :: rat)" and "(2 ^ 60 :: rat) < 2 powi 1022"
    by (simp_all add: power_int_minus_divide)
  moreover have pos: "0 < r" using assms(1) by (rule less_le_trans [rotated]) simp
  ultimately have "2 powi (-1022) \<le> \<bar>r\<bar>" and "\<bar>r\<bar> < 2 powi 1022"
    using assms by (simp_all only: abs_of_pos [OF pos] order_trans less_trans)
  then obtain v where "rne r = FFin v" and "\<bar>v - r\<bar> \<le> \<bar>r\<bar> / 2 ^ 53"
    by (rule rne_relative_error)
  with pos that show thesis by simp
qed

lemma rne_div_mult:
  assumes n: "0 < n" "n < 2 ^ 50" and d: "0 < d" "d < 2 ^ 10"
  obtains x y where "rne (of_int n / of_int d) = FFin x" and "rne (x * of_int d) = FFin y"
    and "\<bar>y - of_int n\<bar> < 1 / 2" and "0 < x"
proof -
  define N D q :: rat where "N = of_int n" and "D = of_int d" and "q = N / D"
  have N: "1 \<le> N" "N < 2 ^ 50" and D: "1 \<le> D" "D < 2 ^ 10"
    using n d by (simp_all add: N_def D_def)
  have qD: "q * D = N" and q1: "q \<le> N" using N D by (simp_all add: q_def field_simps)
  have q0: "1 / 2 ^ 10 \<le> q" using N D by (simp add: q_def field_simps)
  obtain x where x: "rne q = FFin x" "\<bar>x - q\<bar> \<le> q / 2 ^ 53"
    using rne_relative_error_mid [of q] q0 q1 N by auto
  have "x * D - N = (x - q) * D" by (simp add: left_diff_distrib qD)
  then have "\<bar>x * D - N\<bar> = \<bar>x - q\<bar> * D" using D by (simp add: abs_mult)
  also have "\<dots> \<le> q / 2 ^ 53 * D" using x(2) D by (intro mult_right_mono) simp_all
  finally have xD: "\<bar>x * D - N\<bar> \<le> N / 2 ^ 53" using qD by simp
  moreover have "N / 2 ^ 53 \<le> N / 2" "N / 2 ^ 53 \<le> 1 / 8" using N by simp_all
  ultimately have "N / 2 \<le> x * D" "x * D \<le> N + 1" by linarith+
  with N have b: "1 / 2 ^ 20 \<le> x * D" "x * D < 2 ^ 60" by simp_all
  then obtain y where y: "rne (x * D) = FFin y" "\<bar>y - x * D\<bar> \<le> x * D / 2 ^ 53"
    using rne_relative_error_mid by blast
  have "x * D \<le> 2 ^ 51"
    using order_trans [OF \<open>x * D \<le> N + 1\<close>, of "2 ^ 51"] N(2) by simp
  then have "x * D / 2 ^ 53 \<le> 1 / 4" by (simp add: mult.commute)
  with y(2) xD \<open>N / 2 ^ 53 \<le> 1 / 8\<close> have "\<bar>y - N\<bar> < 1 / 2" by linarith
  moreover have "0 < x"
  proof -
    have "0 < x * D" using b(1) by (rule less_le_trans [rotated]) simp
    then show ?thesis by (rule zero_less_mult_pos2) (use D in simp)
  qed
  ultimately show thesis using that x(1) y(1) by (simp add: q_def N_def D_def)
qed

end
