(* ===== verification/Go_Strings.thy ===== *)
theory Go_Strings
  imports Go_Error Go_Float "HOL-Library.Char_ord"
begin

text \<open>
  Go strings are byte sequences, here \<open>string\<close> (a list of \<open>char\<close>, one per byte), with
  the functions of \<open>strings\<close>, \<open>strconv\<close> and \<open>unicode/utf8\<close> the program calls, on
  every byte string: white space and case folding beyond ASCII are written out as their
  UTF-8 sequences.
\<close>

section \<open>Prefixes, suffixes, trimming\<close>

definition hasPrefix :: "string \<Rightarrow> string \<Rightarrow> bool" where
  "hasPrefix s p \<longleftrightarrow> take (length p) s = p"

definition hasSuffix :: "string \<Rightarrow> string \<Rightarrow> bool" where
  "hasSuffix s p \<longleftrightarrow> length p \<le> length s \<and> drop (length s - length p) s = p"

fun contains :: "string \<Rightarrow> string \<Rightarrow> bool" where
  "contains [] p = (p = [])"
| "contains (c # s) p = (hasPrefix (c # s) p \<or> contains s p)"

text \<open>\<open>strings.Trim(s, "c")\<close> for a one-byte cutset.\<close>

definition trimByte :: "char \<Rightarrow> string \<Rightarrow> string" where
  "trimByte c s = rev (dropWhile (\<lambda>x. x = c) (rev (dropWhile (\<lambda>x. x = c) s)))"

text \<open>The UTF-8 sequences of the code points with the Unicode White\_Space property.\<close>

definition space_sequences :: "string list" where
  "space_sequences =
     map (\<lambda>n. [char_of n]) [9, 10, 11, 12, 13, 32 :: nat] @
     [[CHR 0xC2, CHR 0x85], [CHR 0xC2, CHR 0xA0], [CHR 0xE1, CHR 0x9A, CHR 0x80]] @
     map (\<lambda>n. [CHR 0xE2, CHR 0x80, char_of n]) ([128..<139] @ [168, 169, 175 :: nat]) @
     [[CHR 0xE2, CHR 0x81, CHR 0x9F], [CHR 0xE3, CHR 0x80, CHR 0x80]]"

function trim_sequences :: "string list \<Rightarrow> string \<Rightarrow> string" where
  "trim_sequences ws s =
     (case find (\<lambda>w. w \<noteq> [] \<and> hasPrefix s w) ws of
        None \<Rightarrow> s
      | Some w \<Rightarrow> trim_sequences ws (drop (length w) s))"
  by pat_completeness auto
termination
proof (relation "measure (\<lambda>(ws, s). length s)")
  fix ws s w
  assume "find (\<lambda>w. w \<noteq> [] \<and> hasPrefix s w) ws = Some (w :: string)"
  then have "w \<noteq> []" and "take (length w) s = w" by (auto dest: find_key_in simp: hasPrefix_def)
  then have "s \<noteq> []" by force
  with \<open>w \<noteq> []\<close> show "((ws, drop (length w) s), ws, s) \<in> measure (\<lambda>(ws, s). length s)" by simp
qed simp

declare trim_sequences.simps [simp del]

definition trimSpace :: "string \<Rightarrow> string" where
  "trimSpace s =
     rev (trim_sequences (map rev space_sequences)
       (rev (trim_sequences space_sequences s)))"

section \<open>Case folding\<close>

definition is_upper :: "char \<Rightarrow> bool" where
  "is_upper c \<longleftrightarrow> CHR ''A'' \<le> c \<and> c \<le> CHR ''Z''"

definition is_lower :: "char \<Rightarrow> bool" where
  "is_lower c \<longleftrightarrow> CHR ''a'' \<le> c \<and> c \<le> CHR ''z''"

definition is_digit :: "char \<Rightarrow> bool" where
  "is_digit c \<longleftrightarrow> CHR ''0'' \<le> c \<and> c \<le> CHR ''9''"

definition lower_ascii :: "char \<Rightarrow> char" where
  "lower_ascii c = (if is_upper c then char_of (of_char c + (32 :: nat)) else c)"

text \<open>
  \<open>strings.EqualFold(s, t)\<close> for a lower-case ASCII \<open>t\<close>. Two code points beyond ASCII
  fold to an ASCII letter: U+017F to \<open>s\<close> and U+212A to \<open>k\<close>.
\<close>

fun equalFold :: "string \<Rightarrow> string \<Rightarrow> bool" where
  "equalFold s [] = (s = [])"
| "equalFold s (c # t) =
     (if s \<noteq> [] \<and> lower_ascii (hd s) = c then equalFold (tl s) t
      else if c = CHR ''s'' \<and> hasPrefix s [CHR 0xC5, CHR 0xBF] then equalFold (drop 2 s) t
      else if c = CHR ''k'' \<and> hasPrefix s [CHR 0xE2, CHR 0x84, CHR 0xAA] then equalFold (drop 3 s) t
      else False)"

section \<open>UTF-8 validity\<close>

definition byte_in :: "nat \<Rightarrow> nat \<Rightarrow> char \<Rightarrow> bool" where
  "byte_in lo hi c \<longleftrightarrow> lo \<le> of_char c \<and> of_char c \<le> hi"

text \<open>
  The width of the encoded rune at the head of \<open>s\<close>, 0 when the bytes there encode none:
  the accept ranges of \<open>unicode/utf8\<close> (no overlong forms, no surrogates, at most U+10FFFF).
\<close>

definition lead_byte :: "char \<Rightarrow> nat \<times> nat \<times> nat" where
  \<comment> \<open>the width, and the range of the second byte: the tables \<open>first\<close> and \<open>acceptRanges\<close>\<close>
  "lead_byte a =
     (if byte_in 0 127 a then (1, 0, 0)
      else if byte_in 194 223 a then (2, 128, 191)
      else if byte_in 224 224 a then (3, 160, 191)
      else if byte_in 237 237 a then (3, 128, 159)
      else if byte_in 225 239 a then (3, 128, 191)
      else if byte_in 240 240 a then (4, 144, 191)
      else if byte_in 241 243 a then (4, 128, 191)
      else if byte_in 244 244 a then (4, 128, 143)
      else (0, 0, 0))"

fun rune_width :: "string \<Rightarrow> nat" where
  "rune_width [] = 0"
| "rune_width (a # s) =
     (case lead_byte a of (w, lo, hi) \<Rightarrow>
        if w \<le> 1 then w
        else if w \<le> length (a # s) \<and> byte_in lo hi (hd s) \<and>
          list_all (byte_in 128 191) (take (w - 2) (tl s)) then w
        else 0)"

lemma rune_width_le: "rune_width s \<le> length s"
  by (cases s) (auto split: prod.splits)

lemma rune_width_prefix:
  assumes w: "rune_width s = w" "0 < w"
  shows "rune_width (take w s @ t) = w"
proof (cases s)
  case (Cons a r)
  obtain v lo hi where l: "lead_byte a = (v, lo, hi)" by (cases "lead_byte a")
  with w Cons have v: "v = w" by (auto split: if_splits)
  show ?thesis
  proof (cases "w \<le> 1")
    case True
    with l v w(2) Cons show ?thesis by (cases w) auto
  next
    case False
    with l v w Cons have r: "w - 1 \<le> length r" "byte_in lo hi (hd r)"
      "list_all (byte_in 128 191) (take (w - 2) (tl r))" by (auto split: if_splits)
    from False obtain k where k: "w = Suc (Suc k)" by (metis One_nat_def Suc_le_D not_less_eq_eq)
    with r(1) obtain b q where "r = b # q" by (cases r) auto
    with False l v k r Cons show ?thesis by simp
  qed
qed (use w in simp)

text \<open>\<open>utf8.ValidString\<close> and \<open>strings.ToValidUTF8(s, "\uFFFD")\<close>: a run of bytes that
  encode nothing becomes one replacement character.\<close>

function validString :: "string \<Rightarrow> bool" where
  "validString s =
     (if s = [] then True
      else if rune_width s = 0 then False
      else validString (drop (rune_width s) s))"
  by pat_completeness auto
termination
  by (relation "measure length") (auto simp del: rune_width.simps)

declare validString.simps [simp del]

definition replacement :: string where
  "replacement = [CHR 0xEF, CHR 0xBF, CHR 0xBD]"

function toValidUTF8 :: "bool \<Rightarrow> string \<Rightarrow> string" where
  "toValidUTF8 invalid s =
     (if s = [] then []
      else if rune_width s = 0
      then (if invalid then [] else replacement) @ toValidUTF8 True (tl s)
      else take (rune_width s) s @ toValidUTF8 False (drop (rune_width s) s))"
  by pat_completeness auto
termination
  by (relation "measure (\<lambda>(i, s). length s)") (auto simp del: rune_width.simps)

declare toValidUTF8.simps [simp del]

text \<open>Sanitised text is valid, and valid text is left alone.\<close>

lemma validString_rune:
  assumes "rune_width s = w" and "0 < w"
  shows "validString (take w s @ t) = validString t"
proof -
  have "w \<le> length s" using rune_width_le [of s] assms(1) by simp
  moreover have "rune_width (take w s @ t) = w" using assms by (rule rune_width_prefix)
  moreover have "s \<noteq> []" using assms by auto
  ultimately show ?thesis using assms(2) by (subst validString.simps) simp
qed

lemma validString_replacement: "validString (replacement @ t) = validString t"
proof -
  have "rune_width replacement = 3" by code_simp
  then show ?thesis using validString_rune [of replacement 3 t] by (simp add: replacement_def)
qed

lemma validString_toValidUTF8: "validString (toValidUTF8 b s)"
proof (induction b s rule: toValidUTF8.induct)
  case (1 b s)
  show ?case
  proof (cases "s = []")
    case True
    then show ?thesis by (simp add: toValidUTF8.simps validString.simps)
  next
    case False
    then show ?thesis
      using 1 validString_rune [of s "rune_width s"] validString_replacement
      by (subst toValidUTF8.simps) (simp add: gr0_conv_Suc)
  qed
qed

lemma toValidUTF8_valid: "validString s \<Longrightarrow> toValidUTF8 b s = s"
proof (induction b s rule: toValidUTF8.induct)
  case (1 b s)
  then show ?case
    by (subst toValidUTF8.simps) (auto simp: validString.simps [of s] split: if_splits)
qed

section \<open>Decimal numerals of integers\<close>

text \<open>\<open>strconv.AppendInt(nil, n, 10)\<close>, which \<open>%d\<close> prints too.\<close>

fun show_nat :: "nat \<Rightarrow> string" where
  "show_nat n =
     (if n < 10 then [char_of (48 + n)] else show_nat (n div 10) @ [char_of (48 + n mod 10)])"

declare show_nat.simps [simp del]

definition show_int :: "int \<Rightarrow> string" where
  "show_int n = (if n < 0 then CHR ''-'' # show_nat (nat (- n)) else show_nat (nat n))"

section \<open>\<open>strconv.ParseFloat\<close>\<close>

text \<open>
  The scanner of \<open>readFloat\<close>: digits (also hexadecimal ones after \<open>0x\<close>), at most one
  point, underscores. It returns the digits read as one number, how many of them stood
  after the point, whether there was any digit and any underscore, and the rest.
\<close>

definition digit_val :: "char \<Rightarrow> nat" where
  "digit_val c =
     (if is_digit c then of_char c - 48 else of_char (lower_ascii c) - 87)"

definition is_hex_letter :: "char \<Rightarrow> bool" where
  "is_hex_letter c \<longleftrightarrow> CHR ''a'' \<le> lower_ascii c \<and> lower_ascii c \<le> CHR ''f''"

fun scan_mantissa :: "bool \<Rightarrow> string \<Rightarrow> nat \<Rightarrow> nat \<Rightarrow> bool \<Rightarrow> bool \<Rightarrow> bool \<Rightarrow>
    nat \<times> nat \<times> bool \<times> bool \<times> string" where
  "scan_mantissa hex [] m fr dot dig und = (m, fr, dig, und, [])"
| "scan_mantissa hex (c # s) m fr dot dig und =
     (if c = CHR ''_'' then scan_mantissa hex s m fr dot dig True
      else if c = CHR ''.'' then
        (if dot then (m, fr, dig, und, c # s) else scan_mantissa hex s m fr True dig und)
      else if is_digit c \<or> hex \<and> is_hex_letter c then
        scan_mantissa hex s ((if hex then 16 else 10) * m + digit_val c)
          (if dot then Suc fr else fr) dot True und
      else (m, fr, dig, und, c # s))"

text \<open>The digits of an exponent; from 10000 on they are read and ignored.\<close>

fun scan_exponent :: "string \<Rightarrow> int \<Rightarrow> bool \<Rightarrow> int \<times> bool \<times> string" where
  "scan_exponent [] e und = (e, und, [])"
| "scan_exponent (c # s) e und =
     (if c = CHR ''_'' then scan_exponent s e True
      else if is_digit c then scan_exponent s (if e < 10000 then 10 * e + int (digit_val c) else e) und
      else (e, und, c # s))"

text \<open>\<open>underscoreOK\<close>: underscores stand between digits, or between a base prefix and a
  digit. The state is the class of the last byte.\<close>

datatype seen = SeenStart | SeenDigit | SeenUnderscore | SeenOther

fun underscores_between :: "bool \<Rightarrow> seen \<Rightarrow> string \<Rightarrow> bool" where
  "underscores_between hex saw [] = (saw \<noteq> SeenUnderscore)"
| "underscores_between hex saw (c # s) =
     (if is_digit c \<or> hex \<and> is_hex_letter c then underscores_between hex SeenDigit s
      else if c = CHR ''_'' then saw = SeenDigit \<and> underscores_between hex SeenUnderscore s
      else saw \<noteq> SeenUnderscore \<and> underscores_between hex SeenOther s)"

definition drop_sign :: "string \<Rightarrow> string" where
  "drop_sign s = (if s \<noteq> [] \<and> (hd s = CHR ''+'' \<or> hd s = CHR ''-'') then tl s else s)"

definition has_base_prefix :: "char list \<Rightarrow> string \<Rightarrow> bool" where
  "has_base_prefix cs s \<longleftrightarrow>
     2 \<le> length s \<and> hd s = CHR ''0'' \<and> lower_ascii (s ! 1) \<in> set cs"

definition underscoreOK :: "string \<Rightarrow> bool" where
  "underscoreOK s =
     (let t = drop_sign s
      in if has_base_prefix ''box'' t
         then underscores_between (has_base_prefix ''x'' t) SeenDigit (drop 2 t)
         else underscores_between False SeenStart t)"

text \<open>\<open>special\<close>: infinities and NaN in any case, the infinities with a sign.\<close>

definition special_float :: "string \<Rightarrow> float64 option" where
  "special_float s =
     (let t = drop_sign s; neg = (s \<noteq> [] \<and> hd s = CHR ''-'')
      in if map lower_ascii t = ''inf'' \<or> map lower_ascii t = ''infinity'' then Some (FInf neg)
         else if map lower_ascii s = ''nan'' then Some FNaN
         else None)"

text \<open>The value a numeral denotes, before rounding; None where its syntax is wrong.\<close>

definition readFloat :: "string \<Rightarrow> rat option" where
  "readFloat s =
     (let neg = (s \<noteq> [] \<and> hd s = CHR ''-''); t = drop_sign s;
          hex = (has_base_prefix ''x'' t \<and> 2 < length t);
          (m, fr, dig, und, r) = scan_mantissa hex (if hex then drop 2 t else t) 0 0 False False False;
          expChar = (if hex then CHR ''p'' else CHR ''e'')
      in if \<not> dig then None
         else if r = [] \<or> lower_ascii (hd r) \<noteq> expChar then
           (if hex \<or> r \<noteq> [] \<or> und \<and> \<not> underscoreOK s then None
            else Some (of_int (if neg then - int m else int m) * 10 powi (- int fr)))
         else
           (let x = tl r; eneg = (x \<noteq> [] \<and> hd x = CHR ''-''); y = drop_sign x
            in if y = [] \<or> \<not> is_digit (hd y) then None
               else let (e, und', rest) = scan_exponent y 0 und; ex = (if eneg then - e else e)
                    in if rest \<noteq> [] \<or> und' \<and> \<not> underscoreOK s then None
                       else Some (of_int (if neg then - int m else int m) *
                         (if hex then 2 powi (ex - 4 * int fr) else 10 powi (ex - int fr)))))"

definition parseFloat :: "string \<Rightarrow> err + float64" where
  "parseFloat s =
     (case special_float s of
        Some f \<Rightarrow> Inr f
      | None \<Rightarrow>
          (case readFloat s of
             None \<Rightarrow> Inl (EMsg (MParseSyntax s))
           | Some v \<Rightarrow> if is_inf (rne v) then Inl (EMsg (MParseRange s)) else Inr (rne v)))"

end
