(* ===== verification/Go_Value.thy ===== *)
theory Go_Value
  imports Go_Strings
begin

text \<open>
  Values of Go's \<open>any\<close> as the program passes them between a command payload, the register
  tables and the published maps, with the conversions of \<open>src/registers.go\<close> and
  \<open>src/inverter.go\<close> that switch on their dynamic type.

  An \<open>int64\<close> is an \<open>int\<close> of its range: the program does no arithmetic on it. The
  argument \<open>oob\<close> of a conversion is what the platform returns for a float that does not
  fit \<open>int64\<close>.
\<close>

type_synonym u16 = "16 word"
type_synonym f2i = "float64 \<Rightarrow> 64 word"

datatype goval =
    GNil
  | GBool bool
  | GInt int
  | GInt64 int
  | GUint16 u16
  | GFloat float64
  | GFloat32 float64
  | GString string
  | GComposite  \<comment> \<open>a map or a slice: no conversion looks inside\<close>

text \<open>The integers of a value are \<open>int64\<close> values.\<close>

fun goval_ok :: "goval \<Rightarrow> bool" where
  "goval_ok (GInt n) = in_int64 n"
| "goval_ok (GInt64 n) = in_int64 n"
| "goval_ok _ = True"

text \<open>\<open>floatAsInt64\<close>: a float within a thousandth of an integer is that integer.\<close>

definition floatAsInt64 :: "f2i \<Rightarrow> float64 \<Rightarrow> err + int" where
  "floatAsInt64 oob v =
     (let rounded = fround v
      in if is_nan v \<or> is_inf v \<or> fle (rne (1 / 1000)) (fabs (fsub v rounded))
         then Inl (EMsg MNotInteger)
         else Inr (int64_of_float oob rounded))"

fun asInt64 :: "f2i \<Rightarrow> goval \<Rightarrow> err + int" where
  "asInt64 oob (GInt n) = Inr n"
| "asInt64 oob (GInt64 n) = Inr n"
| "asInt64 oob (GUint16 w) = Inr (uint w)"
| "asInt64 oob (GFloat f) = floatAsInt64 oob f"
| "asInt64 oob (GString s) = and_then (parseFloat (trimSpace s)) (floatAsInt64 oob)"
| "asInt64 oob _ = Inl (EMsg MUnsupportedNumeric)"

fun asFloat64 :: "goval \<Rightarrow> err + float64" where
  "asFloat64 (GInt n) = Inr (float_of_int n)"
| "asFloat64 (GInt64 n) = Inr (float_of_int n)"
| "asFloat64 (GUint16 w) = Inr (float_of_int (uint w))"
| "asFloat64 (GFloat f) = Inr f"
| "asFloat64 (GString s) = parseFloat (trimSpace s)"
| "asFloat64 _ = Inl (EMsg MUnsupportedNumeric)"

fun parseBool :: "goval \<Rightarrow> err + bool" where
  "parseBool (GBool b) = Inr b"
| "parseBool (GInt n) = Inr (n \<noteq> 0)"
| "parseBool (GInt64 n) = Inr (n \<noteq> 0)"
| "parseBool (GFloat f) = Inr (\<not> feq f (FFin 0))"
| "parseBool (GString s) =
     (let text = trimSpace s
      in if equalFold text ''yes'' \<or> equalFold text ''true'' \<or> equalFold text ''t'' \<or>
            text = ''1'' \<or> equalFold text ''on'' then Inr True
         else if equalFold text ''no'' \<or> equalFold text ''false'' \<or> equalFold text ''f'' \<or>
            text = ''0'' \<or> equalFold text ''off'' then Inr False
         else Inl (EMsg MBoolExpected))"
| "parseBool _ = Inl (EMsg MBoolExpected)"

fun scalarAsFloat64 :: "goval \<Rightarrow> float64 option" where
  "scalarAsFloat64 (GInt64 n) = Some (float_of_int n)"
| "scalarAsFloat64 (GInt n) = Some (float_of_int n)"
| "scalarAsFloat64 (GFloat f) = Some f"
| "scalarAsFloat64 (GFloat32 f) = Some f"
| "scalarAsFloat64 _ = None"

text \<open>\<open>finiteScalar\<close>: a payload that is no JSON scalar; a numeral becomes a number, an
  infinity or a NaN is refused, anything else is the text itself.\<close>

definition finiteScalar :: "f2i \<Rightarrow> string \<Rightarrow> err + goval" where
  "finiteScalar oob raw =
     (case parseFloat raw of
        Inl _ \<Rightarrow> Inr (GString raw)
      | Inr parsed \<Rightarrow>
          if is_nan parsed \<or> is_inf parsed then Inl (EMsg MInvalidValue)
          else let rounded = fround parsed
               in if flt (fabs (fsub parsed rounded)) (rne (1 / 1000))
                  then Inr (GInt64 (int64_of_float oob rounded))
                  else Inr (GFloat parsed))"

text \<open>A raw register value: the struct \<open>rawRegisterValue\<close>.\<close>

record rawRegisterValue =
  raw_integer :: int
  raw_text :: string
  raw_isText :: bool

definition raw_value :: "rawRegisterValue \<Rightarrow> goval" where
  "raw_value v = (if raw_isText v then GString (raw_text v) else GInt64 (raw_integer v))"

definition raw_asInt64 :: "f2i \<Rightarrow> rawRegisterValue \<Rightarrow> err + int" where
  "raw_asInt64 oob v =
     (if raw_isText v then asInt64 oob (GString (raw_text v)) else Inr (raw_integer v))"

definition raw_asFloat64 :: "rawRegisterValue \<Rightarrow> err + float64" where
  "raw_asFloat64 v =
     (if raw_isText v then asFloat64 (GString (raw_text v)) else Inr (float_of_int (raw_integer v)))"

definition raw_int :: "int \<Rightarrow> rawRegisterValue" where
  "raw_int n = \<lparr>raw_integer = n, raw_text = [], raw_isText = False\<rparr>"

definition raw_string :: "string \<Rightarrow> rawRegisterValue" where
  "raw_string s = \<lparr>raw_integer = 0, raw_text = s, raw_isText = True\<rparr>"

lemma raw_simps [simp]:
  "raw_value (raw_int n) = GInt64 n"
  "raw_value (raw_string s) = GString s"
  "raw_asInt64 oob (raw_int n) = Inr n"
  "raw_asFloat64 (raw_int n) = Inr (float_of_int n)"
  by (simp_all add: raw_value_def raw_asInt64_def raw_asFloat64_def raw_int_def raw_string_def)

section \<open>Integers survive the float conversions\<close>

lemma float_of_int_exact: "\<bar>n\<bar> < 2 ^ 53 \<Longrightarrow> float_of_int n = FFin (of_int n)"
  by (simp add: float_of_int_def rne_of_int)

lemma truncate_rat_of_int [simp]: "truncate_rat (of_int n) = n"
  by (simp add: truncate_rat_def floor_minus)

lemma int64_of_float_of_int:
  "\<bar>n\<bar> < 2 ^ 53 \<Longrightarrow> int64_of_float oob (FFin (of_int n)) = n"
  by (simp add: in_int64_def min_int64_def max_int64_def) linarith

lemma rne_0 [simp]: "rne 0 = FFin 0"
  by (simp add: rne_def)

lemma rne_pos: "0 < r \<Longrightarrow> rne r \<noteq> FNaN \<and> rne r \<noteq> FInf True"
  by (simp add: rne_def Let_def)

text \<open>An integral float converts to its integer.\<close>

lemma rne_thousandth: "rne (1 / 1000) = FFin (1152921504606847 / 1152921504606846976)"
  by code_simp

lemma floatAsInt64_of_int:
  assumes "\<bar>n\<bar> < 2 ^ 53"
  shows "floatAsInt64 oob (FFin (of_int n)) = Inr n"
proof -
  have "int64_of_float oob (FFin (of_int n)) = n" using assms by (rule int64_of_float_of_int)
  then show ?thesis by (simp add: floatAsInt64_def fsub_def fle_def rne_thousandth Let_def)
qed

lemma floatAsInt64_range: "floatAsInt64 oob f = Inr n \<Longrightarrow> in_int64 n"
  by (auto simp: floatAsInt64_def Let_def split: if_splits)

lemma asInt64_range: "asInt64 oob v = Inr n \<Longrightarrow> goval_ok v \<Longrightarrow> in_int64 n"
proof (cases v)
  case (GUint16 w)
  note v = this
  have "uint w < 65536" and "0 \<le> uint w" using uint_lt2p [of w] by simp_all
  moreover have "in_int64 k" if "0 \<le> k" "k < 65536" for k
    using that by (simp add: in_int64_def min_int64_def max_int64_def)
  ultimately have "in_int64 (uint w)" by blast
  moreover assume "asInt64 oob v = Inr n"
  ultimately show ?thesis by (simp add: v)
qed (auto dest: floatAsInt64_range)

lemma finiteScalar_ok: "finiteScalar oob s = Inr v \<Longrightarrow> goval_ok v"
  by (auto simp: finiteScalar_def Let_def split: sum.splits if_splits)

end
