(* ===== verification/Transforms.thy ===== *)
theory Transforms
  imports Go_Value
begin

text \<open>
  The read and write transforms of \<open>src/registers.go\<close> (lines 62 to 167 and 251 to 270):
  how a raw register value becomes a published value, and how a command value becomes
  what is encoded into registers.
\<close>

type_synonym readValueFunc = "rawRegisterValue \<Rightarrow> err + goval"
type_synonym writeValueFunc = "goval \<Rightarrow> err + goval"

definition identity :: readValueFunc where
  "identity v = Inr (raw_value v)"

definition asBool :: "f2i \<Rightarrow> readValueFunc" where
  "asBool oob v = and_then (raw_asInt64 oob v) (\<lambda>number. Inr (GBool (number \<noteq> 0)))"

definition boolWrite :: writeValueFunc where
  "boolWrite v = and_then (parseBool v) (\<lambda>parsed. Inr (GInt64 (if parsed then 1 else 0)))"

definition scaled :: "float64 \<Rightarrow> readValueFunc" where
  "scaled divisor v = and_then (raw_asFloat64 v) (\<lambda>number. Inr (GFloat (fdiv number divisor)))"

definition scaleWrite :: "f2i \<Rightarrow> float64 \<Rightarrow> writeValueFunc" where
  "scaleWrite oob multiplier v =
     (case asFloat64 v of
        Inl _ \<Rightarrow> Inl (EMsg MInvalidNumeric)
      | Inr number \<Rightarrow>
          if is_nan number \<or> is_inf number then Inl (EMsg MInvalidNumeric)
          else Inr (GInt64 (int64_of_float oob (fround (fmul number multiplier)))))"

definition intWrite :: "f2i \<Rightarrow> writeValueFunc" where
  "intWrite oob v = and_then (asInt64 oob v) (\<lambda>n. Inr (GInt64 n))"

definition stringWrite :: writeValueFunc where
  "stringWrite v = (case v of GString s \<Rightarrow> Inr (GString s) | _ \<Rightarrow> Inl (EMsg MStringRequired))"

definition enumRead :: "f2i \<Rightarrow> (int \<times> goval) list \<Rightarrow> readValueFunc" where
  "enumRead oob vals v =
     and_then (raw_asInt64 oob v)
       (\<lambda>number. case map_of vals number of
          None \<Rightarrow> Inl (EMsg (MUnknownEnumNumber number))
        | Some decoded \<Rightarrow> Inr decoded)"

definition enumWrite :: "(string \<times> int) list \<Rightarrow> writeValueFunc" where
  "enumWrite vals v =
     (case v of
        GString text \<Rightarrow>
          (case map_of vals text of
             None \<Rightarrow> Inl (EMsg (MUnknownEnumText text))
           | Some encoded \<Rightarrow> Inr (GInt64 encoded))
      | _ \<Rightarrow> Inl (EMsg MStringRequired))"

text \<open>
  \<open>reverseEnum\<close> ranges over a Go map and later entries overwrite earlier ones; the list
  order is the runtime's. \<open>enum_ok\<close> says that the order does not matter.
\<close>

fun reverseEnum :: "(int \<times> goval) list \<Rightarrow> (string \<times> int) list" where
  "reverseEnum [] = []"
| "reverseEnum ((key, GString text) # rest) = (text, key) # reverseEnum rest"
| "reverseEnum (_ # rest) = reverseEnum rest"

definition overTempWrite :: writeValueFunc where
  "overTempWrite v = and_then (parseBool v) (\<lambda>parsed. Inr (GInt64 (if parsed then 0 else 1)))"

definition systemStatuses :: "string list" where
  "systemStatuses =
    [''Standby'', ''PV&Grid Supporting Loads'', ''Battery Discharging'',
     ''Fault'', ''Flash'', ''PV Charging'', ''Grid Charging'',
     ''PV&Grid Charging'', ''PV&Grid Charging+Grid Bypass'',
     ''PV Charging+Grid Bypass'', ''Grid Charging+Grid Bypass'',
     ''Grid Bypass'', ''PV Charging+Loads Supporting'', ''PV Discharging'',
     ''PV&Battery Discharging'', ''Gen Charging'', ''Gen Charging+Gen Bypass'',
     ''PV&Gen Charging'', ''PV&Gen Charging+Gen Bypass'',
     ''PV Charging+Gen Bypass'', ''Gen Bypass'', ''PV Export to Grid'',
     ''PV Export to Grid+Loads Supporting'', ''PV Charging+Export to Grid'',
     ''PV Charging+Export to Grid+Loads Supporting'', ''Battery Export to Grid'',
     ''Battery Export to Grid+Loads Supporting'', ''Battery&PV Export to Grid'',
     ''Battery&PV Export to Grid+Loads Supporting'']"

definition systemStatus :: "f2i \<Rightarrow> readValueFunc" where
  "systemStatus oob v =
     and_then (raw_asInt64 oob v)
       (\<lambda>number. if 0 \<le> number \<and> number < int (length systemStatuses)
          then Inr (GString (systemStatuses ! nat number))
          else Inr (GString (''Unknown ('' @ show_int number @ '')'')))"

section \<open>The contract of a read and write pair\<close>

text \<open>
  What \<open>WriteConfig\<close> needs of the two transforms of a writable register of one word: a
  value the write accepts is encodable only if the raw value it encodes reads back, to a
  value the write maps to the same raw value again.
\<close>

locale transform_pair =
  fixes rd :: readValueFunc and wr :: writeValueFunc
  assumes wr_int: "wr v = Inr p \<Longrightarrow> \<exists>n. p = GInt64 n"
    and wr_range: "wr v = Inr (GInt64 n) \<Longrightarrow> goval_ok v \<Longrightarrow> in_int64 n"
    and rd_wr: "wr v = Inr (GInt64 n) \<Longrightarrow> 0 \<le> n \<Longrightarrow> n < 2 ^ 16 \<Longrightarrow> \<exists>a. rd (raw_int n) = Inr a"
    and wr_rd: "rd (raw_int n) = Inr a \<Longrightarrow> 0 \<le> n \<Longrightarrow> n < 2 ^ 16 \<Longrightarrow> wr a = Inr p \<Longrightarrow>
      wr v = Inr (GInt64 n) \<Longrightarrow> p = GInt64 n"
begin

lemma acknowledged:
  assumes "wr v = Inr (GInt64 n)" and "0 \<le> n" and "n < 2 ^ 16"
  obtains a where "rd (raw_int n) = Inr a" and "\<And>p. wr a = Inr p \<Longrightarrow> p = GInt64 n"
  using assms rd_wr wr_rd by blast

end

section \<open>Scaling by ten is lossless\<close>

definition f10 :: float64 where "f10 = FFin 10"

lemma rne_10: "rne 10 = f10"
  using rne_of_int [of 10] by (simp add: f10_def)

lemma scaled_raw_int: "scaled d (raw_int n) = Inr (GFloat (fdiv (float_of_int n) d))"
  by (simp add: scaled_def)

lemma scaled_scaleWrite:
  assumes n: "0 \<le> n" "n < 2 ^ 50" and d: "0 < d" "d < 2 ^ 10"
    and rd: "scaled (FFin (of_int d)) (raw_int n) = Inr a"
  shows "scaleWrite oob (FFin (of_int d)) a = Inr (GInt64 n)"
proof (cases "n = 0")
  case True
  with rd d have "a = GFloat (FFin 0)"
    by (simp add: scaled_raw_int float_of_int_def)
  with True show ?thesis
    using int64_of_float_of_int [of 0 oob] round_away_of_int [of 0] by (simp add: scaleWrite_def)
next
  case False
  then obtain x y where x: "rne (of_int n / of_int d) = FFin x"
    and y: "rne (x * of_int d) = FFin y" and near: "\<bar>y - of_int n\<bar> < 1 / 2"
    using rne_div_mult [of n d] n d by (metis order_le_less)
  have "\<bar>n\<bar> < 2 ^ 53" using n by simp
  moreover have "(2 :: int) ^ 50 < 2 ^ 53" by simp
  ultimately have "float_of_int n = FFin (of_int n)" and "int64_of_float oob (FFin (of_int n)) = n"
    by (simp_all only: float_of_int_exact int64_of_float_of_int)
  moreover from this(1) rd x d have "a = GFloat (FFin x)"
    by (simp add: scaled_raw_int)
  moreover have "round_away y = n" using near by (rule round_away_near)
  ultimately show ?thesis using y by (simp add: scaleWrite_def)
qed

section \<open>Enumerations\<close>

definition enum_ok :: "(int \<times> goval) list \<Rightarrow> bool" where
  "enum_ok vals \<longleftrightarrow> distinct (map fst vals) \<and> distinct (map fst (reverseEnum vals))"

lemma reverseEnum_mem: "(t, k) \<in> set (reverseEnum vals) \<longleftrightarrow> (k, GString t) \<in> set vals"
  by (induction vals rule: reverseEnum.induct) auto

lemma reverseEnum_correct:
  assumes "enum_ok vals"
  shows "map_of (reverseEnum vals) t = Some k \<longleftrightarrow> map_of vals k = Some (GString t)"
  using assms reverseEnum_mem by (metis enum_ok_def map_of_eq_Some_iff)

lemma enumWrite_enumRead:
  assumes "enum_ok vals"
  shows "enumWrite (reverseEnum vals) (GString t) = Inr (GInt64 k) \<longleftrightarrow>
    enumRead oob vals (raw_int k) = Inr (GString t)"
  using reverseEnum_correct [OF assms, of t k]
  by (auto simp: enumWrite_def enumRead_def split: option.splits)

lemma enumWrite_Inr:
  "enumWrite vals v = Inr p \<longleftrightarrow> (\<exists>t k. v = GString t \<and> map_of vals t = Some k \<and> p = GInt64 k)"
  by (auto simp: enumWrite_def split: goval.splits option.splits)

section \<open>The pairs of the tables meet the contract\<close>

lemma enum_transform_pair:
  assumes ok: "enum_ok vals" and keys: "\<forall>(k, t) \<in> set vals. in_int64 k"
  shows "transform_pair (enumRead oob vals) (enumWrite (reverseEnum vals))"
proof
  fix v p assume "enumWrite (reverseEnum vals) v = Inr p"
  then show "\<exists>n. p = GInt64 n" by (auto simp: enumWrite_Inr)
next
  fix v n assume "enumWrite (reverseEnum vals) v = Inr (GInt64 n)"
  then obtain t where "map_of (reverseEnum vals) t = Some n" by (auto simp: enumWrite_Inr)
  then show "in_int64 n" using keys by (auto simp: reverseEnum_mem dest!: map_of_SomeD)
next
  fix v n assume w: "enumWrite (reverseEnum vals) v = Inr (GInt64 n)"
  then obtain t where "v = GString t" by (auto simp: enumWrite_Inr)
  with w show "\<exists>a. enumRead oob vals (raw_int n) = Inr a"
    using enumWrite_enumRead [OF ok, of t n oob] by blast
next
  fix n a p
  assume r: "enumRead oob vals (raw_int n) = Inr a" and w: "enumWrite (reverseEnum vals) a = Inr p"
  from w obtain t k where a: "a = GString t" and p: "p = GInt64 k" by (auto simp: enumWrite_Inr)
  from r a have "enumWrite (reverseEnum vals) a = Inr (GInt64 n)"
    using enumWrite_enumRead [OF ok, of t n oob] by blast
  with w show "p = GInt64 n" by simp
qed

lemma scale_transform_pair:
  assumes "0 < d" and "d < 2 ^ 10"
  shows "transform_pair (scaled (FFin (of_int d))) (scaleWrite oob (FFin (of_int d)))"
proof
  fix v p assume "scaleWrite oob (FFin (of_int d)) v = Inr p"
  then show "\<exists>n. p = GInt64 n" by (auto simp: scaleWrite_def split: sum.splits if_splits)
next
  fix v n assume "scaleWrite oob (FFin (of_int d)) v = Inr (GInt64 n)"
  then show "in_int64 n" by (auto simp: scaleWrite_def split: sum.splits if_splits)
next
  fix n
  show "\<exists>a. scaled (FFin (of_int d)) (raw_int n) = Inr a" by (simp add: scaled_raw_int)
next
  fix n a p assume "scaled (FFin (of_int d)) (raw_int n) = Inr a" and "0 \<le> n" and "n < 2 ^ 16"
    and "scaleWrite oob (FFin (of_int d)) a = Inr p"
  then show "p = GInt64 n" using scaled_scaleWrite [of n d a oob] assms by simp
qed

interpretation int_pair: transform_pair identity "intWrite oob" for oob
proof
  fix v p assume "intWrite oob v = Inr p"
  then show "\<exists>n. p = GInt64 n" by (auto simp: intWrite_def)
qed (auto simp: identity_def intWrite_def dest: asInt64_range)

interpretation bool_pair: transform_pair "asBool oob" boolWrite for oob
proof
  fix v p assume "boolWrite v = Inr p"
  then show "\<exists>n. p = GInt64 n" by (auto simp: boolWrite_def)
qed (auto simp: asBool_def boolWrite_def in_int64_def min_int64_def max_int64_def split: if_splits)

interpretation tenth_pair: transform_pair "scaled f10" "scaleWrite oob f10" for oob
  using scale_transform_pair [of 10 oob] by (simp add: f10_def)

text \<open>C26: a one-word register that is published divided by ten is lossless in
  spite of the two binary roundings: writing the published number back gives the raw word
  it was read from, whatever the platform does with out-of-range conversions.\<close>

theorem scaled_value_writes_back:
  fixes w :: u16
  shows "\<exists>x. scaled f10 (raw_int (uint w)) = Inr (GFloat (FFin x)) \<and>
    scaleWrite oob f10 (GFloat (FFin x)) = Inr (GInt64 (uint w))"
proof -
  have w: "0 \<le> uint w" "uint w < 2 ^ 50" using uint_lt2p [of w] by simp_all
  obtain x where x: "scaled f10 (raw_int (uint w)) = Inr (GFloat (FFin x))"
  proof (cases "uint w = 0")
    case True
    with that show ?thesis by (simp add: scaled_raw_int f10_def float_of_int_def)
  next
    case False
    with w(1) have "0 < uint w" by linarith
    then obtain x where "rne (of_int (uint w) / of_int 10) = FFin x"
      using rne_div_mult [OF _ w(2), of 10] by auto
    with that w show ?thesis
      by (simp add: scaled_raw_int f10_def float_of_int_exact)
  qed
  with scaled_scaleWrite [OF w, of 10 _ oob] show ?thesis by (simp add: f10_def)
qed

end
