(* ===== verification/Registers.thy ===== *)
theory Registers
  imports Transforms
begin

text \<open>
  The register tables of \<open>src/registers.go\<close> (lines 10 to 59 and 169 to 481), the lookup by
  key, and the selection lists of the discovery messages.
\<close>

section \<open>Register definitions\<close>

datatype registerType = RegisterUint | RegisterInt | RegisterChar | RegisterOther nat

record registerDef =
  reg_Key :: string
  reg_Start :: int
  reg_Length :: int
  reg_Type :: registerType
  reg_Read :: readValueFunc
  reg_Write :: "writeValueFunc option"

definition reg :: "string \<Rightarrow> int \<Rightarrow> int \<Rightarrow> registerType \<Rightarrow> readValueFunc \<Rightarrow>
    writeValueFunc option \<Rightarrow> registerDef" where
  "reg key start len ty rd wr =
     \<lparr>reg_Key = key, reg_Start = start, reg_Length = len, reg_Type = ty,
      reg_Read = rd, reg_Write = wr\<rparr>"

lemma reg_sel [simp]:
  "reg_Key (reg k s l t r w) = k"
  "reg_Start (reg k s l t r w) = s"
  "reg_Length (reg k s l t r w) = l"
  "reg_Type (reg k s l t r w) = t"
  "reg_Read (reg k s l t r w) = r"
  "reg_Write (reg k s l t r w) = w"
  by (simp_all add: reg_def)

definition f100 :: float64 where "f100 = FFin 100"

definition f2 :: float64 where "f2 = FFin 2"

definition inputRegisters :: "f2i \<Rightarrow> registerDef list" where
  "inputRegisters oob =
    [
     reg ''SystemStatus'' 0 1 RegisterUint (systemStatus oob) None,
     reg ''PV1Volt'' 1 1 RegisterUint (scaled f10) None,
     reg ''PV2Volt'' 2 1 RegisterUint (scaled f10) None,
     reg ''PV1Watt'' 3 2 RegisterUint (scaled f10) None,
     reg ''PV2Watt'' 5 2 RegisterUint (scaled f10) None,
     reg ''PV1Amps'' 7 1 RegisterUint (scaled f10) None,
     reg ''PV2Amps'' 8 1 RegisterUint (scaled f10) None,
     reg ''OutputWatt'' 9 2 RegisterUint (scaled f10) None,
     reg ''OutputVA'' 11 2 RegisterUint (scaled f10) None,
     reg ''ACChrWatt'' 13 2 RegisterUint (scaled f10) None,
     reg ''ACChrVA'' 15 2 RegisterUint (scaled f10) None,
     reg ''BatteryVolt'' 17 1 RegisterUint (scaled f100) None,
     reg ''BatterySOC'' 18 1 RegisterUint identity None,
     reg ''BusVolt'' 19 1 RegisterUint (scaled f10) None,
     reg ''GridVolt'' 20 1 RegisterUint (scaled f10) None,
     reg ''LineFreq'' 21 1 RegisterUint (scaled f100) None,
     reg ''OutputACVolt'' 22 1 RegisterUint (scaled f10) None,
     reg ''OutputACFreq'' 23 1 RegisterUint (scaled f100) None,
     reg ''OutputDCVolt'' 24 1 RegisterUint (scaled f10) None,
     reg ''InvTempC'' 25 1 RegisterInt (scaled f10) None,
     reg ''DCDCTempC'' 26 1 RegisterInt (scaled f10) None,
     reg ''LoadPercent'' 27 1 RegisterUint (scaled f10) None,
     reg ''BatteryPortVolt'' 28 1 RegisterUint (scaled f100) None,
     reg ''BatteryBusVolt'' 29 1 RegisterUint (scaled f100) None,
     reg ''WorkTimeTotalSeconds'' 30 2 RegisterUint (scaled f2) None,
     reg ''Buck1TempC'' 32 1 RegisterInt (scaled f10) None,
     reg ''Buck2TempC'' 33 1 RegisterInt (scaled f10) None,
     reg ''OutputAmps'' 34 1 RegisterUint (scaled f10) None,
     reg ''InvAmps'' 35 1 RegisterUint (scaled f10) None,
     reg ''ACInputWatt'' 36 2 RegisterInt (scaled f10) None,
     reg ''ACInputVA'' 38 2 RegisterUint (scaled f10) None,
     reg ''FaultBit'' 40 1 RegisterUint identity None,
     reg ''WarningBit'' 41 1 RegisterUint identity None,
     reg ''WarningBitHigh'' 42 1 RegisterUint identity None,
     reg ''WarningValue'' 43 1 RegisterUint identity None,
     reg ''DeviceTypeCode'' 44 1 RegisterUint identity None,
     reg ''ExportToGridTodaykWh'' 45 1 RegisterUint (scaled f10) None,
     reg ''ExportToGridTotalkWh'' 46 2 RegisterUint (scaled f10) None,
     reg ''PV1EnergyTodaykWh'' 48 2 RegisterUint (scaled f10) None,
     reg ''PV1EnergyTotalkWh'' 50 2 RegisterUint (scaled f10) None,
     reg ''PV2EnergyTodaykWh'' 52 2 RegisterUint (scaled f10) None,
     reg ''PV2EnergyTotalkWh'' 54 2 RegisterUint (scaled f10) None,
     reg ''ACChargeEnergyTodaykWh'' 56 2 RegisterUint (scaled f10) None,
     reg ''ACChargeEnergyTotalkWh'' 58 2 RegisterUint (scaled f10) None,
     reg ''BatteryDischargeEnergyTodaykWh'' 60 2 RegisterUint (scaled f10) None,
     reg ''BatteryDischargeEnergyTotalkWh'' 62 2 RegisterUint (scaled f10) None,
     reg ''ACDischargeEnergyTodaykWh'' 64 2 RegisterUint (scaled f10) None,
     reg ''ACDischargeEnergyTotalkWh'' 66 2 RegisterUint (scaled f10) None,
     reg ''ACChargeBatteryAmps'' 68 1 RegisterUint (scaled f10) None,
     reg ''ACDischargeWatt'' 69 2 RegisterUint (scaled f10) None,
     reg ''ACDischargeVA'' 71 2 RegisterUint (scaled f10) None,
     reg ''BatteryDischargeWatt'' 73 2 RegisterUint (scaled f10) None,
     reg ''BatteryDischargeVA'' 75 2 RegisterUint (scaled f10) None,
     reg ''BatteryWatt'' 77 2 RegisterInt (scaled f10) None,
     reg ''SlaveExistCount'' 79 1 RegisterUint identity None,
     reg ''MpptFanSpeedPercent'' 81 1 RegisterUint identity None,
     reg ''InvFanSpeedPercent'' 82 1 RegisterUint identity None,
     reg ''TotalChargeAmps'' 83 1 RegisterUint (scaled f10) None,
     reg ''TotalDischargeAmps'' 84 1 RegisterUint (scaled f10) None,
     reg ''OPDischargeEnergyTodaykWh'' 85 2 RegisterUint (scaled f10) None,
     reg ''OPDischargeEnergyTotalkWh'' 87 2 RegisterUint (scaled f10) None]"

section \<open>Enumerations\<close>

definition outputConfig :: "(int \<times> goval) list" where
  "outputConfig = [(0, GString ''SBU''), (1, GString ''SOL''), (2, GString ''UTI''), (3, GString ''SUB'')]"

definition chargeConfig :: "(int \<times> goval) list" where
  "chargeConfig = [(0, GString ''PV First''), (1, GString ''PV&UTI''), (2, GString ''PV Only'')]"

definition pvModel :: "(int \<times> goval) list" where
  "pvModel = [(0, GString ''Independent''), (1, GString ''Parallel'')]"

definition acInModel :: "(int \<times> goval) list" where
  "acInModel = [(0, GString ''APL''), (1, GString ''UPS''), (2, GString ''GEN'')]"

definition outputVoltType :: "(int \<times> goval) list" where
  "outputVoltType =
    [(0, GString ''208VAC''), (1, GString ''230VAC''), (2, GString ''240VAC''), (3, GString ''220VAC''),
     (4, GString ''100VAC''), (5, GString ''110VAC''), (6, GString ''120VAC'')]"

definition outputFreqType :: "(int \<times> goval) list" where
  "outputFreqType = [(0, GString ''50Hz''), (1, GString ''60Hz'')]"

definition overLoadRestart :: "(int \<times> goval) list" where
  "overLoadRestart = [(0, GString ''Yes''), (1, GString ''No''), (2, GString ''Switch to UTI'')]"

definition overTempRestart :: "(int \<times> goval) list" where
  "overTempRestart = [(0, GBool True), (1, GBool False)]"

definition batteryType :: "(int \<times> goval) list" where
  "batteryType =
    [(0, GString ''AGM''), (1, GString ''FLD''), (2, GString ''USE''), (3, GString ''Lithium''),
     (4, GString ''USE2'')]"

definition agingMode :: "(int \<times> goval) list" where
  "agingMode = [(0, GString ''Normal''), (1, GString ''Aging'')]"

definition safetyType :: "(int \<times> goval) list" where
  "safetyType =
    [(1, GString ''Standard''), (2, GString ''ETL''), (3, GString ''AS4777''), (4, GString ''CQC''),
     (5, GString ''VDE4105'')]"

definition onOff :: "(int \<times> goval) list" where
  "onOff = [(0x0000, GString ''Output enable''), (0x0100, GString ''Output disable'')]"

definition holdingRegisters :: "f2i \<Rightarrow> registerDef list" where
  "holdingRegisters oob =
    [
     reg ''OnOff'' 0 1 RegisterUint (enumRead oob onOff) None,
     reg ''OutputConfig'' 1 1 RegisterUint (enumRead oob outputConfig) (Some (enumWrite (reverseEnum outputConfig))),
     reg ''ChargeConfig'' 2 1 RegisterUint (enumRead oob chargeConfig) (Some (enumWrite (reverseEnum chargeConfig))),
     reg ''UtiOutStart'' 3 1 RegisterUint identity (Some (intWrite oob)),
     reg ''UtiOutEnd'' 4 1 RegisterUint identity (Some (intWrite oob)),
     reg ''UtiChargeStart'' 5 1 RegisterUint identity (Some (intWrite oob)),
     reg ''UtiChargeEnd'' 6 1 RegisterUint identity (Some (intWrite oob)),
     reg ''PVModel'' 7 1 RegisterUint (enumRead oob pvModel) (Some (enumWrite (reverseEnum pvModel))),
     reg ''ACInModel'' 8 1 RegisterUint (enumRead oob acInModel) (Some (enumWrite (reverseEnum acInModel))),
     reg ''FWVersion'' 9 3 RegisterChar identity None,
     reg ''FWVersion2'' 12 3 RegisterChar identity None,
     reg ''LCDLanguage'' 15 1 RegisterUint identity (Some (intWrite oob)),
     reg ''GridV_Adj'' 16 1 RegisterUint identity None,
     reg ''InvV_Adj'' 17 1 RegisterUint identity None,
     reg ''OutputVoltType'' 18 1 RegisterUint (enumRead oob outputVoltType) (Some (enumWrite (reverseEnum outputVoltType))),
     reg ''OutputFreqType'' 19 1 RegisterUint (enumRead oob outputFreqType) (Some (enumWrite (reverseEnum outputFreqType))),
     reg ''OverLoadRestart'' 20 1 RegisterUint (enumRead oob overLoadRestart) (Some (enumWrite (reverseEnum overLoadRestart))),
     reg ''OverTempRestart'' 21 1 RegisterUint (enumRead oob overTempRestart) (Some overTempWrite),
     reg ''BuzzerEnable'' 22 1 RegisterUint (asBool oob) (Some boolWrite),
     reg ''SerialNumber'' 23 5 RegisterChar identity (Some stringWrite),
     reg ''MoudleH'' 28 1 RegisterUint identity (Some (intWrite oob)),
     reg ''MoudleL'' 29 1 RegisterUint identity (Some (intWrite oob)),
     reg ''ComAddress'' 30 1 RegisterUint identity (Some (intWrite oob)),
     reg ''FlashStart'' 31 1 RegisterUint identity (Some (intWrite oob)),
     reg ''ResetUserInfo'' 32 1 RegisterUint identity (Some (intWrite oob)),
     reg ''ResetToFactory'' 33 1 RegisterUint identity (Some (intWrite oob)),
     reg ''MaxChargeAmps'' 34 1 RegisterUint identity (Some (intWrite oob)),
     reg ''BulkChargeVolt'' 35 1 RegisterUint (scaled f10) (Some (scaleWrite oob f10)),
     reg ''FloatChargeVolt'' 36 1 RegisterUint (scaled f10) (Some (scaleWrite oob f10)),
     reg ''BatLowtoUti'' 37 1 RegisterUint (scaled f10) (Some (scaleWrite oob f10)),
     reg ''ACChargeAmps'' 38 1 RegisterUint identity (Some (intWrite oob)),
     reg ''BatteryType'' 39 1 RegisterUint (enumRead oob batteryType) (Some (enumWrite (reverseEnum batteryType))),
     reg ''AgingMode'' 40 1 RegisterUint (enumRead oob agingMode) (Some (enumWrite (reverseEnum agingMode))),
     reg ''FunctionMask'' 41 1 RegisterUint identity (Some (intWrite oob)),
     reg ''SafetyType'' 42 1 RegisterUint (enumRead oob safetyType) (Some (enumWrite (reverseEnum safetyType))),
     reg ''DTC'' 43 1 RegisterUint identity None,
     reg ''HoldingChipSelect'' 51 1 RegisterUint identity None,
     reg ''uwAcVHighL'' 52 1 RegisterUint identity None,
     reg ''uwAcVLowL'' 53 1 RegisterUint identity None,
     reg ''uwAcFreqHighL'' 54 1 RegisterUint identity None,
     reg ''uwAcFreqLowL'' 55 1 RegisterUint identity None,
     reg ''HoldingVar1Setting'' 56 1 RegisterUint identity None,
     reg ''DebugModeEnable'' 57 1 RegisterUint (asBool oob) None,
     reg ''ControlFWBuildNo2'' 67 1 RegisterUint identity None,
     reg ''ControlFWBuildNo1'' 68 1 RegisterUint identity None,
     reg ''ComFWBuildNo2'' 69 1 RegisterUint identity None,
     reg ''ComFWBuildNo1'' 70 1 RegisterUint identity None,
     reg ''ModbusVersion'' 73 1 RegisterUint identity None,
     reg ''SCCComMode'' 75 1 RegisterUint identity None,
     reg ''RateWatt'' 76 2 RegisterUint (scaled f10) None,
     reg ''RateVA'' 78 2 RegisterUint (scaled f10) None,
     reg ''ComboardVer'' 80 1 RegisterUint identity None,
     reg ''uwBatPieceNum'' 81 1 RegisterUint identity (Some (intWrite oob)),
     reg ''wBatLowCutOff'' 82 1 RegisterUint (scaled f10) None,
     reg ''MaxGeneratorChargeAmps'' 83 1 RegisterUint identity None,
     reg ''NomGridVRaw'' 84 1 RegisterUint identity None,
     reg ''NomGridFreqRaw'' 85 1 RegisterUint identity None,
     reg ''NomBatVRaw'' 86 1 RegisterUint identity None,
     reg ''NomPVCurrRaw'' 87 1 RegisterUint identity None,
     reg ''NomAcChgCurrRaw'' 88 1 RegisterUint identity None,
     reg ''NomOpVRaw'' 89 1 RegisterUint identity None,
     reg ''NomOpFreqRaw'' 90 1 RegisterUint identity None,
     reg ''NomOpPowRaw'' 91 1 RegisterUint identity None,
     reg ''uwAC2BatVolt'' 95 1 RegisterUint (scaled f10) (Some (scaleWrite oob f10)),
     reg ''BypEnable'' 96 1 RegisterUint (asBool oob) (Some boolWrite),
     reg ''PowSavingEnable'' 97 1 RegisterUint (asBool oob) (Some boolWrite),
     reg ''SpowBalEnable'' 98 1 RegisterUint (asBool oob) (Some boolWrite),
     reg ''ClrEnergyToday'' 99 1 RegisterUint (asBool oob) (Some boolWrite),
     reg ''ClrEnergyAll'' 100 1 RegisterUint (asBool oob) (Some boolWrite),
     reg ''BurnInTestEnable'' 101 1 RegisterUint (asBool oob) (Some boolWrite),
     reg ''ManualStartEnable'' 102 1 RegisterUint (asBool oob) (Some boolWrite),
     reg ''SciLossChkEnable'' 103 1 RegisterUint (asBool oob) (Some boolWrite),
     reg ''BlightEnable'' 104 1 RegisterUint (asBool oob) (Some boolWrite),
     reg ''ParaMaxChgAmps'' 105 1 RegisterUint identity None,
     reg ''LiProtocolType'' 106 1 RegisterUint identity (Some (intWrite oob)),
     reg ''AudioAlarmEnable'' 107 1 RegisterUint (asBool oob) (Some boolWrite)]"

section \<open>Lookup by key\<close>

text \<open>\<open>registerMap\<close> inserts the rows in order, a later row over an earlier one of the same key.\<close>

fun registerMap :: "registerDef list \<Rightarrow> string \<Rightarrow> registerDef option" where
  "registerMap [] = (\<lambda>_. None)"
| "registerMap (d # ds) = (\<lambda>k. case registerMap ds k of Some x \<Rightarrow> Some x | None \<Rightarrow>
     if k = reg_Key d then Some d else None)"

definition holdingByKey :: "f2i \<Rightarrow> string \<Rightarrow> registerDef option" where
  "holdingByKey oob = registerMap (holdingRegisters oob)"

definition selectOptions :: "(string \<times> string list) list" where
  "selectOptions =
    [
     (''OutputConfig'', [''SBU'', ''SOL'', ''UTI'', ''SUB'']),
     (''ChargeConfig'', [''PV First'', ''PV&UTI'', ''PV Only'']),
     (''PVModel'', [''Independent'', ''Parallel'']),
     (''ACInModel'', [''APL'', ''UPS'', ''GEN'']),
     (''OutputVoltType'', [''208VAC'', ''230VAC'', ''240VAC'', ''220VAC'', ''100VAC'', ''110VAC'', ''120VAC'']),
     (''OutputFreqType'', [''50Hz'', ''60Hz'']),
     (''OverLoadRestart'', [''Yes'', ''No'', ''Switch to UTI'']),
     (''BatteryType'', [''AGM'', ''FLD'', ''USE'', ''Lithium'', ''USE2'']),
     (''AgingMode'', [''Normal'', ''Aging'']),
     (''SafetyType'', [''Standard'', ''ETL'', ''AS4777'', ''CQC'', ''VDE4105''])]"

definition booleanKeys :: "string list" where
  "booleanKeys =
    [''OverTempRestart'', ''BuzzerEnable'', ''BypEnable'', ''PowSavingEnable'', ''SpowBalEnable'',
     ''ClrEnergyToday'', ''ClrEnergyAll'', ''BurnInTestEnable'', ''ManualStartEnable'',
     ''SciLossChkEnable'', ''BlightEnable'', ''AudioAlarmEnable'']"

definition isWritableNumberRegister :: "f2i \<Rightarrow> string \<Rightarrow> bool" where
  "isWritableNumberRegister oob key =
     (case holdingByKey oob key of
        None \<Rightarrow> False
      | Some d \<Rightarrow>
          if reg_Write d = None then False
          else if key \<in> set booleanKeys \<or> key = ''DebugModeEnable'' then False
          else if map_of selectOptions key \<noteq> None then False
          else reg_Type d \<noteq> RegisterChar)"

section \<open>Facts about the tables\<close>

lemma registerMap_find: "registerMap ds k = find (\<lambda>d. reg_Key d = k) ds"
  if "distinct (map reg_Key ds)"
  using that
proof (induction ds)
  case (Cons d ds)
  then have IH: "registerMap ds k = find (\<lambda>d. reg_Key d = k) ds" by simp
  show ?case
  proof (cases "k = reg_Key d")
    case True
    with Cons.prems have "find (\<lambda>d. reg_Key d = k) ds = None" by (simp add: find_map_key)
    with True IH show ?thesis by simp
  next
    case False
    with IH show ?thesis by (simp split: option.splits)
  qed
qed simp

lemma holding_keys_distinct: "distinct (map reg_Key (holdingRegisters oob))"
  by (simp add: holdingRegisters_def)

lemma input_keys_distinct: "distinct (map reg_Key (inputRegisters oob))"
  by (simp add: inputRegisters_def)

lemma holdingByKey_mem:
  "holdingByKey oob k = Some d \<longleftrightarrow> d \<in> set (holdingRegisters oob) \<and> reg_Key d = k"
  using find_distinct_key [OF holding_keys_distinct, of d oob] holding_keys_distinct [of oob]
  by (auto simp: holdingByKey_def registerMap_find dest: find_key_in)

interpretation outputConfig_pair: transform_pair "enumRead oob outputConfig" "enumWrite (reverseEnum outputConfig)" for oob
  by (rule enum_transform_pair) (simp_all add: enum_ok_def in_int64_def min_int64_def max_int64_def outputConfig_def)

interpretation chargeConfig_pair: transform_pair "enumRead oob chargeConfig" "enumWrite (reverseEnum chargeConfig)" for oob
  by (rule enum_transform_pair) (simp_all add: enum_ok_def in_int64_def min_int64_def max_int64_def chargeConfig_def)

interpretation pvModel_pair: transform_pair "enumRead oob pvModel" "enumWrite (reverseEnum pvModel)" for oob
  by (rule enum_transform_pair) (simp_all add: enum_ok_def in_int64_def min_int64_def max_int64_def pvModel_def)

interpretation acInModel_pair: transform_pair "enumRead oob acInModel" "enumWrite (reverseEnum acInModel)" for oob
  by (rule enum_transform_pair) (simp_all add: enum_ok_def in_int64_def min_int64_def max_int64_def acInModel_def)

interpretation outputVoltType_pair: transform_pair "enumRead oob outputVoltType" "enumWrite (reverseEnum outputVoltType)" for oob
  by (rule enum_transform_pair) (simp_all add: enum_ok_def in_int64_def min_int64_def max_int64_def outputVoltType_def)

interpretation outputFreqType_pair: transform_pair "enumRead oob outputFreqType" "enumWrite (reverseEnum outputFreqType)" for oob
  by (rule enum_transform_pair) (simp_all add: enum_ok_def in_int64_def min_int64_def max_int64_def outputFreqType_def)

interpretation overLoadRestart_pair: transform_pair "enumRead oob overLoadRestart" "enumWrite (reverseEnum overLoadRestart)" for oob
  by (rule enum_transform_pair) (simp_all add: enum_ok_def in_int64_def min_int64_def max_int64_def overLoadRestart_def)

interpretation batteryType_pair: transform_pair "enumRead oob batteryType" "enumWrite (reverseEnum batteryType)" for oob
  by (rule enum_transform_pair) (simp_all add: enum_ok_def in_int64_def min_int64_def max_int64_def batteryType_def)

interpretation agingMode_pair: transform_pair "enumRead oob agingMode" "enumWrite (reverseEnum agingMode)" for oob
  by (rule enum_transform_pair) (simp_all add: enum_ok_def in_int64_def min_int64_def max_int64_def agingMode_def)

interpretation safetyType_pair: transform_pair "enumRead oob safetyType" "enumWrite (reverseEnum safetyType)" for oob
  by (rule enum_transform_pair) (simp_all add: enum_ok_def in_int64_def min_int64_def max_int64_def safetyType_def)

interpretation overTempRestart_pair: transform_pair "enumRead oob overTempRestart" overTempWrite for oob
proof
  fix v p assume "overTempWrite v = Inr p"
  then show "\<exists>n. p = GInt64 n" by (auto simp: overTempWrite_def)
qed (auto simp: overTempWrite_def enumRead_def overTempRestart_def in_int64_def min_int64_def max_int64_def
    split: if_splits)

lemmas transform_pairs =
  int_pair.transform_pair_axioms bool_pair.transform_pair_axioms tenth_pair.transform_pair_axioms
  overTempRestart_pair.transform_pair_axioms
  outputConfig_pair.transform_pair_axioms
  chargeConfig_pair.transform_pair_axioms
  pvModel_pair.transform_pair_axioms
  acInModel_pair.transform_pair_axioms
  outputVoltType_pair.transform_pair_axioms
  outputFreqType_pair.transform_pair_axioms
  overLoadRestart_pair.transform_pair_axioms
  batteryType_pair.transform_pair_axioms
  agingMode_pair.transform_pair_axioms
  safetyType_pair.transform_pair_axioms

text \<open>
  A writable holding register is one unsigned word with a matching pair of transforms, or
  the text register of the serial number.
\<close>

definition row_writable_ok :: "registerDef \<Rightarrow> bool" where
  "row_writable_ok d \<longleftrightarrow>
     (case reg_Write d of
        None \<Rightarrow> True
      | Some wr \<Rightarrow>
          reg_Type d = RegisterUint \<and> reg_Length d = 1 \<and> transform_pair (reg_Read d) wr \<or>
          reg_Type d = RegisterChar \<and> reg_Length d = 5 \<and> reg_Read d = identity \<and> wr = stringWrite)"

lemma holding_rows_writable: "list_all row_writable_ok (holdingRegisters oob)"
  by (simp add: holdingRegisters_def row_writable_ok_def transform_pairs)

definition row_bounds_ok :: "int \<Rightarrow> registerDef \<Rightarrow> bool" where
  "row_bounds_ok n d \<longleftrightarrow>
     0 \<le> reg_Start d \<and> 1 \<le> reg_Length d \<and> reg_Start d + reg_Length d \<le> n \<and>
     (reg_Type d = RegisterChar \<or> (reg_Type d = RegisterUint \<or> reg_Type d = RegisterInt) \<and> reg_Length d \<le> 2)"

lemma input_rows_bounds: "list_all (row_bounds_ok 89) (inputRegisters oob)"
  by (simp add: inputRegisters_def row_bounds_ok_def)

lemma holding_rows_bounds: "list_all (row_bounds_ok 108) (holdingRegisters oob)"
  by (simp add: holdingRegisters_def row_bounds_ok_def)

end
