(* ===== verification/Codec.thy ===== *)
theory Codec
  imports Registers "HOL-Library.AList"
begin

unbundle bit_operations_syntax

text \<open>
  Register words and the values they hold (\<open>src/inverter.go\<close>, lines 149 to 233 and 279 to
  323, and the byte order of \<open>src/modbus_client.go\<close>, lines 178 to 192): decoding a table from
  a buffer of words, encoding a value into words, and the round trips between them.
\<close>

section \<open>Bytes and registers\<close>

definition hi_byte :: "u16 \<Rightarrow> 8 word" where
  "hi_byte w = ucast (drop_bit 8 w)"

definition lo_byte :: "u16 \<Rightarrow> 8 word" where
  "lo_byte w = ucast w"

definition char_of_byte :: "8 word \<Rightarrow> char" where
  "char_of_byte b = char_of (unat b)"

definition byte_of_char :: "char \<Rightarrow> 8 word" where
  "byte_of_char c = of_nat (of_char c)"

text \<open>\<open>binary.BigEndian.Uint16\<close>.\<close>

definition join_bytes :: "8 word \<Rightarrow> 8 word \<Rightarrow> u16" where
  "join_bytes h l = push_bit 8 (ucast h) OR ucast l"

fun registersToBytes :: "u16 list \<Rightarrow> 8 word list" where
  "registersToBytes [] = []"
| "registersToBytes (w # ws) = hi_byte w # lo_byte w # registersToBytes ws"

text \<open>An odd last byte is dropped: the slice has \<open>len(data) / 2\<close> registers.\<close>

fun bytesToRegisters :: "8 word list \<Rightarrow> u16 list" where
  "bytesToRegisters (h # l # data) = join_bytes h l # bytesToRegisters data"
| "bytesToRegisters _ = []"

section \<open>Decoding\<close>

text \<open>Byte \<open>index\<close> of the words, the high byte of a word first.\<close>

definition word_byte :: "u16 list \<Rightarrow> nat \<Rightarrow> char" where
  "word_byte ws i = char_of_byte (if even i then hi_byte (ws ! (i div 2)) else lo_byte (ws ! (i div 2)))"

text \<open>The first loop of \<open>decodeRegisterString\<close>: the length without trailing zero bytes.\<close>

fun string_length :: "u16 list \<Rightarrow> nat \<Rightarrow> nat" where
  "string_length ws 0 = 0"
| "string_length ws (Suc n) = (if word_byte ws n \<noteq> CHR 0x00 then Suc n else string_length ws n)"

definition decodeRegisterString :: "u16 list \<Rightarrow> string" where
  "decodeRegisterString ws = map (word_byte ws) [0..<string_length ws (length ws * 2)]"

text \<open>\<open>unsigned = unsigned<<16 | uint64(word)\<close> over the words.\<close>

definition join_words :: "u16 list \<Rightarrow> 64 word" where
  "join_words ws = foldl (\<lambda>u w. push_bit 16 u OR ucast w) 0 ws"

definition decodeRegisterValue :: "u16 list \<Rightarrow> registerDef \<Rightarrow> err + rawRegisterValue" where
  "decodeRegisterValue registers d =
     (if reg_Start d < 0 \<or> reg_Length d < 1 \<or> reg_Start d + reg_Length d > int (length registers)
      then Inl (EMsg MOutsideBuffer)
      else
        let ws = take (nat (reg_Length d)) (drop (nat (reg_Start d)) registers);
            numeric = (\<lambda>signed.
              if reg_Length d > 4 then Inl (EMsg MTooWide)
              else let unsigned = join_words ws; bits = nat (reg_Length d * 16)
                   in if signed \<and> unsigned AND push_bit (bits - 1) 1 \<noteq> 0
                      then Inr (raw_int (sint (unsigned - push_bit bits 1)))
                      else Inr (raw_int (sint unsigned)))
        in case reg_Type d of
             RegisterChar \<Rightarrow>
               let text = decodeRegisterString ws
               in Inr (raw_string (if validString text then text else toValidUTF8 False text))
           | RegisterUint \<Rightarrow> numeric False
           | RegisterInt \<Rightarrow> numeric True
           | RegisterOther _ \<Rightarrow> Inl (EMsg MInvalidRegisterType))"

definition decodeRawValue :: "u16 list \<Rightarrow> registerDef \<Rightarrow> err + goval" where
  "decodeRawValue registers d =
     and_then (decodeRegisterValue registers d) (\<lambda>v. Inr (raw_value v))"

text \<open>The published map: an association list in the order of the table.\<close>

type_synonym govalues = "(string \<times> goval) list"

definition decode_row :: "u16 list \<Rightarrow> registerDef \<Rightarrow> err + goval" where
  "decode_row registers d = and_then (decodeRegisterValue registers d) (reg_Read d)"

fun decode_rows :: "u16 list \<Rightarrow> registerDef list \<Rightarrow> govalues \<Rightarrow> err + govalues" where
  "decode_rows registers [] info = Inr info"
| "decode_rows registers (d # ds) info =
     (case decode_row registers d of
        Inl e \<Rightarrow> Inl (EWrap (''decode register '' @ reg_Key d) e)
      | Inr v \<Rightarrow> decode_rows registers ds (AList.update (reg_Key d) v info))"

definition decodeRegisterTable :: "u16 list \<Rightarrow> registerDef list \<Rightarrow> err + govalues" where
  "decodeRegisterTable registers ds = decode_rows registers ds []"

section \<open>Encoding\<close>

fun pack_bytes :: "string \<Rightarrow> u16 list" where
  "pack_bytes [] = []"
| "pack_bytes [a] = [push_bit 8 (ucast (byte_of_char a))]"
| "pack_bytes (a # b # s) =
     (push_bit 8 (ucast (byte_of_char a)) OR ucast (byte_of_char b)) # pack_bytes s"

text \<open>The last loop of \<open>encodeRawValue\<close>: the low word goes to the highest index.\<close>

fun split_words :: "nat \<Rightarrow> 64 word \<Rightarrow> u16 list" where
  "split_words 0 u = []"
| "split_words (Suc n) u = split_words n (drop_bit 16 u) @ [ucast u]"

text \<open>
  The shifts are those of 64-bit integers: \<open>uint64(1) << bits\<close> is 0 for 64 bits, which is
  why the code asks \<open>bits < 64\<close> first, and \<open>-int64(1) << 63\<close> is the least \<open>int64\<close>.
\<close>

definition encodeRawValue :: "f2i \<Rightarrow> goval \<Rightarrow> registerDef \<Rightarrow> err + u16 list" where
  "encodeRawValue oob v d =
     (if reg_Type d = RegisterChar then
        (case v of
           GString text \<Rightarrow>
             if int (length text) > reg_Length d * 2 then Inl (EMsg (MTooLong (reg_Length d * 2)))
             else Inr (let ws = pack_bytes text
                       in ws @ replicate (nat (reg_Length d) - length ws) 0)
         | _ \<Rightarrow> Inl (EMsg MTextRequired))
      else
        and_then (asInt64 oob v)
          (\<lambda>number.
             let bits = nat (reg_Length d * 16);
                 unsigned = (word_of_int number :: 64 word);
                 minimum = sint (push_bit (bits - 1) (- 1 :: 64 word));
                 maximum = sint (push_bit (bits - 1) (1 :: 64 word) - 1);
                 out = (if reg_Type d = RegisterUint
                        then number < 0 \<or> bits < 64 \<and> unsigned \<ge> push_bit bits 1
                        else number < minimum \<or> number > maximum)
             in guard_err out
                  (EMsg (if reg_Type d = RegisterUint then MUnsignedRange (int bits)
                         else MSignedRange (int bits)))
                  (Inr (split_words (nat (reg_Length d)) unsigned))))"

section \<open>Words and numbers\<close>

lemma join_words_snoc: "join_words (ws @ [w]) = push_bit 16 (join_words ws) OR ucast w"
  by (simp add: join_words_def)

lemma length_split_words [simp]: "length (split_words n u) = n"
  by (induction n arbitrary: u) simp_all

lemma join_split_words: "join_words (split_words n u) = take_bit (16 * n) u"
proof (induction n arbitrary: u)
  case 0
  show ?case by (simp add: join_words_def)
next
  case (Suc n)
  show ?case
    by (rule bit_word_eqI)
      (auto simp: join_words_snoc Suc.IH bit_simps not_le dest: bit_imp_le_length)
qed

lemma take_bit_join_words:
  "length ws \<le> 4 \<Longrightarrow> take_bit (16 * length ws) (join_words ws) = join_words ws"
proof (induction ws rule: rev_induct)
  case (snoc w ws)
  then have IH: "take_bit (16 * length ws) (join_words ws) = join_words ws" by simp
  show ?case
    unfolding join_words_snoc
    by (subst (2) IH [symmetric], rule bit_word_eqI)
      (auto simp: bit_simps dest: bit_imp_le_length)
qed (simp add: join_words_def)

lemma split_join_words: "length ws \<le> 4 \<Longrightarrow> split_words (length ws) (join_words ws) = ws"
proof (induction ws rule: rev_induct)
  case (snoc w ws)
  then have J: "take_bit (16 * length ws) (join_words ws) = join_words ws"
    by (simp add: take_bit_join_words)
  have "drop_bit 16 (push_bit 16 (join_words ws) OR ucast w) = join_words ws"
    by (subst J [symmetric], subst (2) J [symmetric], rule bit_word_eqI)
      (use snoc.prems in \<open>auto simp: bit_simps dest: bit_imp_le_length\<close>)
  moreover have "ucast (push_bit 16 (join_words ws) OR ucast w) = w"
    by (rule bit_word_eqI) (auto simp: bit_simps dest: bit_imp_le_length)
  ultimately show ?case using snoc by (simp add: join_words_snoc)
qed simp

lemma uint_take_bit_of_int: "b \<le> 64 \<Longrightarrow> uint (take_bit b (word_of_int n :: 64 word)) = n mod 2 ^ b"
  by (simp add: unsigned_take_bit_eq uint_word_of_int_eq min_def flip: take_bit_eq_mod)

lemma sint_of_int64: "in_int64 n \<Longrightarrow> sint (word_of_int n :: 64 word) = n"
  by (simp add: in_int64_def min_int64_def max_int64_def sint_sbintrunc' signed_take_bit_int_eq_self)

lemma take_bit_of_int64:
  "b \<le> 64 \<Longrightarrow> take_bit b (word_of_int n :: 64 word) = word_of_int (n mod 2 ^ b)"
  by (rule bit_word_eqI) (auto simp: bit_simps simp flip: take_bit_eq_mod)

lemma word_fits:
  assumes "0 \<le> n" and "n < 2 ^ b" and "b \<le> 64"
  shows "take_bit b (word_of_int n :: 64 word) = word_of_int n"
  using assms by (simp add: take_bit_of_int64)

lemma sign_bit_of_int:
  assumes "- (2 ^ k) \<le> n" and "n < 2 ^ k"
  shows "bit (n :: int) k \<longleftrightarrow> n < 0"
proof (cases "n < 0")
  case True
  then have "n div 2 ^ k = - 1" using assms(1) by (intro int_div_pos_eq [where r = "n + 2 ^ k"]) auto
  with True show ?thesis by (simp add: bit_iff_odd)
next
  case False
  with assms have "n div 2 ^ k = 0" by simp
  with False show ?thesis by (simp add: bit_iff_odd)
qed

lemma sign_test:
  assumes "- (2 ^ k) \<le> n" and "n < 2 ^ k" and "k < 64"
  shows "take_bit (Suc k) (word_of_int n :: 64 word) AND push_bit k 1 \<noteq> 0 \<longleftrightarrow> n < 0"
  using sign_bit_of_int [OF assms(1,2)] assms(3)
  by (simp add: and_exp_eq_0_iff_not_bit bit_simps bit_word_of_int_iff)

lemma sign_extend:
  assumes "- (2 ^ k) \<le> n" and "n < 0" and "k < 64"
  shows "take_bit (Suc k) (word_of_int n :: 64 word) - push_bit (Suc k) 1 = word_of_int n"
proof -
  have "n mod 2 ^ Suc k = n + 2 ^ Suc k"
    using assms by (intro int_mod_pos_eq [where q = "- 1"]) auto
  then have "take_bit (Suc k) (word_of_int n :: 64 word) = word_of_int n + word_of_int (2 ^ Suc k)"
    using assms by (simp add: take_bit_of_int64)
  then show ?thesis by (simp add: push_bit_eq_mult)
qed

section \<open>Round trip of numbers\<close>

definition numeric_type :: "registerType \<Rightarrow> bool" where
  "numeric_type t \<longleftrightarrow> t = RegisterUint \<or> t = RegisterInt"

lemma decode_numeric:
  assumes "length ws = nat (reg_Length d)" and "1 \<le> reg_Length d" and "reg_Length d \<le> 4"
    and "numeric_type (reg_Type d)"
  shows "decodeRegisterValue ws (d\<lparr>reg_Start := 0\<rparr>) =
    (let u = join_words ws; b = nat (reg_Length d * 16)
     in if reg_Type d = RegisterInt \<and> u AND push_bit (b - 1) 1 \<noteq> 0
        then Inr (raw_int (sint (u - push_bit b 1)))
        else Inr (raw_int (sint u)))"
  using assms by (auto simp: decodeRegisterValue_def numeric_type_def Let_def)

text \<open>When a number fits, in the terms of the register's type.\<close>

definition register_range :: "registerDef \<Rightarrow> int \<Rightarrow> bool" where
  "register_range d n \<longleftrightarrow>
     (let b = nat (reg_Length d * 16)
      in if reg_Type d = RegisterUint then 0 \<le> n \<and> n < 2 ^ b
         else - (2 ^ (b - 1)) \<le> n \<and> n < 2 ^ (b - 1))"

lemma signed_limits:
  assumes "k < 64"
  shows "sint (push_bit k (- 1 :: 64 word)) = - (2 ^ k)"
    and "sint (push_bit k (1 :: 64 word) - 1) = 2 ^ k - 1"
proof -
  have "(2 :: int) ^ k \<le> 2 ^ 63" using assms by (intro power_increasing) simp_all
  then have "(2 :: int) ^ k \<le> 9223372036854775808" and "(0 :: int) < 2 ^ k" by simp_all
  then have "in_int64 (- (2 ^ k))" and "in_int64 (2 ^ k - 1)"
    unfolding in_int64_def min_int64_def max_int64_def power_numeral by (simp_all, linarith+)
  moreover have "push_bit k (- 1 :: 64 word) = word_of_int (- (2 ^ k))"
    and "push_bit k (1 :: 64 word) - 1 = word_of_int (2 ^ k - 1)"
    by (simp_all add: push_bit_eq_mult)
  ultimately show "sint (push_bit k (- 1 :: 64 word)) = - (2 ^ k)"
    and "sint (push_bit k (1 :: 64 word) - 1) = 2 ^ k - 1"
    by (simp_all only: sint_of_int64)
qed

lemma unsigned_limit:
  assumes "0 \<le> n" and "in_int64 n" and "b < 64"
  shows "push_bit b 1 \<le> (word_of_int n :: 64 word) \<longleftrightarrow> 2 ^ b \<le> n"
proof -
  have "uint (word_of_int n :: 64 word) = n"
    using assms by (simp add: uint_word_of_int in_int64_def max_int64_def)
  moreover have "uint (push_bit b 1 :: 64 word) = 2 ^ b"
    using assms(3) by (simp add: uint_2p word_gt_0)
  ultimately show ?thesis by (simp add: word_le_def)
qed

lemma encode_numeric:
  assumes n: "in_int64 n" and L: "1 \<le> reg_Length d" "reg_Length d \<le> 4"
    and ty: "numeric_type (reg_Type d)"
  shows "encodeRawValue oob (GInt64 n) d =
    (if register_range d n then Inr (split_words (nat (reg_Length d)) (word_of_int n))
     else Inl (EMsg (if reg_Type d = RegisterUint then MUnsignedRange (reg_Length d * 16)
                     else MSignedRange (reg_Length d * 16))))"
proof (cases "reg_Type d = RegisterUint")
  case True
  have "n < 2 ^ 64" using n by (simp add: in_int64_def max_int64_def)
  then have "(nat (reg_Length d * 16) < 64 \<and> push_bit (nat (reg_Length d * 16)) 1 \<le> (word_of_int n :: 64 word)) =
      (2 ^ nat (reg_Length d * 16) \<le> n)" if "0 \<le> n"
    using unsigned_limit [OF that n] L by (cases "reg_Length d = 4") auto
  with True L show ?thesis
    by (auto simp: encodeRawValue_def register_range_def Let_def guard_err_def)
next
  case False
  with ty have "reg_Type d = RegisterInt" by (simp add: numeric_type_def)
  with L show ?thesis
    using signed_limits [of "nat (reg_Length d * 16) - 1"]
    by (auto simp: encodeRawValue_def register_range_def Let_def guard_err_def)
qed

text \<open>What the encoder accepts, the decoder reads back as the same number.\<close>

lemma decode_encode_numeric:
  assumes n: "in_int64 n" and L: "1 \<le> reg_Length d" "reg_Length d \<le> 4"
    and ty: "numeric_type (reg_Type d)" and enc: "encodeRawValue oob (GInt64 n) d = Inr ws"
  shows "decodeRegisterValue ws (d\<lparr>reg_Start := 0\<rparr>) = Inr (raw_int n)"
proof -
  define b where "b = nat (reg_Length d * 16)"
  have b: "b \<le> 64" "b = Suc (b - 1)" "b - 1 < 64" using L by (simp_all add: b_def)
  have fits: "register_range d n" and ws: "ws = split_words (nat (reg_Length d)) (word_of_int n)"
    using enc by (simp_all add: encode_numeric [OF n L ty] split: if_splits)
  have u: "join_words ws = take_bit b (word_of_int n)"
    using L by (simp add: ws join_split_words b_def nat_mult_distrib mult.commute)
  have len: "length ws = nat (reg_Length d)" by (simp add: ws)
  note dec = decode_numeric [OF len L ty, folded b_def, unfolded Let_def u]
  show ?thesis
  proof (cases "reg_Type d = RegisterUint")
    case True
    with fits b have "take_bit b (word_of_int n :: 64 word) = word_of_int n"
      by (intro word_fits) (simp_all add: register_range_def b_def [symmetric])
    with True n dec show ?thesis by (simp add: sint_of_int64)
  next
    case False
    with fits b have range: "- (2 ^ (b - 1)) \<le> n" "n < 2 ^ (b - 1)"
      by (simp_all add: register_range_def b_def [symmetric])
    have ty': "reg_Type d = RegisterInt" using False ty by (simp add: numeric_type_def)
    show ?thesis
    proof (cases "n < 0")
      case True
      then show ?thesis
        using dec sign_test [OF range b(3)] sign_extend [OF range(1) True b(3)] b(2) n ty'
        by (simp add: sint_of_int64)
    next
      case False
      have "(2 :: int) ^ (b - 1) \<le> 2 ^ b" by (intro power_increasing) simp_all
      with range(2) have "n < 2 ^ b" by (rule less_le_trans)
      with False b have "take_bit b (word_of_int n :: 64 word) = word_of_int n"
        by (intro word_fits) simp_all
      then show ?thesis
        using dec sign_test [OF range b(3)] False b(2) n ty' by (simp add: sint_of_int64)
    qed
  qed
qed

section \<open>Round trip of bytes and text\<close>

lemma hi_lo_join [simp]:
  "hi_byte (push_bit 8 (ucast h) OR ucast l) = h"
  "lo_byte (push_bit 8 (ucast h) OR ucast l) = l"
  "hi_byte (push_bit 8 (ucast h)) = h"
  "lo_byte (push_bit 8 (ucast h)) = 0"
  by (rule bit_word_eqI, auto simp: hi_byte_def lo_byte_def bit_simps dest: bit_imp_le_length)+

lemma join_hi_lo [simp]: "join_bytes (hi_byte w) (lo_byte w) = w"
  by (rule bit_word_eqI) (auto simp: join_bytes_def hi_byte_def lo_byte_def bit_simps)

lemma bytesToRegisters_registersToBytes: "bytesToRegisters (registersToBytes ws) = ws"
  by (induction ws) simp_all

lemma registersToBytes_bytesToRegisters:
  "even (length data) \<Longrightarrow> registersToBytes (bytesToRegisters data) = data"
  by (induction data rule: bytesToRegisters.induct) (simp_all add: join_bytes_def)

lemma length_registersToBytes [simp]: "length (registersToBytes ws) = 2 * length ws"
  by (induction ws) simp_all

lemma length_bytesToRegisters [simp]: "length (bytesToRegisters data) = length data div 2"
  by (induction data rule: bytesToRegisters.induct) simp_all

lemma char_of_byte_of_char [simp]: "char_of_byte (byte_of_char c) = c"
  by (simp add: char_of_byte_def byte_of_char_def unat_of_nat)

text \<open>The bytes of a buffer as text, and the text without its trailing zero bytes.\<close>

definition buffer_text :: "u16 list \<Rightarrow> string" where
  "buffer_text ws = map char_of_byte (registersToBytes ws)"

definition strip_nul :: "string \<Rightarrow> string" where
  "strip_nul s = rev (dropWhile (\<lambda>c. c = CHR 0x00) (rev s))"

lemma strip_nul_snoc [simp]:
  "strip_nul (s @ [c]) = (if c = CHR 0x00 then strip_nul s else s @ [c])"
  by (simp add: strip_nul_def)

lemma strip_nul_replicate [simp]: "strip_nul (s @ replicate n (CHR 0x00)) = strip_nul s"
proof (induction n)
  case (Suc n)
  then show ?case by (simp add: replicate_append_same [symmetric] flip: append_assoc)
qed simp

lemma map_word_byte: "map (word_byte ws) [0..<2 * length ws] = buffer_text ws"
proof (induction ws rule: rev_induct)
  case (snoc w ws)
  have "map (word_byte (ws @ [w])) [0..<2 * length ws] = map (word_byte ws) [0..<2 * length ws]"
    by (auto simp: word_byte_def nth_append)
  moreover have "registersToBytes (ws @ [w]) = registersToBytes ws @ [hi_byte w, lo_byte w]"
    by (induction ws) simp_all
  moreover have "word_byte (ws @ [w]) (2 * length ws) = char_of_byte (hi_byte w)"
    and "word_byte (ws @ [w]) (Suc (2 * length ws)) = char_of_byte (lo_byte w)"
    by (simp_all add: word_byte_def)
  ultimately show ?case using snoc by (simp add: buffer_text_def)
qed (simp add: buffer_text_def)

lemma string_length_strip:
  "map (word_byte ws) [0..<string_length ws n] = strip_nul (map (word_byte ws) [0..<n])"
  by (induction n) (simp_all add: strip_nul_def)

lemma decodeRegisterString_strip: "decodeRegisterString ws = strip_nul (buffer_text ws)"
  by (simp add: decodeRegisterString_def string_length_strip mult.commute flip: map_word_byte)

lemma char_of_byte_0 [simp]: "char_of_byte 0 = CHR 0x00"
  by (simp add: char_of_byte_def char_of_def)

lemma hi_lo_0 [simp]: "hi_byte 0 = 0" "lo_byte 0 = 0"
  by (simp_all add: hi_byte_def lo_byte_def)

lemma buffer_text_zeros: "buffer_text (replicate n 0) = replicate (2 * n) (CHR 0x00)"
  by (induction n) (simp_all add: buffer_text_def)

lemma buffer_text_pack:
  "buffer_text (pack_bytes t @ replicate n 0) =
   t @ replicate ((if even (length t) then 0 else 1) + 2 * n) (CHR 0x00)"
  by (induction t rule: pack_bytes.induct)
    (use buffer_text_zeros [of n] in \<open>simp_all add: buffer_text_def\<close>)

lemma text_roundtrip_strip:
  assumes "reg_Type d = RegisterChar" and "1 \<le> reg_Length d"
    and "encodeRawValue oob (GString t) d = Inr ws"
  shows "length ws = nat (reg_Length d) \<and>
    decodeRegisterValue ws (d\<lparr>reg_Start := 0\<rparr>) =
      Inr (raw_string (let s = strip_nul t in if validString s then s else toValidUTF8 False s))"
proof -
  have len: "int (length t) \<le> reg_Length d * 2"
    and ws: "ws = pack_bytes t @ replicate (nat (reg_Length d) - length (pack_bytes t)) 0"
    using assms by (auto simp: encodeRawValue_def Let_def split: if_splits)
  have "length (pack_bytes t) = (length t + 1) div 2" by (induction t rule: pack_bytes.induct) simp_all
  with len ws have l: "length ws = nat (reg_Length d)" by simp
  have "decodeRegisterString ws = strip_nul t"
    unfolding decodeRegisterString_strip ws buffer_text_pack by simp
  with l assms(1,2) show ?thesis by (simp add: decodeRegisterValue_def Let_def)
qed

section \<open>Decoding a whole table\<close>

lemma update_new_key: "k \<notin> fst ` set al \<Longrightarrow> AList.update k v al = al @ [(k, v)]"
  by (induction al) auto

lemma decode_rows_Inr:
  assumes "decode_rows registers ds info = Inr res"
    and "distinct (map reg_Key ds)" and "fst ` set info \<inter> reg_Key ` set ds = {}"
  shows "list_all (\<lambda>d. \<exists>v. decode_row registers d = Inr v) ds \<and>
    res = info @ map (\<lambda>d. (reg_Key d, projr (decode_row registers d))) ds"
  using assms
proof (induction ds arbitrary: info)
  case (Cons d ds)
  then obtain v where v: "decode_row registers d = Inr v"
    and rest: "decode_rows registers ds (info @ [(reg_Key d, v)]) = Inr res"
    by (auto simp: update_new_key split: sum.splits)
  show ?case using Cons.IH [OF rest] Cons.prems(2,3) v by auto
qed simp

lemma decode_rows_Inl:
  "decode_rows registers ds info = Inl e \<Longrightarrow>
   \<exists>d \<in> set ds. \<exists>x. decode_row registers d = Inl x \<and> e = EWrap (''decode register '' @ reg_Key d) x"
  by (induction ds arbitrary: info) (auto split: sum.splits)

lemma decode_rows_total:
  "list_all (\<lambda>d. \<exists>v. decode_row registers d = Inr v) ds \<Longrightarrow>
   \<exists>res. decode_rows registers ds info = Inr res"
  by (induction ds arbitrary: info) auto

text \<open>What a decoded table holds: every key of the table, each with the value of its row.\<close>

definition decoded_from :: "u16 list \<Rightarrow> registerDef list \<Rightarrow> govalues \<Rightarrow> bool" where
  "decoded_from registers ds info \<longleftrightarrow>
     map fst info = map reg_Key ds \<and>
     (\<forall>d \<in> set ds. \<exists>v. decode_row registers d = Inr v \<and> map_of info (reg_Key d) = Some v)"

lemma decodeRegisterTable_Inr:
  assumes "decodeRegisterTable registers ds = Inr info" and "distinct (map reg_Key ds)"
  shows "decoded_from registers ds info"
proof -
  have rows: "list_all (\<lambda>d. \<exists>v. decode_row registers d = Inr v) ds"
    and info: "info = map (\<lambda>d. (reg_Key d, projr (decode_row registers d))) ds"
    using decode_rows_Inr [of registers ds "[]" info] assms by (simp_all add: decodeRegisterTable_def)
  have "map_of info (reg_Key d) = Some (projr (decode_row registers d))" if "d \<in> set ds" for d
    using find_distinct_key [OF assms(2) that] by (simp add: info map_of_map_fst)
  with rows info show ?thesis by (fastforce simp: decoded_from_def list_all_iff comp_def)
qed

text \<open>A row inside the buffer always has a raw value: only its transform can fail.\<close>

lemma decode_in_bounds:
  assumes "row_bounds_ok n d" and "n \<le> int (length registers)"
  shows "\<exists>raw. decodeRegisterValue registers d = Inr raw \<and> (raw_isText raw \<longleftrightarrow> reg_Type d = RegisterChar)"
proof -
  have "\<not> (reg_Start d < 0 \<or> reg_Length d < 1 \<or> reg_Start d + reg_Length d > int (length registers))"
    and "reg_Type d = RegisterChar \<or> reg_Type d = RegisterUint \<or> reg_Type d = RegisterInt"
    and "reg_Type d \<noteq> RegisterChar \<Longrightarrow> \<not> reg_Length d > 4"
    using assms by (auto simp: row_bounds_ok_def)
  then show ?thesis
    by (auto simp: decodeRegisterValue_def Let_def raw_int_def raw_string_def)
qed

text \<open>
  The input transforms never fail on the raw values of their rows; a holding transform
  fails only on a number its enumeration does not list.
\<close>

definition read_total :: "registerDef \<Rightarrow> bool" where
  "read_total d \<longleftrightarrow>
     (\<forall>raw. raw_isText raw = (reg_Type d = RegisterChar) \<longrightarrow> (\<exists>v. reg_Read d raw = Inr v))"

definition read_enum :: "registerDef \<Rightarrow> bool" where
  "read_enum d \<longleftrightarrow>
     (\<forall>raw e. raw_isText raw = (reg_Type d = RegisterChar) \<longrightarrow> reg_Read d raw = Inl e \<longrightarrow>
        e = EMsg (MUnknownEnumNumber (raw_integer raw)))"

lemma reads_total:
  "\<exists>v. identity raw = Inr v"
  "\<not> raw_isText raw \<Longrightarrow> \<exists>v. scaled f raw = Inr v"
  "\<not> raw_isText raw \<Longrightarrow> \<exists>v. asBool oob raw = Inr v"
  "\<not> raw_isText raw \<Longrightarrow> \<exists>v. systemStatus oob raw = Inr v"
  by (simp_all add: identity_def scaled_def asBool_def systemStatus_def raw_asFloat64_def raw_asInt64_def)

lemma enumRead_error:
  "\<not> raw_isText raw \<Longrightarrow> enumRead oob vals raw = Inl e \<Longrightarrow>
   e = EMsg (MUnknownEnumNumber (raw_integer raw))"
  by (auto simp: enumRead_def raw_asInt64_def split: option.splits)

lemma reads_not_Inl:
  "identity raw \<noteq> Inl e"
  "\<not> raw_isText raw \<Longrightarrow> scaled f raw \<noteq> Inl e"
  "\<not> raw_isText raw \<Longrightarrow> asBool oob raw \<noteq> Inl e"
  by (simp_all add: identity_def scaled_def asBool_def raw_asFloat64_def raw_asInt64_def)

lemma input_reads_total: "list_all read_total (inputRegisters oob)"
  by (simp add: inputRegisters_def read_total_def reads_total)

lemma holding_reads_enum: "list_all read_enum (holdingRegisters oob)"
  by (simp add: holdingRegisters_def read_enum_def reads_not_Inl enumRead_error)

lemma decode_row_total:
  assumes "row_bounds_ok n d" and "n \<le> int (length registers)" and "read_total d"
  shows "\<exists>v. decode_row registers d = Inr v"
  using decode_in_bounds [OF assms(1,2)] assms(3) by (auto simp: decode_row_def read_total_def)

lemma decode_row_enum:
  assumes "row_bounds_ok n d" and "n \<le> int (length registers)" and "read_enum d"
    and "decode_row registers d = Inl e"
  shows "\<exists>m. e = EMsg (MUnknownEnumNumber m)"
  using decode_in_bounds [OF assms(1,2)] assms(3,4) by (auto simp: decode_row_def read_enum_def)

text \<open>C5: a numeric register of one to four words accepts an \<open>int64\<close> exactly
  when it fits the register's width and signedness; the words it then produces decode to
  the same number, negative ones included. Any other number is refused with a range error.\<close>

theorem numeric_roundtrip:
  assumes "in_int64 n" and "1 \<le> reg_Length d" and "reg_Length d \<le> 4" and "numeric_type (reg_Type d)"
  shows "if register_range d n
    then \<exists>ws. encodeRawValue oob (GInt64 n) d = Inr ws \<and> length ws = nat (reg_Length d) \<and>
      decodeRegisterValue ws (d\<lparr>reg_Start := 0\<rparr>) = Inr (raw_int n)
    else \<exists>m. encodeRawValue oob (GInt64 n) d = Inl (EMsg m)"
  using encode_numeric [OF assms] decode_encode_numeric [OF assms] by auto

theorem numeric_roundtrip_witness:
  "in_int64 (- 5) \<and>
   (\<exists>ws. encodeRawValue (\<lambda>_. 0) (GInt64 (- 5)) (reg ''k'' 7 2 RegisterInt identity None) = Inr ws \<and>
      decodeRegisterValue ws (reg ''k'' 7 2 RegisterInt identity None\<lparr>reg_Start := 0\<rparr>) = Inr (raw_int (- 5)))"
proof -
  have "in_int64 (- 5)" by (simp add: in_int64_def min_int64_def max_int64_def)
  moreover have "register_range (reg ''k'' 7 2 RegisterInt identity None) (- 5)"
    by (simp add: register_range_def)
  ultimately show ?thesis
    using numeric_roundtrip [of "- 5" "reg ''k'' 7 2 RegisterInt identity None" "\<lambda>_. 0"]
    by (auto simp: numeric_type_def)
qed

text \<open>C25: a text register accepts every string of at most two bytes a word and
  refuses longer ones. What it then reads back is the string without trailing zero bytes,
  made valid UTF-8; a valid string that does not end in a zero byte comes back unchanged.\<close>

theorem text_roundtrip:
  assumes "reg_Type d = RegisterChar" and "1 \<le> reg_Length d"
  shows "if int (length t) \<le> reg_Length d * 2
    then \<exists>ws s. encodeRawValue oob (GString t) d = Inr ws \<and> length ws = nat (reg_Length d) \<and>
      decodeRegisterValue ws (d\<lparr>reg_Start := 0\<rparr>) = Inr (raw_string s) \<and> validString s \<and>
      (validString (strip_nul t) \<longrightarrow> s = strip_nul t) \<and>
      (validString t \<and> (t = [] \<or> List.last t \<noteq> CHR 0x00) \<longrightarrow> s = t)
    else encodeRawValue oob (GString t) d = Inl (EMsg (MTooLong (reg_Length d * 2)))"
proof (cases "int (length t) \<le> reg_Length d * 2")
  case True
  then obtain ws where ws: "encodeRawValue oob (GString t) d = Inr ws"
    using assms by (simp add: encodeRawValue_def Let_def)
  define s where "s = (let u = strip_nul t in if validString u then u else toValidUTF8 False u)"
  have "validString s" by (simp add: s_def Let_def validString_toValidUTF8)
  moreover have "t = [] \<or> List.last t \<noteq> CHR 0x00 \<Longrightarrow> strip_nul t = t"
    by (cases t rule: rev_cases) (auto simp: strip_nul_def)
  ultimately show ?thesis
    using True ws text_roundtrip_strip [OF assms ws] by (auto simp: s_def Let_def)
next
  case False
  with assms show ?thesis by (simp add: encodeRawValue_def)
qed

theorem text_roundtrip_witness:
  "reg_Type (reg ''k'' 0 3 RegisterChar identity None) = RegisterChar \<and>
   (\<exists>ws. encodeRawValue (\<lambda>_. 0) (GString ''v1.2'') (reg ''k'' 0 3 RegisterChar identity None) = Inr ws \<and>
      decodeRegisterValue ws (reg ''k'' 0 3 RegisterChar identity None\<lparr>reg_Start := 0\<rparr>) =
        Inr (raw_string ''v1.2''))"
proof -
  have "validString ''v1.2''" by code_simp
  then show ?thesis
    using text_roundtrip [of "reg ''k'' 0 3 RegisterChar identity None" "''v1.2''" "\<lambda>_. 0"] by auto
qed

text \<open>The byte order of the wire loses nothing: words written as bytes and
  read back are the same words, and an even number of bytes read as words and written back
  is the same bytes, two to a word.\<close>

theorem wire_roundtrip:
  "bytesToRegisters (registersToBytes ws) = ws \<and>
   length (registersToBytes ws) = 2 * length ws \<and>
   (even (length data) \<longrightarrow> registersToBytes (bytesToRegisters data) = data)"
  by (simp add: bytesToRegisters_registersToBytes registersToBytes_bytesToRegisters)

theorem wire_roundtrip_witness:
  "registersToBytes (bytesToRegisters [1, 2, 3, 4]) = [1, 2, 3, 4]"
  using wire_roundtrip [of "[]" "[1, 2, 3, 4]"] by simp

text \<open>C27: once the 89 input words have been read, decoding the status
  never fails, whatever the words are, and it publishes exactly the keys of the input table,
  in its order.\<close>

theorem status_always_decodes:
  assumes "89 \<le> length registers"
  shows "\<exists>info. decodeRegisterTable registers (inputRegisters oob) = Inr info \<and>
    decoded_from registers (inputRegisters oob) info"
proof -
  have "list_all (\<lambda>d. \<exists>v. decode_row registers d = Inr v) (inputRegisters oob)"
    using input_rows_bounds [of oob] input_reads_total [of oob] assms
      decode_row_total [of 89 _ registers]
    by (auto simp: list_all_iff)
  then obtain info where info: "decodeRegisterTable registers (inputRegisters oob) = Inr info"
    using decode_rows_total unfolding decodeRegisterTable_def by blast
  then show ?thesis using decodeRegisterTable_Inr [OF _ input_keys_distinct] by blast
qed

theorem status_always_decodes_witness:
  "89 \<le> length (replicate 89 (7 :: u16)) \<and>
   (\<exists>info. decodeRegisterTable (replicate 89 7) (inputRegisters (\<lambda>_. 0)) = Inr info)"
  using status_always_decodes [of "replicate 89 7" "\<lambda>_. 0"] by auto

text \<open>Decoding the 108 holding words either publishes every key of the
  holding table, or fails on a row with the error of an enumeration that does not list
  the number read there; no other failure is possible.\<close>

theorem config_decode_cases:
  assumes "108 \<le> length registers"
  shows "(\<exists>info. decodeRegisterTable registers (holdingRegisters oob) = Inr info \<and>
      decoded_from registers (holdingRegisters oob) info) \<or>
    (\<exists>d \<in> set (holdingRegisters oob). \<exists>n.
      decodeRegisterTable registers (holdingRegisters oob) =
        Inl (EWrap (''decode register '' @ reg_Key d) (EMsg (MUnknownEnumNumber n))))"
proof (cases "decodeRegisterTable registers (holdingRegisters oob)")
  case (Inl e)
  then obtain d x where d: "d \<in> set (holdingRegisters oob)" and x: "decode_row registers d = Inl x"
    and e: "e = EWrap (''decode register '' @ reg_Key d) x"
    using decode_rows_Inl unfolding decodeRegisterTable_def by blast
  moreover from d have "row_bounds_ok 108 d" and "read_enum d"
    using holding_rows_bounds holding_reads_enum by (auto simp: list_all_iff)
  then obtain n where "x = EMsg (MUnknownEnumNumber n)"
    using decode_row_enum x assms by fastforce
  ultimately show ?thesis using Inl by blast
next
  case (Inr info)
  then show ?thesis using decodeRegisterTable_Inr [OF _ holding_keys_distinct] by blast
qed

theorem config_decode_cases_witness:
  "\<exists>info. decodeRegisterTable ((replicate 108 0)[42 := 1]) (holdingRegisters (\<lambda>_. 0)) = Inr info \<and>
    decoded_from ((replicate 108 0)[42 := 1]) (holdingRegisters (\<lambda>_. 0)) info"
proof -
  have "\<not> isl (decodeRegisterTable ((replicate 108 0)[42 := 1]) (holdingRegisters (\<lambda>_. 0)))"
    by code_simp
  with config_decode_cases [of "(replicate 108 0)[42 := 1]" "\<lambda>_. 0"] show ?thesis by auto
qed

end
