(* ===== verification/Go_Runtime.thy ===== *)
theory Go_Runtime
  imports Go_Value
begin

text \<open>
  What the program uses of Go's runtime beside values: times and durations, the process's
  clock, timers and contexts, and the civil calendar of a time. A function that acts on the
  outside world takes it as an argument of type \<open>'w\<close> and returns it changed; the functions
  of a \<open>host\<close> are the parameters that stand for the operating system.
\<close>

section \<open>Operations that may fail\<close>

type_synonym ('s, 'a) io = "'s \<Rightarrow> (err + 'a) \<times> 's"

text \<open>\<open>if err != nil { return ..., err }\<close> after a call, and the rest of the function.\<close>

definition on_ok :: "(err + 'a) \<times> 's \<Rightarrow> ('a \<Rightarrow> 's \<Rightarrow> (err + 'b) \<times> 's) \<Rightarrow> (err + 'b) \<times> 's" where
  "on_ok m f = (case m of (Inl e, s) \<Rightarrow> (Inl e, s) | (Inr a, s) \<Rightarrow> f a s)"

lemma on_ok_simps [simp]:
  "on_ok (Inl e, s) f = (Inl e, s)"
  "on_ok (Inr a, s) f = f a s"
  by (simp_all add: on_ok_def)

lemma on_ok_cases:
  assumes "on_ok m f = (r, s')"
  obtains (failed) e where "m = (Inl e, s')" "r = Inl e"
  | (passed) a s where "m = (Inr a, s)" "f a s = (r, s')"
  using assms by (cases m; cases "fst m") auto

text \<open>A call on the world from a function that also owns a state.\<close>

definition on_world :: "('w, 'a) io \<Rightarrow> ('c \<times> 'w, 'a) io" where
  "on_world f s = (case s of (c, w) \<Rightarrow> case f w of (r, w') \<Rightarrow> (r, c, w'))"

lemma on_world_simps [simp]: "on_world f (c, w) = (case f w of (r, w') \<Rightarrow> (r, c, w'))"
  by (simp add: on_world_def)

section \<open>Times and durations\<close>

text \<open>
  A \<open>time.Time\<close> is the number of nanoseconds since Go's zero time, the first of January of
  year 1; \<open>IsZero\<close> holds of 0 only. A \<open>time.Duration\<close> is an \<open>int64\<close>: \<open>Sub\<close> saturates
  and the arithmetic operators wrap.
\<close>

type_synonym gotime = int
type_synonym duration = int

definition wrap64 :: "int \<Rightarrow> int" where
  "wrap64 n = sint (word_of_int n :: 64 word)"

definition time_sub :: "gotime \<Rightarrow> gotime \<Rightarrow> duration" where
  "time_sub t u = max min_int64 (min max_int64 (t - u))"

definition millisecond :: duration where "millisecond = 1000000"
definition second :: duration where "second = 1000000000"
definition hour :: duration where "hour = 3600000000000"

lemma wrap64_id: "in_int64 n \<Longrightarrow> wrap64 n = n"
  by (simp add: wrap64_def in_int64_def min_int64_def max_int64_def sint_sbintrunc' signed_take_bit_int_eq_self)

lemma in_int64_wrap64: "in_int64 (wrap64 n)"
proof -
  have "- (2 ^ 63) \<le> sint (word_of_int n :: 64 word)" "sint (word_of_int n :: 64 word) < 2 ^ 63"
    using sint_ge [of "word_of_int n :: 64 word"] sint_lt [of "word_of_int n :: 64 word"] by simp_all
  then show ?thesis by (simp add: wrap64_def in_int64_def min_int64_def max_int64_def)
qed

lemma time_sub_later:
  "u \<le> t \<Longrightarrow> 0 \<le> time_sub t u \<and> time_sub t u \<le> t - u \<and> time_sub t u \<le> max_int64 \<and>
    (time_sub t u = t - u \<or> time_sub t u = max_int64)"
  by (auto simp: time_sub_def min_int64_def max_int64_def)

section \<open>The host\<close>

text \<open>
  \<open>host_now\<close> is \<open>time.Now\<close>; \<open>host_wait\<close> is the select between a timer of the given
  duration and \<open>ctx.Done()\<close>, which returns the context's error when that came first;
  \<open>ctx_err\<close> is \<open>ctx.Err()\<close>; \<open>host_zone\<close> is the offset of local time in seconds.
\<close>

record 'w host =
  host_now :: "'w \<Rightarrow> gotime \<times> 'w"
  host_wait :: "duration \<Rightarrow> 'w \<Rightarrow> ctx_cause option \<times> 'w"
  ctx_err :: "'w \<Rightarrow> ctx_cause option"
  host_zone :: "'w \<Rightarrow> gotime \<Rightarrow> int"

definition sleepContext :: "'w host \<Rightarrow> duration \<Rightarrow> ('w, unit) io" where
  "sleepContext h delay w =
     (if delay \<le> 0 then (Inr (), w)
      else case host_wait h delay w of
        (Some c, w') \<Rightarrow> (Inl (ECtx c), w')
      | (None, w') \<Rightarrow> (Inr (), w'))"

text \<open>
  What Go documents of clocks and timers, as a hypothesis on a host: a reading \<open>clock\<close> of
  the world that no call turns back, that \<open>time.Now\<close> returns, and that a timer advances by
  at least its duration. The clock is past the zero time.
\<close>

definition timers_ok :: "'w host \<Rightarrow> ('w \<Rightarrow> gotime) \<Rightarrow> bool" where
  "timers_ok h clock \<longleftrightarrow>
     (\<forall>w. 0 < clock w) \<and>
     (\<forall>w t w'. host_now h w = (t, w') \<longrightarrow> clock w \<le> t \<and> t \<le> clock w') \<and>
     (\<forall>d w r w'. host_wait h d w = (r, w') \<longrightarrow> clock w \<le> clock w' \<and> (r = None \<longrightarrow> clock w + d \<le> clock w'))"

lemma timers_okD:
  assumes "timers_ok h clock"
  shows "0 < clock w"
    and "host_now h w = (t, w') \<Longrightarrow> clock w \<le> t \<and> t \<le> clock w'"
    and "host_wait h d w = (r, w') \<Longrightarrow> clock w \<le> clock w'"
    and "host_wait h d w = (None, w') \<Longrightarrow> clock w + d \<le> clock w'"
  using assms unfolding timers_ok_def by blast+

lemma sleepContext_clock:
  assumes "timers_ok h clock" and "sleepContext h d w = (r, w')"
  shows "clock w \<le> clock w' \<and> (r = Inr () \<longrightarrow> clock w + d \<le> clock w')"
  using assms(2) timers_okD(3,4) [OF assms(1)]
  by (auto simp: sleepContext_def split: if_splits prod.splits option.splits)

lemma sleepContext_error: "sleepContext h d w = (Inl e, w') \<Longrightarrow> \<exists>c. e = ECtx c"
  by (auto simp: sleepContext_def split: if_splits prod.splits option.splits)

section \<open>The civil calendar\<close>

text \<open>
  Year, month and day of a day number (0 is the first of January of year 1) in the
  proleptic Gregorian calendar: 400-year, 100-year, 4-year and 1-year cycles, the last year
  of a 400-year and of a 4-year cycle one day longer.
\<close>

definition is_leap :: "int \<Rightarrow> bool" where
  "is_leap y \<longleftrightarrow> y mod 4 = 0 \<and> (y mod 100 \<noteq> 0 \<or> y mod 400 = 0)"

definition month_lengths :: "int \<Rightarrow> int list" where
  "month_lengths y = [31, if is_leap y then 29 else 28, 31, 30, 31, 30, 31, 31, 30, 31, 30, 31]"

fun month_day :: "int list \<Rightarrow> int \<Rightarrow> int \<Rightarrow> int \<times> int" where
  "month_day [] m d = (m, d + 1)"
| "month_day (l # ls) m d = (if d < l \<or> ls = [] then (m, d + 1) else month_day ls (m + 1) (d - l))"

definition year_and_day :: "int \<Rightarrow> int \<times> int" where
  "year_and_day days =
     (let n400 = days div 146097; d = days mod 146097;
          n100 = min 3 (d div 36524); d = d - n100 * 36524;
          n4 = d div 1461; d = d mod 1461;
          n1 = min 3 (d div 365); d = d - n1 * 365
      in (n400 * 400 + n100 * 100 + n4 * 4 + n1 + 1, d))"

definition civil_date :: "int \<Rightarrow> int \<times> int \<times> int" where
  "civil_date days = (let (y, d) = year_and_day days in (y, month_day (month_lengths y) 1 d))"

text \<open>\<open>Year, Month, Day, Hour, Minute, Second\<close> of a time in a zone.\<close>

definition civil :: "int \<Rightarrow> gotime \<Rightarrow> int list" where
  "civil zone t =
     (let s = t div second + zone; r = s mod 86400; (y, m, d) = civil_date (s div 86400)
      in [y, m, d, r div 3600, r mod 3600 div 60, r mod 60])"

definition nanosecond :: "gotime \<Rightarrow> int" where
  "nanosecond t = t mod second"

lemma year_and_day_range:
  assumes "year_and_day days = (y, d)"
  shows "0 \<le> d \<and> d < sum_list (month_lengths y)"
proof -
  define a where "a = days mod 146097"
  define n100 where "n100 = min 3 (a div 36524)"
  define b where "b = a - n100 * 36524"
  define n4 where "n4 = b div 1461"
  define c where "c = b mod 1461"
  define n1 where "n1 = min 3 (c div 365)"
  have y: "y = days div 146097 * 400 + n100 * 100 + n4 * 4 + n1 + 1" and d: "d = c - n1 * 365"
    using assms by (simp_all add: year_and_day_def Let_def a_def n100_def b_def n4_def c_def n1_def)
  have a: "0 \<le> a" "a < 146097" by (simp_all add: a_def)
  then have n100: "0 \<le> n100" "n100 \<le> 3" and b: "0 \<le> b" "n100 < 3 \<longrightarrow> b < 36524" "b < 36525"
    by (auto simp: n100_def b_def min_def)
  then have n4: "0 \<le> n4" "n4 \<le> 24" by (simp_all add: n4_def)
  have c: "0 \<le> c" "c < 1461" by (simp_all add: c_def)
  then have n1: "0 \<le> n1" "n1 \<le> 3" and dr: "0 \<le> d" "n1 < 3 \<longrightarrow> d < 365" "d < 366"
    by (auto simp: n1_def d min_def)
  have "d = 365 \<longrightarrow> n1 = 3 \<and> (n4 = 24 \<longrightarrow> n100 = 3)"
  proof
    assume d365: "d = 365"
    then have n1: "n1 = 3" using dr n1 by linarith
    with d365 d have "c = 1460" by simp
    moreover have "b = n4 * 1461 + c" by (simp add: n4_def c_def)
    ultimately have "n4 = 24 \<longrightarrow> b = 36524" by simp
    with n1 b n100 show "n1 = 3 \<and> (n4 = 24 \<longrightarrow> n100 = 3)" by linarith
  qed
  moreover have "n1 = 3 \<longrightarrow> y = 4 * (days div 146097 * 100 + n100 * 25 + n4 + 1)"
    by (simp add: y algebra_simps)
  then have "n1 = 3 \<longrightarrow> y mod 4 = 0" by simp
  moreover have "n1 = 3 \<and> y mod 100 = 0 \<longrightarrow> n4 = 24"
  proof
    assume h: "n1 = 3 \<and> y mod 100 = 0"
    then have "y = 100 * (days div 146097 * 4 + n100) + (n4 * 4 + 4)" by (simp add: y)
    with h have "(n4 * 4 + 4) mod 100 = 0"
      by (metis mod_mult_self4 mult.commute)
    with n4 show "n4 = 24" by presburger
  qed
  moreover have "n1 = 3 \<and> n4 = 24 \<and> n100 = 3 \<longrightarrow> y = 400 * (days div 146097 + 1)"
    by (simp add: y)
  then have "n1 = 3 \<and> n4 = 24 \<and> n100 = 3 \<longrightarrow> y mod 400 = 0" by simp
  ultimately have "d = 365 \<longrightarrow> is_leap y" by (auto simp: is_leap_def)
  with dr show ?thesis by (auto simp: month_lengths_def)
qed

lemma month_day_range:
  assumes "month_day ls m d = (m', d')" and "0 \<le> d" and "d < sum_list ls" and "ls \<noteq> []"
  shows "m \<le> m' \<and> m' < m + int (length ls) \<and> 1 \<le> d' \<and> d' \<le> ls ! nat (m' - m)"
  using assms
proof (induction ls arbitrary: m d)
  case (Cons l ls)
  show ?case
  proof (cases "d < l \<or> ls = []")
    case True
    with Cons.prems show ?thesis by auto
  next
    case False
    with Cons.prems have "m + 1 \<le> m' \<and> m' < (m + 1) + int (length ls) \<and> 1 \<le> d' \<and>
        d' \<le> ls ! nat (m' - (m + 1))"
      by (intro Cons.IH [of "m + 1" "d - l"]) auto
    moreover from this have "nat (m' - m) = Suc (nat (m' - (m + 1)))" by linarith
    ultimately show ?thesis by auto
  qed
qed simp

text \<open>Every field of a calendar reading is in its range.\<close>

definition civil_ok :: "int list \<Rightarrow> bool" where
  "civil_ok ns \<longleftrightarrow>
     (case ns of [y, m, d, hr, mi, s] \<Rightarrow>
        1 \<le> m \<and> m \<le> 12 \<and> 1 \<le> d \<and> d \<le> month_lengths y ! nat (m - 1) \<and>
        0 \<le> hr \<and> hr < 24 \<and> 0 \<le> mi \<and> mi < 60 \<and> 0 \<le> s \<and> s < 60
      | _ \<Rightarrow> False)"

lemma civil_in_range: "civil_ok (civil zone t)"
proof -
  define q where "q = t div second + zone"
  obtain y d where yd: "year_and_day (q div 86400) = (y, d)" by (cases "year_and_day (q div 86400)")
  obtain m k where mk: "month_day (month_lengths y) 1 d = (m, k)"
    by (cases "month_day (month_lengths y) 1 d")
  have ne: "month_lengths y \<noteq> []" and len: "length (month_lengths y) = 12"
    by (simp_all add: month_lengths_def)
  have "1 \<le> m \<and> m < 13 \<and> 1 \<le> k \<and> k \<le> month_lengths y ! nat (m - 1)"
    using month_day_range [OF mk _ _ ne] year_and_day_range [OF yd] len by simp
  moreover have "0 \<le> q mod 86400" "q mod 86400 < 86400" by simp_all
  then have "0 \<le> q mod 86400 div 3600 \<and> q mod 86400 div 3600 < 24" by auto
  moreover have "0 \<le> q mod 86400 mod 3600" "q mod 86400 mod 3600 < 3600" by simp_all
  then have "0 \<le> q mod 86400 mod 3600 div 60 \<and> q mod 86400 mod 3600 div 60 < 60" by auto
  ultimately show ?thesis
    by (simp add: civil_ok_def civil_def civil_date_def Let_def yd mk q_def [symmetric])
qed

end
