(* ===== verification/Windows.thy ===== *)
theory Windows
  imports Codec Go_Runtime
begin

text \<open>
  Read windows (\<open>src/registers.go\<close>, lines 351 to 398): the range of registers a table needs,
  cut into reads of at most \<open>maxHoldingReadRegisters\<close> words, and the assembly of the words
  read into one buffer (\<open>src/inverter.go\<close>, lines 104 to 147). The arithmetic is that of an
  \<open>int\<close> of 64 bits, which wraps.
\<close>

definition int_add :: "int \<Rightarrow> int \<Rightarrow> int" where
  "int_add a b = wrap64 (a + b)"

definition int_sub :: "int \<Rightarrow> int \<Rightarrow> int" where
  "int_sub a b = wrap64 (a - b)"

lemma int_arith:
  "in_int64 (a + b) \<Longrightarrow> int_add a b = a + b"
  "in_int64 (a - b) \<Longrightarrow> int_sub a b = a - b"
  by (simp_all add: int_add_def int_sub_def wrap64_id)

text \<open>Small numbers do not wrap.\<close>

definition small :: "int \<Rightarrow> bool" where
  "small n \<longleftrightarrow> - (2 ^ 62) \<le> n \<and> n < 2 ^ 62"

lemma small_arith:
  "small a \<Longrightarrow> small b \<Longrightarrow> int_add a b = a + b"
  "small a \<Longrightarrow> small b \<Longrightarrow> int_sub a b = a - b"
  by (auto simp: small_def in_int64_def min_int64_def max_int64_def intro!: int_arith)

record registerWindow =
  win_Start :: int
  win_Count :: int

definition window :: "int \<Rightarrow> int \<Rightarrow> registerWindow" where
  "window s c = \<lparr>win_Start = s, win_Count = c\<rparr>"

lemma window_sel [simp]: "win_Start (window s c) = s" "win_Count (window s c) = c"
  by (simp_all add: window_def)

definition maxHoldingReadRegisters :: int where
  "maxHoldingReadRegisters = 45"

definition definition_end :: "registerDef \<Rightarrow> int" where
  "definition_end d = int_sub (int_add (reg_Start d) (reg_Length d)) 1"

fun window_range :: "int \<Rightarrow> int \<Rightarrow> registerDef list \<Rightarrow> int \<times> int" where
  "window_range start stop [] = (start, stop)"
| "window_range start stop (d # ds) =
     window_range (if reg_Start d < start then reg_Start d else start)
       (if definition_end d > stop then definition_end d else stop) ds"

fun buildRegisterWindow :: "registerDef list \<Rightarrow> registerWindow" where
  "buildRegisterWindow [] = window 0 0"
| "buildRegisterWindow (d # ds) =
     (case window_range (reg_Start d) (definition_end d) ds of
        (start, stop) \<Rightarrow> window start (int_add (int_sub stop start) 1))"

text \<open>The loop may not end, as it does not for a \<open>maximum\<close> of 0; None is that case.\<close>

partial_function (option) windows_loop ::
    "int \<Rightarrow> int \<Rightarrow> int \<Rightarrow> registerWindow list \<Rightarrow> registerWindow list option" where
  "windows_loop current stop maximum ws =
     (if current \<le> stop
      then windows_loop (int_add current maximum) stop maximum
        (ws @ [window current
           (if int_sub (int_add current maximum) 1 > stop then int_add (int_sub stop current) 1 else maximum)])
      else Some ws)"

definition buildRegisterWindows :: "registerDef list \<Rightarrow> int \<Rightarrow> registerWindow list option" where
  "buildRegisterWindows registers maximum =
     (let w = buildRegisterWindow registers
      in if win_Count w = 0 then Some []
         else windows_loop (win_Start w) (int_sub (int_add (win_Start w) (win_Count w)) 1) maximum [])"

definition inputRegisterWindow :: "f2i \<Rightarrow> registerWindow" where
  "inputRegisterWindow oob = buildRegisterWindow (inputRegisters oob)"

definition holdingRegisterWindows :: "f2i \<Rightarrow> registerWindow list" where
  "holdingRegisterWindows oob =
     (case buildRegisterWindows (holdingRegisters oob) maxHoldingReadRegisters of
        None \<Rightarrow> [] | Some ws \<Rightarrow> ws)"

section \<open>Tiling\<close>

text \<open>The windows follow each other without gap or overlap from \<open>s\<close> to \<open>e\<close>.\<close>

fun tiles :: "int \<Rightarrow> int \<Rightarrow> int \<Rightarrow> registerWindow list \<Rightarrow> bool" where
  "tiles maximum s e [] = (s = e + 1)"
| "tiles maximum s e (w # ws) =
     (win_Start w = s \<and> 1 \<le> win_Count w \<and> win_Count w \<le> maximum \<and>
      tiles maximum (s + win_Count w) e ws)"

lemma tiles_le: "tiles maximum s e ws \<Longrightarrow> s \<le> e + 1"
  by (induction ws arbitrary: s) fastforce+

lemma windows_loop_tiles:
  assumes "0 < maximum" and "small (stop + maximum)" and "small stop" and "small maximum"
  shows "0 \<le> current \<Longrightarrow> current \<le> stop + 1 \<Longrightarrow>
    \<exists>new. windows_loop current stop maximum ws = Some (ws @ new) \<and> tiles maximum current stop new"
proof (induction "nat (stop - current + 1)" arbitrary: current ws rule: less_induct)
  case less
  show ?case
  proof (cases "current \<le> stop")
    case False
    with less.prems show ?thesis by (subst windows_loop.simps) simp
  next
    case True
    have small: "small current" "small (current + maximum)" "small 1" "small (stop - current)"
      using assms less.prems True by (auto simp: small_def)
    define c where "c = (if current + maximum - 1 > stop then stop - current + 1 else maximum)"
    have step: "windows_loop current stop maximum ws =
        windows_loop (current + maximum) stop maximum (ws @ [window current c])"
      using True assms(3,4) small by (subst windows_loop.simps) (simp add: small_arith c_def)
    show ?thesis
    proof (cases "current + maximum \<le> stop + 1")
      case le: True
      obtain new where "windows_loop (current + maximum) stop maximum (ws @ [window current c]) =
          Some ((ws @ [window current c]) @ new)" "tiles maximum (current + maximum) stop new"
        using less.hyps [of "current + maximum" "ws @ [window current c]"] le True assms(1) less.prems by auto
      with True le assms(1) show ?thesis by (auto simp: step c_def)
    next
      case False
      then have "windows_loop current stop maximum ws = Some (ws @ [window current c])"
        using True by (subst step, subst windows_loop.simps) simp
      with False True show ?thesis by (auto simp: c_def)
    qed
  qed
qed

lemma windows_loop_stuck:
  assumes "windows_loop current stop maximum ws = Some r"
  shows "small current \<and> maximum = 0 \<longrightarrow> stop < current"
proof (rule windows_loop.raw_induct
    [where P = "\<lambda>current stop maximum ws r. small current \<and> maximum = 0 \<longrightarrow> stop < current", OF _ assms])
  fix loop current stop maximum and ws :: "registerWindow list" and r
  assume IH: "\<And>current stop maximum ws r.
      loop current stop maximum ws = Some r \<Longrightarrow> small current \<and> maximum = 0 \<longrightarrow> stop < current"
    and eq: "(if current \<le> stop then loop (int_add current maximum) stop maximum
        (ws @ [window current (if stop < int_sub (int_add current maximum) 1 then int_add (int_sub stop current) 1
           else maximum)])
      else Some ws) = Some r"
  show "small current \<and> maximum = 0 \<longrightarrow> stop < current"
  proof (cases "current \<le> stop")
    case True
    with eq have "small (int_add current maximum) \<and> maximum = 0 \<longrightarrow> stop < int_add current maximum"
      by (auto dest: IH)
    then show ?thesis using small_arith(1) [of current 0] by (auto simp: small_def)
  qed simp
qed

text \<open>A row of the Modbus address space.\<close>

definition addressable :: "registerDef \<Rightarrow> bool" where
  "addressable d \<longleftrightarrow> 0 \<le> reg_Start d \<and> 1 \<le> reg_Length d \<and> reg_Start d + reg_Length d \<le> 65536"

lemma definition_end_addressable:
  "addressable d \<Longrightarrow> definition_end d = reg_Start d + reg_Length d - 1"
  by (simp add: addressable_def definition_end_def small_arith small_def)

lemma window_range_covers:
  assumes "\<forall>d \<in> set ds. addressable d" and "window_range s l ds = (s', l')"
    and "0 \<le> s" and "s \<le> l" and "l \<le> 65535"
  shows "0 \<le> s' \<and> s' \<le> s \<and> l \<le> l' \<and> l' \<le> 65535 \<and>
    (\<forall>d \<in> set ds. s' \<le> reg_Start d \<and> reg_Start d + reg_Length d - 1 \<le> l')"
  using assms
proof (induction ds arbitrary: s l)
  case (Cons d ds)
  then have d: "0 \<le> reg_Start d" "reg_Start d \<le> definition_end d" "definition_end d \<le> 65535"
    "definition_end d = reg_Start d + reg_Length d - 1"
    using definition_end_addressable [of d] by (auto simp: addressable_def)
  have "0 \<le> s' \<and> s' \<le> (if reg_Start d < s then reg_Start d else s) \<and>
      (if definition_end d > l then definition_end d else l) \<le> l' \<and> l' \<le> 65535 \<and>
      (\<forall>d \<in> set ds. s' \<le> reg_Start d \<and> reg_Start d + reg_Length d - 1 \<le> l')"
    using Cons.prems d by (intro Cons.IH) auto
  with d show ?case by (auto split: if_splits)
qed simp

lemma buildRegisterWindow_covers:
  assumes "\<forall>d \<in> set ds. addressable d" and "ds \<noteq> []"
  shows "0 \<le> win_Start (buildRegisterWindow ds) \<and> 1 \<le> win_Count (buildRegisterWindow ds) \<and>
    win_Start (buildRegisterWindow ds) + win_Count (buildRegisterWindow ds) \<le> 65536 \<and>
    (\<forall>d \<in> set ds. win_Start (buildRegisterWindow ds) \<le> reg_Start d \<and>
      reg_Start d + reg_Length d \<le> win_Start (buildRegisterWindow ds) + win_Count (buildRegisterWindow ds))"
proof -
  obtain a as where ds: "ds = a # as" using assms(2) by (cases ds) auto
  obtain s e where r: "window_range (reg_Start a) (definition_end a) as = (s, e)"
    by (cases "window_range (reg_Start a) (definition_end a) as")
  have a: "0 \<le> reg_Start a" "reg_Start a \<le> definition_end a" "definition_end a \<le> 65535"
    "definition_end a = reg_Start a + reg_Length a - 1"
    using assms(1) definition_end_addressable [of a] by (auto simp: ds addressable_def)
  from window_range_covers [OF _ r a(1-3)] assms(1)
  have se: "0 \<le> s" "s \<le> reg_Start a" "definition_end a \<le> e" "e \<le> 65535"
    "\<forall>d \<in> set as. s \<le> reg_Start d \<and> reg_Start d + reg_Length d - 1 \<le> e"
    by (simp_all add: ds)
  then have "int_add (int_sub e s) 1 = e - s + 1" using a by (simp add: small_arith small_def)
  with se a r show ?thesis by (auto simp: ds)
qed

section \<open>The windows of the program\<close>

lemma inputRegisterWindow_eq: "inputRegisterWindow oob = window 0 89"
  by (simp add: inputRegisterWindow_def inputRegisters_def definition_end_def small_arith small_def)

lemma holdingRegisterWindows_eq [code]:
  "holdingRegisterWindows oob = [window 0 45, window 45 45, window 90 18]"
proof -
  have "buildRegisterWindow (holdingRegisters oob) = window 0 108"
    by (simp add: holdingRegisters_def definition_end_def small_arith small_def)
  then have "buildRegisterWindows (holdingRegisters oob) 45 = Some [window 0 45, window 45 45, window 90 18]"
    by (simp add: buildRegisterWindows_def windows_loop.simps small_arith small_def)
  then show ?thesis by (simp add: holdingRegisterWindows_def maxHoldingReadRegisters_def)
qed

text \<open>C28: for a table of rows in the Modbus address space and a maximum of
  1 to 65535 words the loop that cuts the table into windows returns; the windows hold
  between one and \<open>maximum\<close> words each, follow each other without gap or overlap, and
  together hold every row. For a maximum of 0 the loop never returns. No operation of the
  loop wraps around under these bounds.\<close>

theorem windows_tile_range:
  assumes "\<forall>d \<in> set registers. addressable d" and "registers \<noteq> []" and "0 \<le> maximum" and "maximum \<le> 65535"
  shows "if maximum = 0 then buildRegisterWindows registers maximum = None
    else \<exists>ws s e. buildRegisterWindows registers maximum = Some ws \<and> tiles maximum s e ws \<and>
      (\<forall>d \<in> set registers. s \<le> reg_Start d \<and> reg_Start d + reg_Length d - 1 \<le> e) \<and>
      s = win_Start (buildRegisterWindow registers) \<and>
      e = s + win_Count (buildRegisterWindow registers) - 1"
proof -
  define s where "s = win_Start (buildRegisterWindow registers)"
  define e where "e = s + win_Count (buildRegisterWindow registers) - 1"
  have range: "0 \<le> s" "s \<le> e" "e \<le> 65535" "1 \<le> win_Count (buildRegisterWindow registers)"
    "\<forall>d \<in> set registers. s \<le> reg_Start d \<and> reg_Start d + reg_Length d - 1 \<le> e"
    using buildRegisterWindow_covers [OF assms(1,2)] by (auto simp: s_def e_def)
  then have "int_sub (int_add s (win_Count (buildRegisterWindow registers))) 1 = e"
    by (simp add: small_arith small_def e_def)
  with range have eq: "buildRegisterWindows registers maximum = windows_loop s e maximum []"
    by (simp add: buildRegisterWindows_def Let_def s_def)
  show ?thesis
  proof (cases "maximum = 0")
    case True
    then have "windows_loop s e maximum [] = None"
      using windows_loop_stuck [of s e maximum "[]"] range by (cases "windows_loop s e maximum []") (auto simp: small_def)
    with eq True show ?thesis by simp
  next
    case False
    with windows_loop_tiles [of maximum e s "[]"] range assms(3,4)
    obtain ws where "windows_loop s e maximum [] = Some ws" "tiles maximum s e ws" by (auto simp: small_def)
    with eq False range(5) s_def e_def show ?thesis by auto
  qed
qed

theorem windows_tile_range_witness:
  "\<exists>ws. buildRegisterWindows (holdingRegisters (\<lambda>_. 0)) 45 = Some ws \<and> tiles 45 0 107 ws"
proof -
  have w: "buildRegisterWindow (holdingRegisters (\<lambda>_. 0)) = window 0 108"
    by (simp add: holdingRegisters_def definition_end_def small_arith small_def)
  have "\<forall>d \<in> set (holdingRegisters (\<lambda>_. 0)). addressable d" "holdingRegisters (\<lambda>_. 0) \<noteq> []"
    by (simp_all add: holdingRegisters_def addressable_def)
  from windows_tile_range [OF this, of 45] w show ?thesis by auto
qed

text \<open>C29: no holding register of several words is split between two reads, so
  each value the program decodes comes from one Modbus transaction, and every window is
  short enough for one Modbus read request (125 words).\<close>

theorem no_row_is_torn:
  "list_all (\<lambda>d. list_ex (\<lambda>w. win_Start w \<le> reg_Start d \<and>
      reg_Start d + reg_Length d \<le> win_Start w + win_Count w) (holdingRegisterWindows oob))
     (holdingRegisters oob) \<and>
   list_all (\<lambda>w. 1 \<le> win_Count w \<and> win_Count w \<le> 125)
     (inputRegisterWindow oob # holdingRegisterWindows oob)"
  unfolding holdingRegisterWindows_eq inputRegisterWindow_eq
  by (simp add: holdingRegisters_def)

end
