(* ===== verification/Modbus_Client.thy ===== *)
theory Modbus_Client
  imports Go_Runtime Windows
begin

text \<open>
  The Modbus client (\<open>src/modbus_client.go\<close>): every request has a time limit, every error of
  the library is fatal or the context's, and writes keep their distance on the bus.
\<close>

section \<open>The bus and the client\<close>

definition registerWriteInterval :: duration where
  "registerWriteInterval = 850 * millisecond"

text \<open>
  The library \<open>grid-x/modbus\<close> as the client calls it: the first argument of each function is
  the time limit of its request context. Its errors are its own, known by their text only.
\<close>

type_synonym ('w, 'a) ext = "'w \<Rightarrow> (string + 'a) \<times> 'w"

record 'w bus =
  bus_connect :: "duration \<Rightarrow> ('w, unit) ext"
  bus_close :: "('w, unit) ext"
  bus_read_input :: "duration \<Rightarrow> u16 \<Rightarrow> u16 \<Rightarrow> ('w, 8 word list) ext"
  bus_read_holding :: "duration \<Rightarrow> u16 \<Rightarrow> u16 \<Rightarrow> ('w, 8 word list) ext"
  bus_write_single :: "duration \<Rightarrow> u16 \<Rightarrow> u16 \<Rightarrow> ('w, unit) ext"
  bus_write_multiple :: "duration \<Rightarrow> u16 \<Rightarrow> u16 \<Rightarrow> 8 word list \<Rightarrow> ('w, unit) ext"

record modbus_client =
  mc_timeout :: duration
  lastRegisterWrite :: gotime

definition NewModbusClient :: "duration \<Rightarrow> modbus_client" where
  "NewModbusClient timeout = \<lparr>mc_timeout = timeout, lastRegisterWrite = 0\<rparr>"

type_synonym 'w cw = "modbus_client \<times> 'w"

section \<open>Operations\<close>

definition from_library :: "('w, 'a) ext \<Rightarrow> ('w, 'a) io" where
  "from_library f w =
     (case f w of (Inl e, w') \<Rightarrow> (Inl (EExt e), w') | (Inr a, w') \<Rightarrow> (Inr a, w'))"

definition execute :: "'w host \<Rightarrow> modbus_client \<Rightarrow> (duration \<Rightarrow> ('w, 'a) io) \<Rightarrow> ('w, 'a) io" where
  "execute h c operation w =
     (case operation (mc_timeout c) w of
        (Inr a, w') \<Rightarrow> (Inr a, w')
      | (Inl e, w') \<Rightarrow>
          (case ctx_err h w' of
             Some cause \<Rightarrow> (Inl (ECtx cause), w')
           | None \<Rightarrow> (fatalModbusErrorFor (Inl e), w')))"

definition client_Connect :: "'w host \<Rightarrow> 'w bus \<Rightarrow> ('w cw, unit) io" where
  "client_Connect h b s = (case s of (c, w) \<Rightarrow> on_world (execute h c (\<lambda>limit. from_library (bus_connect b limit))) (c, w))"

definition client_Close :: "'w bus \<Rightarrow> ('w cw, unit) io" where
  "client_Close b s =
     (case s of (c, w) \<Rightarrow> case from_library (bus_close b) w of (r, w') \<Rightarrow> (fatalModbusErrorFor r, c, w'))"

definition client_ReadInputRegisters ::
    "'w host \<Rightarrow> 'w bus \<Rightarrow> int \<Rightarrow> int \<Rightarrow> ('w cw, u16 list) io" where
  "client_ReadInputRegisters h b start count s =
     (case s of (c, w) \<Rightarrow>
        on_ok (on_world (execute h c
            (\<lambda>limit. from_library (bus_read_input b limit (word_of_int start) (word_of_int count)))) (c, w))
          (\<lambda>result s'. (Inr (bytesToRegisters result), s')))"

definition client_ReadHoldingRegisters ::
    "'w host \<Rightarrow> 'w bus \<Rightarrow> int \<Rightarrow> int \<Rightarrow> ('w cw, u16 list) io" where
  "client_ReadHoldingRegisters h b start count s =
     (case s of (c, w) \<Rightarrow>
        on_ok (on_world (execute h c
            (\<lambda>limit. from_library (bus_read_holding b limit (word_of_int start) (word_of_int count)))) (c, w))
          (\<lambda>result s'. (Inr (bytesToRegisters result), s')))"

text \<open>The bus call of \<open>WriteRegisters\<close>: one register or several.\<close>

definition write_request :: "'w bus \<Rightarrow> int \<Rightarrow> u16 list \<Rightarrow> duration \<Rightarrow> ('w, unit) io" where
  "write_request b start registerValues limit =
     (case registerValues of
        [v] \<Rightarrow> from_library (bus_write_single b limit (word_of_int start) v)
      | _ \<Rightarrow> from_library (bus_write_multiple b limit (word_of_int start)
          (of_nat (length registerValues)) (registersToBytes registerValues)))"

definition client_WriteRegisters ::
    "'w host \<Rightarrow> 'w bus \<Rightarrow> int \<Rightarrow> ('w, u16 list) io \<Rightarrow> ('w cw, unit) io" where
  "client_WriteRegisters h b start vals s =
     (case s of (c, w) \<Rightarrow>
        on_ok
          (if lastRegisterWrite c \<noteq> 0 then
             case host_now h w of (now, w1) \<Rightarrow>
               on_world (sleepContext h
                 (wrap64 (registerWriteInterval - time_sub now (lastRegisterWrite c)))) (c, w1)
           else (Inr (), c, w))
          (\<lambda>_ s1. on_ok (on_world vals s1)
            (\<lambda>registerValues (c2, w2).
               case execute h c2 (write_request b start registerValues) w2 of
                 (r, w3) \<Rightarrow> case host_now h w3 of
                   (written, w4) \<Rightarrow> (r, c2\<lparr>lastRegisterWrite := written\<rparr>, w4))))"

section \<open>Every error is fatal or the context's\<close>

fun bus_error :: "err \<Rightarrow> bool" where
  "bus_error (EFatal (EExt _)) = True"
| "bus_error (ECtx _) = True"
| "bus_error _ = False"

lemma bus_error_iff: "bus_error e \<longleftrightarrow> (\<exists>x. e = EFatal (EExt x)) \<or> (\<exists>cause. e = ECtx cause)"
  by (induction e rule: bus_error.induct) simp_all

lemma bus_error_kind:
  "bus_error e \<Longrightarrow> \<not> isCommandError e"
  "bus_error e \<Longrightarrow> \<not> isFatalModbus e \<Longrightarrow> \<exists>cause. e = ECtx cause"
  by (auto simp: bus_error_iff)

text \<open>An operation of the library, whose errors are \<open>EExt\<close>.\<close>

definition library_call :: "('w, 'a) io \<Rightarrow> bool" where
  "library_call f \<longleftrightarrow> (\<forall>w e w'. f w = (Inl e, w') \<longrightarrow> (\<exists>x. e = EExt x))"

lemma from_library_call [simp]: "library_call (from_library f)"
  by (auto simp: library_call_def from_library_def split: prod.splits sum.splits)

lemma write_request_library [simp]: "library_call (write_request b start ws limit)"
  by (simp add: write_request_def split: list.splits)

lemma from_library_Inr: "from_library f w = (Inr a, w') \<longleftrightarrow> f w = (Inr a, w')"
  by (auto simp: from_library_def split: prod.splits sum.splits)

lemma execute_Inr: "execute h c f w = (Inr a, w') \<longleftrightarrow> f (mc_timeout c) w = (Inr a, w')"
  by (auto simp: execute_def fatalModbusErrorFor_def split: prod.splits sum.splits option.splits)

lemma execute_error:
  assumes "execute h c op w = (Inl e, w')" and "\<And>limit. library_call (op limit)"
  shows "bus_error e"
  using assms by (fastforce simp: execute_def fatalModbusErrorFor_def library_call_def
      split: prod.splits sum.splits option.splits if_splits)

lemma client_errors:
  "client_Connect h b s = (Inl e, s') \<Longrightarrow> bus_error e"
  "client_Close b s = (Inl e, s') \<Longrightarrow> \<exists>x. e = EFatal (EExt x)"
  "client_ReadInputRegisters h b start count s = (Inl e, s') \<Longrightarrow> bus_error e"
  "client_ReadHoldingRegisters h b start count s = (Inl e, s') \<Longrightarrow> bus_error e"
  by (auto simp: client_Connect_def client_Close_def client_ReadInputRegisters_def
      client_ReadHoldingRegisters_def fatalModbusErrorFor_def from_library_def
      dest: execute_error elim!: on_ok_cases split: prod.splits sum.splits if_splits)

text \<open>The world after the wait of a write: nothing to wait for, or the timer fired.\<close>

definition waited :: "'w host \<Rightarrow> modbus_client \<Rightarrow> 'w \<Rightarrow> 'w \<Rightarrow> bool" where
  "waited h c w w1 \<longleftrightarrow> lastRegisterWrite c = 0 \<and> w1 = w \<or>
     (\<exists>now w0. host_now h w = (now, w0) \<and>
       sleepContext h (wrap64 (registerWriteInterval - time_sub now (lastRegisterWrite c))) w0 = (Inr (), w1))"

text \<open>
  What a write can do: fail before the bus is touched, with the error of the wait or of the
  value function, or send its one request and note the time.
\<close>

lemma client_WriteRegisters_cases:
  assumes "client_WriteRegisters h b start vals (c, w) = (r, c', w')"
  obtains (waiting) e now w1 where
      "lastRegisterWrite c \<noteq> 0" "host_now h w = (now, w1)"
      "sleepContext h (wrap64 (registerWriteInterval - time_sub now (lastRegisterWrite c))) w1 = (Inl e, w')"
      "r = Inl e" "c' = c"
  | (valueless) e w1 where "waited h c w w1" "vals w1 = (Inl e, w')" "r = Inl e" "c' = c"
  | (requested) w1 ws w2 w3 written where
      "vals w1 = (Inr ws, w2)" "execute h c (write_request b start ws) w2 = (r, w3)"
      "host_now h w3 = (written, w')" "c' = c\<lparr>lastRegisterWrite := written\<rparr>"
      "waited h c w w1"
proof -
  define wait where "wait = (if lastRegisterWrite c \<noteq> 0 then
      case host_now h w of (now, w1) \<Rightarrow>
        on_world (sleepContext h (wrap64 (registerWriteInterval - time_sub now (lastRegisterWrite c)))) (c, w1)
    else (Inr (), c, w))"
  have "on_ok wait (\<lambda>_ s1. on_ok (on_world vals s1) (\<lambda>ws (c2, w2).
      case execute h c2 (write_request b start ws) w2 of
        (r, w3) \<Rightarrow> case host_now h w3 of
          (written, w4) \<Rightarrow> (r, c2\<lparr>lastRegisterWrite := written\<rparr>, w4))) = (r, c', w')"
    using assms by (simp add: client_WriteRegisters_def wait_def)
  then show thesis
  proof (cases rule: on_ok_cases)
    case (failed e)
    then show thesis
      by (cases "lastRegisterWrite c = 0"; cases "host_now h w")
        (auto simp: wait_def split: prod.splits intro: waiting)
  next
    case (passed u s1)
    obtain c1 w1 where s1: "s1 = (c1, w1)" by (cases s1)
    have "c1 = c \<and> waited h c w w1"
      using passed(1) by (cases "lastRegisterWrite c = 0"; cases "host_now h w")
        (auto simp: wait_def waited_def s1 split: prod.splits)
    then have c1: "c1 = c" and w1: "waited h c w w1"
      by blast+
    from passed(2) show thesis
    proof (cases rule: on_ok_cases)
      case (failed e)
      then have "vals w1 = (Inl e, w')" "c' = c" by (auto simp: s1 c1 split: prod.splits)
      with failed(2) w1 show thesis using valueless by blast
    next
      case (passed ws s2)
      obtain w2 where w2: "vals w1 = (Inr ws, w2)" "s2 = (c, w2)"
        using passed(1) by (auto simp: s1 c1 split: prod.splits)
      obtain r3 w3 where w3: "execute h c (write_request b start ws) w2 = (r3, w3)" by fastforce
      obtain t w4 where w4: "host_now h w3 = (t, w4)" by fastforce
      have "r = r3" "c' = c\<lparr>lastRegisterWrite := t\<rparr>" "w' = w4"
        using passed(2) by (simp_all add: w2(2) w3 w4)
      with w2(1) w3 w4 w1 show thesis using requested by blast
    qed
  qed
qed

lemma client_WriteRegisters_error:
  assumes "client_WriteRegisters h b start vals s = (Inl e, s')"
    and vals: "\<And>w x w'. vals w = (Inl x, w') \<Longrightarrow> P x" and bus: "\<And>x. bus_error x \<Longrightarrow> P x"
  shows "P e"
proof -
  obtain c w c' w' where s: "s = (c, w)" "s' = (c', w')" by (cases s; cases s') auto
  show ?thesis
    using assms(1) unfolding s
    by (cases rule: client_WriteRegisters_cases)
      (auto dest!: sleepContext_error execute_error intro: vals bus)
qed

end
