(* ===== verification/Write_Spacing.thy ===== *)
theory Write_Spacing
  imports Modbus_Client
begin

text \<open>
  The distance between writes: an arbitrary sequence of client calls run on a bus that keeps
  a record of when each write request started.
\<close>

section \<open>A bus with a record of its writes\<close>

text \<open>The record of a world is the list of the clock readings at which writes started.\<close>

definition silent :: "('w \<Rightarrow> 'r \<times> 'w) \<Rightarrow> 'w \<times> gotime list \<Rightarrow> 'r \<times> 'w \<times> gotime list" where
  "silent f s = (case s of (w, tr) \<Rightarrow> case f w of (r, w') \<Rightarrow> (r, w', tr))"

definition stamped :: "('w \<Rightarrow> gotime) \<Rightarrow> ('w \<Rightarrow> 'r \<times> 'w) \<Rightarrow> 'w \<times> gotime list \<Rightarrow> 'r \<times> 'w \<times> gotime list" where
  "stamped clock f s = (case s of (w, tr) \<Rightarrow> case f w of (r, w') \<Rightarrow> (r, w', tr @ [clock w]))"

definition traced_bus :: "('w \<Rightarrow> gotime) \<Rightarrow> 'w bus \<Rightarrow> ('w \<times> gotime list) bus" where
  "traced_bus clock b =
     \<lparr>bus_connect = \<lambda>limit. silent (bus_connect b limit),
      bus_close = silent (bus_close b),
      bus_read_input = \<lambda>limit start count. silent (bus_read_input b limit start count),
      bus_read_holding = \<lambda>limit start count. silent (bus_read_holding b limit start count),
      bus_write_single = \<lambda>limit start v. stamped clock (bus_write_single b limit start v),
      bus_write_multiple = \<lambda>limit start count data.
        stamped clock (bus_write_multiple b limit start count data)\<rparr>"

definition traced_host :: "'w host \<Rightarrow> ('w \<times> gotime list) host" where
  "traced_host h =
     \<lparr>host_now = \<lambda>(w, tr). case host_now h w of (t, w') \<Rightarrow> (t, w', tr),
      host_wait = \<lambda>d (w, tr). case host_wait h d w of (r, w') \<Rightarrow> (r, w', tr),
      ctx_err = \<lambda>(w, tr). ctx_err h w,
      host_zone = \<lambda>(w, tr). host_zone h w\<rparr>"

section \<open>Sequences of client calls\<close>

datatype 'w client_call =
    CallConnect
  | CallClose
  | CallReadInput int int
  | CallReadHolding int int
  | CallWrite int "('w, u16 list) io"

fun make_call :: "'w host \<Rightarrow> 'w bus \<Rightarrow> 'w client_call \<Rightarrow> 'w cw \<Rightarrow> 'w cw" where
  "make_call h b CallConnect s = snd (client_Connect h b s)"
| "make_call h b CallClose s = snd (client_Close b s)"
| "make_call h b (CallReadInput start count) s = snd (client_ReadInputRegisters h b start count s)"
| "make_call h b (CallReadHolding start count) s = snd (client_ReadHoldingRegisters h b start count s)"
| "make_call h b (CallWrite start vals) s = snd (client_WriteRegisters h b start vals s)"

definition client_calls :: "'w host \<Rightarrow> 'w bus \<Rightarrow> 'w client_call list \<Rightarrow> 'w cw \<Rightarrow> 'w cw" where
  "client_calls h b = fold (make_call h b)"

text \<open>The call as it is made on the recorded world.\<close>

fun traced_call :: "'w client_call \<Rightarrow> ('w \<times> gotime list) client_call" where
  "traced_call CallConnect = CallConnect"
| "traced_call CallClose = CallClose"
| "traced_call (CallReadInput start count) = CallReadInput start count"
| "traced_call (CallReadHolding start count) = CallReadHolding start count"
| "traced_call (CallWrite start vals) = CallWrite start (silent vals)"

section \<open>The clock never turns back\<close>

definition forward :: "('w \<Rightarrow> gotime) \<Rightarrow> ('w \<Rightarrow> 'r \<times> 'w) \<Rightarrow> bool" where
  "forward clock f \<longleftrightarrow> (\<forall>w. clock w \<le> clock (snd (f w)))"

definition bus_forward :: "('w \<Rightarrow> gotime) \<Rightarrow> 'w bus \<Rightarrow> bool" where
  "bus_forward clock b \<longleftrightarrow>
     (\<forall>limit. forward clock (bus_connect b limit)) \<and> forward clock (bus_close b) \<and>
     (\<forall>limit start count. forward clock (bus_read_input b limit start count) \<and>
        forward clock (bus_read_holding b limit start count)) \<and>
     (\<forall>limit start v. forward clock (bus_write_single b limit start v)) \<and>
     (\<forall>limit start count data. forward clock (bus_write_multiple b limit start count data))"

fun call_forward :: "('w \<Rightarrow> gotime) \<Rightarrow> 'w client_call \<Rightarrow> bool" where
  "call_forward clock (CallWrite start vals) = forward clock vals"
| "call_forward clock _ = True"

lemma forwardD: "forward clock f \<Longrightarrow> f w = (r, w') \<Longrightarrow> clock w \<le> clock w'"
  by (metis forward_def snd_conv)

section \<open>The invariant\<close>

text \<open>
  Writes in the record are at least the interval apart, and none started after the time the
  client remembers, which is not in the future.
\<close>

definition apart :: "gotime list \<Rightarrow> bool" where
  "apart = sorted_wrt (\<lambda>a b. a + registerWriteInterval \<le> b)"

fun spaced :: "('w \<Rightarrow> gotime) \<Rightarrow> ('w \<times> gotime list) cw \<Rightarrow> bool" where
  "spaced clock (c, w, tr) \<longleftrightarrow>
     apart tr \<and> 0 \<le> lastRegisterWrite c \<and> lastRegisterWrite c \<le> clock w \<and>
     (\<forall>a \<in> set tr. 0 < lastRegisterWrite c \<and> a \<le> lastRegisterWrite c)"

lemma apart_snoc:
  "apart (tr @ [t]) \<longleftrightarrow> apart tr \<and> (\<forall>a \<in> set tr. a + registerWriteInterval \<le> t)"
  by (simp add: apart_def sorted_wrt_append)

lemma traced_simps [simp]:
  "bus_connect (traced_bus clock b) = (\<lambda>limit. silent (bus_connect b limit))"
  "bus_close (traced_bus clock b) = silent (bus_close b)"
  "bus_read_input (traced_bus clock b) limit start count = silent (bus_read_input b limit start count)"
  "bus_read_holding (traced_bus clock b) limit start count = silent (bus_read_holding b limit start count)"
  "bus_write_single (traced_bus clock b) limit start v = stamped clock (bus_write_single b limit start v)"
  "bus_write_multiple (traced_bus clock b) limit start count data =
     stamped clock (bus_write_multiple b limit start count data)"
  "host_now (traced_host h) (w, tr) = (case host_now h w of (t, w') \<Rightarrow> (t, w', tr))"
  "host_wait (traced_host h) d (w, tr) = (case host_wait h d w of (r, w') \<Rightarrow> (r, w', tr))"
  "silent f (w, tr) = (case f w of (r, w') \<Rightarrow> (r, w', tr))"
  "stamped clock f (w, tr) = (case f w of (r, w') \<Rightarrow> (r, w', tr @ [clock w]))"
  by (simp_all add: traced_bus_def traced_host_def silent_def stamped_def)

lemma from_library_traced [simp]:
  "from_library (silent f) = silent (from_library f)"
  "from_library (stamped clock f) = stamped clock (from_library f)"
  "forward clock f \<Longrightarrow> forward clock (from_library f)"
proof -
  show "forward clock f \<Longrightarrow> forward clock (from_library f)"
    using forwardD [of clock f] by (simp add: forward_def from_library_def split: prod.splits sum.splits)
qed (auto simp: from_library_def silent_def stamped_def fun_eq_iff split: prod.splits sum.splits)

lemma execute_silent:
  assumes "\<And>limit. forward clock (f limit)"
    and "execute (traced_host h) c (\<lambda>limit. silent (f limit)) (w, tr) = (r, w', tr')"
  shows "tr' = tr \<and> clock w \<le> clock w'"
  using assms(2) forwardD [OF assms(1)]
  by (auto simp: execute_def fatalModbusErrorFor_def split: prod.splits sum.splits option.splits)

lemma execute_stamped:
  assumes "\<And>limit. forward clock (f limit)"
    and "execute (traced_host h) c (\<lambda>limit. stamped clock (f limit)) (w, tr) = (r, w', tr')"
  shows "tr' = tr @ [clock w] \<and> clock w \<le> clock w'"
  using assms(2) forwardD [OF assms(1)]
  by (auto simp: execute_def fatalModbusErrorFor_def split: prod.splits sum.splits option.splits)

lemma write_request_traced:
  "write_request (traced_bus clock b) start ws = (\<lambda>limit. stamped clock (write_request b start ws limit))"
  by (rule ext) (simp add: write_request_def split: list.splits)

lemma write_request_forward:
  "bus_forward clock b \<Longrightarrow> forward clock (write_request b start ws limit)"
  by (auto simp: write_request_def bus_forward_def split: list.splits)

lemma sleepContext_traced:
  "sleepContext (traced_host h) d (w, tr) = (case sleepContext h d w of (r, w') \<Rightarrow> (r, w', tr))"
  by (auto simp: sleepContext_def split: prod.splits option.splits)

text \<open>After the wait the interval since the remembered write has passed.\<close>

lemma wait_passes:
  assumes "timers_ok h clock" and "host_now h w = (now, w0)" and "lastRegisterWrite c \<le> clock w"
    and "sleepContext h (wrap64 (registerWriteInterval - time_sub now (lastRegisterWrite c))) w0 = (Inr (), w1)"
  shows "lastRegisterWrite c + registerWriteInterval \<le> clock w1 \<and> clock w \<le> clock w1"
proof -
  have now: "clock w \<le> now" "now \<le> clock w0" using timers_okD(2) [OF assms(1,2)] by simp_all
  let ?d = "registerWriteInterval - time_sub now (lastRegisterWrite c)"
  have sub: "0 \<le> time_sub now (lastRegisterWrite c)" "time_sub now (lastRegisterWrite c) \<le> now - lastRegisterWrite c"
    "time_sub now (lastRegisterWrite c) \<le> max_int64"
    using time_sub_later [of "lastRegisterWrite c" now] now assms(3) by auto
  then have "wrap64 ?d = ?d"
    by (intro wrap64_id) (simp add: in_int64_def min_int64_def max_int64_def registerWriteInterval_def millisecond_def)
  then have "clock w0 + ?d \<le> clock w1" "clock w0 \<le> clock w1"
    using sleepContext_clock [OF assms(1,4)] by simp_all
  with sub(2) now show ?thesis by linarith
qed

lemma waited_traced:
  assumes "timers_ok h clock" and "waited (traced_host h) c (w, tr) w1"
    and "lastRegisterWrite c \<le> clock w"
  shows "\<exists>v. w1 = (v, tr) \<and> clock w \<le> clock v \<and>
    (lastRegisterWrite c \<noteq> 0 \<longrightarrow> lastRegisterWrite c + registerWriteInterval \<le> clock v)"
proof (cases "lastRegisterWrite c = 0 \<and> w1 = (w, tr)")
  case False
  with assms(2) obtain now v0 v1 where v: "host_now h w = (now, v0)"
    "sleepContext h (wrap64 (registerWriteInterval - time_sub now (lastRegisterWrite c))) v0 = (Inr (), v1)"
    and "w1 = (v1, tr)"
    by (auto simp: waited_def sleepContext_traced split: prod.splits)
  with wait_passes [OF assms(1) v(1) assms(3) v(2)] show ?thesis by simp
qed simp

lemma make_call_spaced:
  assumes h: "timers_ok h clock" and b: "bus_forward clock b" and call: "call_forward clock x"
    and sp: "spaced clock s"
  shows "spaced clock (make_call (traced_host h) (traced_bus clock b) (traced_call x) s)"
proof -
  obtain c w tr where s: "s = (c, w, tr)" by (cases s) auto
  have keep: "spaced clock (c, w', tr')" if "tr' = tr \<and> clock w \<le> clock w'" for w' tr'
    using sp that by (auto simp: s)
  have read: "spaced clock (snd (on_ok (on_world (execute (traced_host h) c (\<lambda>limit. silent (f limit)))
      (c, w, tr)) (\<lambda>result s'. (Inr (g result), s'))))"
    if "\<And>limit. forward clock (f limit)" for f :: "duration \<Rightarrow> ('a, 'c) io" and g :: "'c \<Rightarrow> 'd"
  proof -
    obtain r w' tr' where e: "execute (traced_host h) c (\<lambda>limit. silent (f limit)) (w, tr) = (r, w', tr')"
      by (metis prod_cases3)
    with keep [OF execute_silent [OF that e]] show ?thesis by (cases r) simp_all
  qed
  show ?thesis
  proof (cases x)
    case CallConnect
    obtain r w' tr' where e: "execute (traced_host h) c (\<lambda>limit. silent (from_library (bus_connect b limit))) (w, tr) = (r, w', tr')"
      by (metis prod_cases3)
    have "forward clock (from_library (bus_connect b limit))" for limit using b by (simp add: bus_forward_def)
    from keep [OF execute_silent [OF this e]] e CallConnect show ?thesis
      by (simp add: s client_Connect_def)
  next
    case CallClose
    obtain r w' where e: "from_library (bus_close b) w = (r, w')" by fastforce
    have "forward clock (from_library (bus_close b))" using b by (simp add: bus_forward_def)
    then have "clock w \<le> clock w'" using e by (rule forwardD)
    with CallClose e keep show ?thesis by (simp add: s client_Close_def)
  next
    case (CallReadInput start count)
    with read [of "\<lambda>limit. from_library (bus_read_input b limit (word_of_int start) (word_of_int count))" bytesToRegisters] b
    show ?thesis by (simp add: s client_ReadInputRegisters_def bus_forward_def)
  next
    case (CallReadHolding start count)
    with read [of "\<lambda>limit. from_library (bus_read_holding b limit (word_of_int start) (word_of_int count))" bytesToRegisters] b
    show ?thesis by (simp add: s client_ReadHoldingRegisters_def bus_forward_def)
  next
    case (CallWrite start vals)
    obtain r c' w' tr' where e: "client_WriteRegisters (traced_host h) (traced_bus clock b) start
        (silent vals) (c, w, tr) = (r, c', w', tr')" by (metis prod_cases4)
    from call CallWrite have fwd: "forward clock vals" by simp
    from e have "spaced clock (c', w', tr')"
    proof (cases rule: client_WriteRegisters_cases)
      case (waiting x now w1)
      then obtain v1 where v1: "host_now h w = (now, v1)"
        "sleepContext h (wrap64 (registerWriteInterval - time_sub now (lastRegisterWrite c))) v1 = (Inl x, w')"
        and "tr' = tr"
        by (auto simp: sleepContext_traced split: prod.splits)
      then show ?thesis
        using timers_okD(2) [OF h v1(1)] sleepContext_clock [OF h v1(2)] waiting(5) keep by fastforce
    next
      case (valueless x w1)
      then obtain v1 where v1: "w1 = (v1, tr)" "clock w \<le> clock v1"
        using waited_traced [OF h valueless(1)] sp by (auto simp: s)
      with valueless forwardD [OF fwd] have "tr' = tr \<and> clock v1 \<le> clock w'"
        by (fastforce split: prod.splits)
      with v1 valueless keep show ?thesis by fastforce
    next
      case (requested w1 ws w2 w3 written)
      then obtain v1 where v1: "w1 = (v1, tr)" "clock w \<le> clock v1"
        "lastRegisterWrite c \<noteq> 0 \<longrightarrow> lastRegisterWrite c + registerWriteInterval \<le> clock v1"
        using waited_traced [OF h requested(5)] sp by (auto simp: s)
      with requested(1) forwardD [OF fwd] obtain v2 where v2: "w2 = (v2, tr)" "clock v1 \<le> clock v2"
        by (fastforce split: prod.splits)
      obtain v3 tr3 where w3: "w3 = (v3, tr3)" by (cases w3)
      have v3: "tr3 = tr @ [clock v2]" "clock v2 \<le> clock v3"
        using execute_stamped [of clock "write_request b start ws" h c v2 tr r v3 tr3]
          write_request_forward [OF b] requested(2)
        by (simp_all add: write_request_traced v2(1) w3)
      from requested(3) w3 have w4: "clock v3 \<le> written" "written \<le> clock w'" "tr' = tr3"
        using timers_okD(2) [OF h] by (auto split: prod.splits)
      have old: "apart tr" "\<forall>a \<in> set tr. 0 < lastRegisterWrite c \<and> a \<le> lastRegisterWrite c"
        "lastRegisterWrite c \<le> clock w"
        using sp by (simp_all add: s)
      have "a + registerWriteInterval \<le> clock v2" if "a \<in> set tr" for a
      proof -
        from old(2) that have "0 < lastRegisterWrite c" "a \<le> lastRegisterWrite c" by blast+
        with v1(3) v2(2) show ?thesis by linarith
      qed
      with old(1) v3(1) w4(3) have "apart tr'" by (simp add: apart_snoc)
      moreover have "a \<le> written \<and> 0 < written" if "a \<in> set tr'" for a
      proof (cases "a \<in> set tr")
        case True
        with old have "a \<le> clock w" by fastforce
        with v1(2) v2(2) v3(2) w4(1) timers_okD(1) [OF h, of v3] show ?thesis by linarith
      next
        case False
        with that v3 w4 timers_okD(1) [OF h, of v3] show ?thesis by auto
      qed
      ultimately show ?thesis
        using requested(4) w4 timers_okD(1) [OF h, of v3] by (auto intro: order_trans)
    qed
    with CallWrite e show ?thesis by (simp add: s)
  qed
qed

lemma client_calls_spaced:
  assumes "timers_ok h clock" and "bus_forward clock b" and "\<forall>x \<in> set xs. call_forward clock x"
    and "spaced clock s"
  shows "spaced clock (client_calls (traced_host h) (traced_bus clock b) (map traced_call xs) s)"
  using assms(3,4)
proof (induction xs arbitrary: s)
  case (Cons x xs)
  then show ?case using make_call_spaced [OF assms(1,2)] by (simp add: client_calls_def)
qed (simp add: client_calls_def)

text \<open>C1: whatever sequence of connects, closes, reads and
  writes a client makes from its creation, successful or not, the write requests it puts on
  the bus start at least 850 milliseconds after one another.\<close>

theorem writes_keep_their_distance:
  assumes "timers_ok h clock" and "bus_forward clock b" and "\<forall>x \<in> set xs. call_forward clock x"
    and "client_calls (traced_host h) (traced_bus clock b) (map traced_call xs)
      (NewModbusClient timeout, w, []) = (c', w', starts)"
  shows "sorted_wrt (\<lambda>a b. a + 850 * millisecond \<le> b) starts"
proof -
  have "spaced clock (NewModbusClient timeout, w, [])"
    using timers_okD(1) [OF assms(1), of w] by (simp add: NewModbusClient_def apart_def)
  from client_calls_spaced [OF assms(1-3) this] assms(4) show ?thesis
    by (simp add: apart_def registerWriteInterval_def)
qed

text \<open>A host and a bus whose world is the clock itself: every call takes a millisecond.\<close>

definition clock_host :: "gotime host" where
  "clock_host =
     \<lparr>host_now = \<lambda>w. (max 1 w, max 1 w), host_wait = \<lambda>d w. (None, max 1 w + max 0 d),
      ctx_err = \<lambda>_. None, host_zone = \<lambda>_ _. 0\<rparr>"

definition clock_bus :: "gotime bus" where
  "clock_bus =
     \<lparr>bus_connect = \<lambda>_ w. (Inr (), w + millisecond), bus_close = \<lambda>w. (Inr (), w),
      bus_read_input = \<lambda>_ _ count w. (Inr (replicate (2 * unat count) 0), w + millisecond),
      bus_read_holding = \<lambda>_ _ count w. (Inr (replicate (2 * unat count) 0), w + millisecond),
      bus_write_single = \<lambda>_ _ _ w. (Inr (), w + millisecond),
      bus_write_multiple = \<lambda>_ _ _ _ w. (Inl ''timeout'', w + millisecond)\<rparr>"

lemma clock_host_ok: "timers_ok clock_host (max 1)"
  by (auto simp: timers_ok_def clock_host_def)

lemma clock_bus_forward: "bus_forward (max 1) clock_bus"
  by (auto simp add: bus_forward_def forward_def clock_bus_def millisecond_def)

theorem writes_keep_their_distance_witness:
  "snd (snd (client_calls (traced_host clock_host) (traced_bus (max 1) clock_bus)
      (map traced_call [CallWrite 3 (\<lambda>w. (Inr [7], w)), CallWrite 45 (\<lambda>w. (Inr [1, 2], w)),
        CallWrite 4 (\<lambda>w. (Inr [8], w))])
      (NewModbusClient 1500000000, 5, []))) = [5, 851000005, 1702000005] \<and>
   sorted_wrt (\<lambda>a b. a + 850 * millisecond \<le> b) [5, 851000005, 1702000005]"
proof -
  let ?xs = "[CallWrite 3 (\<lambda>w. (Inr [7], w)), CallWrite 45 (\<lambda>w. (Inr [1, 2], w)),
      CallWrite 4 (\<lambda>w. (Inr [8], w))] :: gotime client_call list"
  have run: "client_calls (traced_host clock_host) (traced_bus (max 1) clock_bus) (map traced_call ?xs)
      (NewModbusClient 1500000000, 5, []) =
    (\<lparr>mc_timeout = 1500000000, lastRegisterWrite = 1703000005\<rparr>, 1703000005, [5, 851000005, 1702000005])"
    by code_simp
  moreover have "\<forall>x \<in> set ?xs. call_forward (max 1) x" by (simp add: forward_def)
  ultimately show ?thesis
    using writes_keep_their_distance [OF clock_host_ok clock_bus_forward _ run] by simp
qed

end
