(* ===== verification/Inverter.thy ===== *)
theory Inverter
  imports Modbus_Client
begin

text \<open>
  The inverter (\<open>src/inverter.go\<close>): reading a table in windows, writing one configuration
  key, setting the clock, and the check of written values against the next reading.
\<close>

section \<open>State\<close>

record pendingReadback =
  pr_start :: int
  pr_expected :: "u16 list"

text \<open>What the log says of a pending write when the configuration is read again.\<close>

datatype readback = Verified | NotVisible | Unverifiable

text \<open>
  The map of pending writes is an association list in the order the runtime ranges over it;
  a nil map and an empty one behave alike. \<open>readback_log\<close> collects the log lines of
  \<open>reconcilePendingReadback\<close>, the only effect it has.
\<close>

record inverter =
  client :: modbus_client
  pendingReadbacks :: "(string \<times> pendingReadback) list"
  readback_log :: "(string \<times> readback) list"

definition NewInverter :: "duration \<Rightarrow> inverter" where
  "NewInverter timeout =
     \<lparr>client = NewModbusClient timeout, pendingReadbacks = [], readback_log = []\<rparr>"

type_synonym 'w iw = "inverter \<times> 'w"

text \<open>A call on the inverter's client.\<close>

definition on_client :: "('w cw, 'a) io \<Rightarrow> ('w iw, 'a) io" where
  "on_client f s =
     (case s of (i, w) \<Rightarrow> case f (client i, w) of (r, c, w') \<Rightarrow> (r, i\<lparr>client := c\<rparr>, w'))"

definition inv_Connect :: "'w host \<Rightarrow> 'w bus \<Rightarrow> ('w iw, unit) io" where
  "inv_Connect h b = on_client (client_Connect h b)"

definition inv_Close :: "'w bus \<Rightarrow> ('w iw, unit) io" where
  "inv_Close b = on_client (client_Close b)"

section \<open>Reading\<close>

definition readRegisterWindow ::
    "(int \<Rightarrow> int \<Rightarrow> ('s, u16 list) io) \<Rightarrow> registerWindow \<Rightarrow> ('s, u16 list) io" where
  "readRegisterWindow reader win s =
     on_ok (reader (win_Start win) (win_Count win) s)
       (\<lambda>vals s'.
          if int (length vals) \<noteq> win_Count win
          then (Inl (EMsg (MReadCount (win_Count win) (win_Start win) (length vals))), s')
          else if win_Start win = 0 then (Inr vals, s')
          else (Inr (replicate (nat (win_Start win)) 0 @ vals), s'))"

text \<open>\<open>copy(dst[off:], src)\<close>: as many elements as both sides have.\<close>

definition copy_at :: "nat \<Rightarrow> 'a list \<Rightarrow> 'a list \<Rightarrow> 'a list" where
  "copy_at off src dst =
     take off dst @ take (length dst - off) src @ drop (off + length src) dst"

fun read_windows ::
    "(int \<Rightarrow> int \<Rightarrow> ('s, u16 list) io) \<Rightarrow> registerWindow list \<Rightarrow> u16 list \<Rightarrow> ('s, u16 list) io" where
  "read_windows reader [] registers s = (Inr registers, s)"
| "read_windows reader (win # wins) registers s =
     on_ok (reader (win_Start win) (win_Count win) s)
       (\<lambda>vals s'.
          if int (length vals) \<noteq> win_Count win
          then (Inl (EMsg (MReadCount (win_Count win) (win_Start win) (length vals))), s')
          else read_windows reader wins (copy_at (nat (win_Start win)) vals registers) s')"

definition readRegisterWindows ::
    "(int \<Rightarrow> int \<Rightarrow> ('s, u16 list) io) \<Rightarrow> registerWindow list \<Rightarrow> ('s, u16 list) io" where
  "readRegisterWindows reader wins s =
     (let maxEnd = foldl (\<lambda>m win. if win_Start win + win_Count win > m
            then win_Start win + win_Count win else m) 0 wins
      in read_windows reader wins (replicate (nat maxEnd) 0) s)"

definition inv_ReadStatus :: "f2i \<Rightarrow> 'w host \<Rightarrow> 'w bus \<Rightarrow> ('w iw, govalues) io" where
  "inv_ReadStatus oob h b s =
     on_ok (on_client (readRegisterWindow (client_ReadInputRegisters h b) (inputRegisterWindow oob)) s)
       (\<lambda>registers s'. (decodeRegisterTable registers (inputRegisters oob), s'))"

text \<open>The loop of \<open>equalRegisters\<close>, after its comparison of the lengths.\<close>

definition equalRegisters :: "u16 list \<Rightarrow> u16 list \<Rightarrow> bool" where
  "equalRegisters left right \<longleftrightarrow>
     length left = length right \<and> list_all (\<lambda>k. left ! k = right ! k) [0..<length left]"

lemma equalRegisters_iff: "equalRegisters left right \<longleftrightarrow> left = right"
  by (auto simp: equalRegisters_def list_all_iff intro: nth_equalityI)

definition reconcilePendingReadback :: "inverter \<Rightarrow> u16 list \<Rightarrow> inverter" where
  "reconcilePendingReadback i registers =
     i\<lparr>readback_log := readback_log i @ map (\<lambda>(key, p).
         (key,
          if pr_start p + int (length (pr_expected p)) > int (length registers) then Unverifiable
          else if equalRegisters (take (length (pr_expected p)) (drop (nat (pr_start p)) registers))
                    (pr_expected p)
          then Verified else NotVisible)) (pendingReadbacks i)\<rparr>"

text \<open>\<open>defer clear(i.pendingReadbacks)\<close> runs on every return.\<close>

definition inv_ReadConfig :: "f2i \<Rightarrow> 'w host \<Rightarrow> 'w bus \<Rightarrow> ('w iw, govalues) io" where
  "inv_ReadConfig oob h b s =
     (case on_ok (on_client (readRegisterWindows (client_ReadHoldingRegisters h b)
               (holdingRegisterWindows oob)) s)
             (\<lambda>registers (i, w).
                case decodeRegisterTable registers (holdingRegisters oob) of
                  Inl e \<Rightarrow> (Inl e, i, w)
                | Inr info \<Rightarrow> (Inr info, reconcilePendingReadback i registers, w)) of
        (r, i, w) \<Rightarrow> (r, i\<lparr>pendingReadbacks := []\<rparr>, w))"

section \<open>Writing\<close>

text \<open>The checks and the encoding before the bus is used: lines 238 to 252.\<close>

definition prepare_write :: "f2i \<Rightarrow> string \<Rightarrow> goval \<Rightarrow> err + registerDef \<times> u16 list" where
  "prepare_write oob key v =
     (case holdingByKey oob key of
        None \<Rightarrow> Inl (ECommand (EMsg (MInvalidKey key)))
      | Some d \<Rightarrow>
          (case reg_Write d of
             None \<Rightarrow> Inl (ECommand (EMsg (MNotWriteable key)))
           | Some wr \<Rightarrow>
               (case wr v of
                  Inl e \<Rightarrow> Inl (ECommand (EWrap (''invalid value for '' @ key) e))
                | Inr processed \<Rightarrow>
                    (case encodeRawValue oob processed d of
                       Inl e \<Rightarrow> Inl (ECommand (EWrap (''invalid value for '' @ key) e))
                     | Inr vals \<Rightarrow> Inr (d, vals)))))"

text \<open>The value reported after a write: lines 265 to 276.\<close>

definition acknowledge :: "string \<Rightarrow> registerDef \<Rightarrow> u16 list \<Rightarrow> err + goval" where
  "acknowledge key d vals =
     (case decodeRegisterValue vals (reg [] 0 (reg_Length d) (reg_Type d) identity None) of
        Inl e \<Rightarrow> Inl (EWrap (''decode written register '' @ key) e)
      | Inr raw \<Rightarrow>
          (case reg_Read d raw of
             Inl e \<Rightarrow> Inl (EWrap (''decode written value '' @ key) e)
           | Inr v \<Rightarrow> Inr v))"

definition note_pending :: "string \<Rightarrow> registerDef \<Rightarrow> u16 list \<Rightarrow> inverter \<Rightarrow> inverter" where
  "note_pending key d vals i =
     i\<lparr>pendingReadbacks := AList.update key
         \<lparr>pr_start = reg_Start d, pr_expected = vals\<rparr> (pendingReadbacks i)\<rparr>"

definition inv_WriteConfig ::
    "f2i \<Rightarrow> 'w host \<Rightarrow> 'w bus \<Rightarrow> string \<Rightarrow> goval \<Rightarrow> ('w iw, goval) io" where
  "inv_WriteConfig oob h b key v s =
     (case prepare_write oob key v of
        Inl e \<Rightarrow> (Inl e, s)
      | Inr (d, vals) \<Rightarrow>
          on_ok (on_client (client_WriteRegisters h b (reg_Start d) (\<lambda>w. (Inr vals, w))) s)
            (\<lambda>_ (i, w). (acknowledge key d vals, note_pending key d vals i, w)))"

section \<open>Setting the clock\<close>

definition clock_values :: "'w host \<Rightarrow> ('w, u16 list) io" where
  "clock_values h w =
     (case host_now h w of (now, w1) \<Rightarrow>
        let wait = second - nanosecond now
        in on_ok
             (if wait > 0 \<and> wait < second
              then on_ok (sleepContext h wait w1)
                (\<lambda>_ w2. case host_now h w2 of (t, w3) \<Rightarrow> (Inr t, w3))
              else (Inr now, w1))
             (\<lambda>t w'. (Inr (map word_of_int (civil (host_zone h w' t) t)), w')))"

definition inv_SyncTime :: "'w host \<Rightarrow> 'w bus \<Rightarrow> ('w iw, unit) io" where
  "inv_SyncTime h b = on_client (client_WriteRegisters h b 45 (clock_values h))"

section \<open>Reading a window\<close>

definition short_answer :: "err \<Rightarrow> bool" where
  "short_answer e \<longleftrightarrow> (\<exists>c s n. e = EMsg (MReadCount c s n))"

lemma readRegisterWindow_error:
  assumes "readRegisterWindow reader win s = (Inl e, s')"
  shows "(\<exists>start count s0. reader start count s0 = (Inl e, s')) \<or> short_answer e"
  using assms unfolding readRegisterWindow_def
  by (cases rule: on_ok_cases) (auto simp: short_answer_def split: if_splits)

lemma read_windows_error:
  assumes "read_windows reader wins registers s = (Inl e, s')"
  shows "(\<exists>start count s0. reader start count s0 = (Inl e, s')) \<or> short_answer e"
  using assms
proof (induction wins arbitrary: registers s)
  case (Cons win wins)
  from Cons.prems show ?case
    unfolding read_windows.simps
  proof (cases rule: on_ok_cases)
    case (passed vals s1)
    then show ?thesis using Cons.IH by (auto simp: short_answer_def split: if_splits)
  qed blast
qed simp

lemma length_copy_at [simp]:
  "off + length src \<le> length dst \<Longrightarrow> length (copy_at off src dst) = length dst"
  by (simp add: copy_at_def)

lemma length_read_windows:
  assumes "read_windows reader wins registers s = (Inr res, s')"
    and "\<forall>win \<in> set wins. 0 \<le> win_Start win \<and> win_Start win + win_Count win \<le> int (length registers)"
  shows "length res = length registers"
  using assms
proof (induction wins arbitrary: registers s)
  case (Cons win wins)
  from Cons.prems(1) obtain vals s1 where "int (length vals) = win_Count win"
    and rest: "read_windows reader wins (copy_at (nat (win_Start win)) vals registers) s1 = (Inr res, s')"
    unfolding read_windows.simps by (cases rule: on_ok_cases) (auto split: if_splits)
  with Cons.prems(2) have len: "length (copy_at (nat (win_Start win)) vals registers) = length registers"
    by auto
  with Cons.IH [OF rest] Cons.prems(2) show ?case by simp
qed simp

lemma on_client_Inl: "on_client f s = (Inl e, s') \<Longrightarrow> \<exists>c c'. f c = (Inl e, c')"
  by (auto simp: on_client_def split: prod.splits)

lemma on_client_Inr:
  "on_client f (i, w) = (Inr a, i', w') \<longleftrightarrow>
   (\<exists>c. f (client i, w) = (Inr a, c, w') \<and> i' = i\<lparr>client := c\<rparr>)"
  by (auto simp: on_client_def split: prod.splits)

text \<open>The buffers the two tables are decoded from are as long as the tables need.\<close>

lemma status_buffer:
  assumes "readRegisterWindow reader (inputRegisterWindow oob) s = (Inr registers, s')"
  shows "length registers = 89"
  using assms unfolding readRegisterWindow_def inputRegisterWindow_eq
  by (cases rule: on_ok_cases) (auto split: if_splits)

lemma config_buffer_reading:
  "readRegisterWindows reader (holdingRegisterWindows oob) s =
   read_windows reader [window 0 45, window 45 45, window 90 18] (replicate 108 0) s"
  by (simp add: readRegisterWindows_def holdingRegisterWindows_eq del: read_windows.simps)

lemma config_buffer:
  assumes "readRegisterWindows reader (holdingRegisterWindows oob) s = (Inr registers, s')"
  shows "length registers = 108"
  using length_read_windows [OF assms [unfolded config_buffer_reading]] by simp

section \<open>What can go wrong in a reading\<close>

text \<open>The errors of a reading: the bus, a short answer, or an enumeration.\<close>

definition unlisted_number :: "err \<Rightarrow> bool" where
  "unlisted_number e \<longleftrightarrow> (\<exists>k n. e = EWrap (''decode register '' @ k) (EMsg (MUnknownEnumNumber n)))"

lemma reading_error_kind:
  "short_answer e \<or> unlisted_number e \<Longrightarrow> \<not> isFatalModbus e \<and> \<not> isCommandError e"
  by (auto simp: short_answer_def unlisted_number_def)

lemma decode_status_Inr:
  assumes "length registers = 89"
  shows "\<exists>info. decodeRegisterTable registers (inputRegisters oob) = Inr info \<and>
    decoded_from registers (inputRegisters oob) info"
proof -
  have "list_all (\<lambda>d. \<exists>v. decode_row registers d = Inr v) (inputRegisters oob)"
    using input_rows_bounds [of oob] input_reads_total [of oob] assms
      decode_row_total [of 89 _ registers]
    by (auto simp: list_all_iff)
  then obtain info where info: "decodeRegisterTable registers (inputRegisters oob) = Inr info"
    using decode_rows_total unfolding decodeRegisterTable_def by blast
  then show ?thesis using decodeRegisterTable_Inr [OF _ input_keys_distinct] by blast
qed

lemma decode_config_Inl:
  assumes "length registers = 108" and "decodeRegisterTable registers (holdingRegisters oob) = Inl e"
  shows "unlisted_number e"
proof -
  obtain d x where d: "d \<in> set (holdingRegisters oob)" and x: "decode_row registers d = Inl x"
    and e: "e = EWrap (''decode register '' @ reg_Key d) x"
    using assms(2) decode_rows_Inl unfolding decodeRegisterTable_def by blast
  moreover from d have "row_bounds_ok 108 d" and "read_enum d"
    using holding_rows_bounds holding_reads_enum by (auto simp: list_all_iff)
  then obtain n where "x = EMsg (MUnknownEnumNumber n)"
    using decode_row_enum [of 108 d registers x] x assms(1) by auto
  with e show ?thesis by (auto simp: unlisted_number_def)
qed

lemma reading_error:
  assumes "on_client f s = (Inl e, s')"
    and "\<And>c c'. f c = (Inl e, c') \<Longrightarrow> P e"
  shows "P e"
  using on_client_Inl [OF assms(1)] assms(2) by blast

lemma status_reading_error:
  assumes "on_client (readRegisterWindow (client_ReadInputRegisters h b) win) s = (Inl e, s')"
  shows "bus_error e \<or> short_answer e"
proof (rule reading_error [OF assms])
  fix c c' assume "readRegisterWindow (client_ReadInputRegisters h b) win c = (Inl e, c')"
  from readRegisterWindow_error [OF this] show "bus_error e \<or> short_answer e"
    using client_errors(3) by blast
qed

lemma config_reading_error:
  assumes "on_client (readRegisterWindows (client_ReadHoldingRegisters h b) wins) s = (Inl e, s')"
  shows "bus_error e \<or> short_answer e"
proof (rule reading_error [OF assms])
  fix c c' assume "readRegisterWindows (client_ReadHoldingRegisters h b) wins c = (Inl e, c')"
  then have "read_windows (client_ReadHoldingRegisters h b) wins (replicate (nat (foldl (\<lambda>m win.
      if win_Start win + win_Count win > m then win_Start win + win_Count win else m) 0 wins)) 0) c = (Inl e, c')"
    by (simp add: readRegisterWindows_def)
  from read_windows_error [OF this] show "bus_error e \<or> short_answer e"
    using client_errors(4) by blast
qed

lemma ReadStatus_cases:
  assumes "inv_ReadStatus oob h b s = (r, s')"
  obtains (failed) e where "r = Inl e" "bus_error e \<or> short_answer e"
  | (read) registers info where "r = Inr info" "length registers = 89"
      "decoded_from registers (inputRegisters oob) info"
  using assms unfolding inv_ReadStatus_def
proof (cases rule: on_ok_cases)
  case (failed e)
  then show thesis using that(1) status_reading_error by blast
next
  case (passed registers s1)
  obtain i w i1 w1 where s: "s = (i, w)" "s1 = (i1, w1)" by (cases s; cases s1) auto
  obtain c where "readRegisterWindow (client_ReadInputRegisters h b) (inputRegisterWindow oob) (client i, w) =
      (Inr registers, c, w1)"
    using passed(1) unfolding s on_client_Inr by blast
  then have len: "length registers = 89" by (rule status_buffer)
  with decode_status_Inr [OF this, of oob] passed(2) show thesis using that(2) by auto
qed

text \<open>A reading of the configuration before its deferred cleanup.\<close>

lemma ReadConfig_cases:
  assumes "inv_ReadConfig oob h b s = (r, i', w')"
  obtains (failed) e where "r = Inl e" "bus_error e \<or> short_answer e \<or> unlisted_number e"
      "pendingReadbacks i' = []"
  | (read) registers info i1 where "r = Inr info" "length registers = 108"
      "on_client (readRegisterWindows (client_ReadHoldingRegisters h b) (holdingRegisterWindows oob)) s =
        (Inr registers, i1, w')"
      "decoded_from registers (holdingRegisters oob) info"
      "i' = (reconcilePendingReadback i1 registers)\<lparr>pendingReadbacks := []\<rparr>"
proof -
  let ?read = "on_client (readRegisterWindows (client_ReadHoldingRegisters h b) (holdingRegisterWindows oob)) s"
  obtain q i1 w1 where q: "?read = (q, i1, w1)" by (metis prod_cases3)
  show thesis
  proof (cases q)
    case (Inl e)
    with q config_reading_error have "bus_error e \<or> short_answer e" by blast
    moreover have "r = Inl e" "i' = i1\<lparr>pendingReadbacks := []\<rparr>"
      using assms by (simp_all add: inv_ReadConfig_def q Inl)
    ultimately show thesis by (intro failed [of e]) auto
  next
    case (Inr registers)
    obtain i w where s: "s = (i, w)" by (cases s)
    obtain c where "readRegisterWindows (client_ReadHoldingRegisters h b) (holdingRegisterWindows oob)
        (client i, w) = (Inr registers, c, w1)"
      using q [unfolded Inr s on_client_Inr] by blast
    then have len: "length registers = 108" by (rule config_buffer)
    show thesis
    proof (cases "decodeRegisterTable registers (holdingRegisters oob)")
      case err: (Inl e)
      have "r = Inl e" "i' = i1\<lparr>pendingReadbacks := []\<rparr>"
        using assms by (simp_all add: inv_ReadConfig_def q Inr err)
      with decode_config_Inl [OF len err] show thesis by (intro failed [of e]) auto
    next
      case info: (Inr info)
      have "r = Inr info" "w' = w1" "i' = (reconcilePendingReadback i1 registers)\<lparr>pendingReadbacks := []\<rparr>"
        using assms by (simp_all add: inv_ReadConfig_def q Inr info)
      with read len q Inr decodeRegisterTable_Inr [OF info holding_keys_distinct] show thesis by simp
    qed
  qed
qed

section \<open>What can go wrong in a write\<close>

lemma prepare_write_error: "prepare_write oob key v = Inl e \<Longrightarrow> \<exists>x. e = ECommand x"
  by (auto simp: prepare_write_def split: option.splits sum.splits)

text \<open>The transforms and the encoder fail with messages of their own only.\<close>

lemma parseFloat_error: "parseFloat s = Inl e \<Longrightarrow> \<exists>m. e = EMsg m"
  by (auto simp: parseFloat_def split: option.splits if_splits)

lemma floatAsInt64_error: "floatAsInt64 oob v = Inl e \<Longrightarrow> \<exists>m. e = EMsg m"
  by (auto simp: floatAsInt64_def Let_def split: if_splits)

lemma asInt64_error: "asInt64 oob v = Inl e \<Longrightarrow> \<exists>m. e = EMsg m"
  by (cases v) (auto simp: and_then_eq_Inl dest: parseFloat_error floatAsInt64_error)

lemma parseBool_error: "parseBool v = Inl e \<Longrightarrow> \<exists>m. e = EMsg m"
  by (cases v) (auto simp: Let_def split: if_splits)

lemma transform_errors:
  "boolWrite v = Inl e \<Longrightarrow> \<exists>m. e = EMsg m"
  "overTempWrite v = Inl e \<Longrightarrow> \<exists>m. e = EMsg m"
  "stringWrite v = Inl e \<Longrightarrow> \<exists>m. e = EMsg m"
  "enumWrite vals v = Inl e \<Longrightarrow> \<exists>m. e = EMsg m"
  "scaleWrite oob f v = Inl e \<Longrightarrow> \<exists>m. e = EMsg m"
  "intWrite oob v = Inl e \<Longrightarrow> \<exists>m. e = EMsg m"
  by (auto simp: boolWrite_def overTempWrite_def stringWrite_def enumWrite_def scaleWrite_def intWrite_def
      and_then_eq_Inl dest: parseBool_error asInt64_error
      split: goval.splits sum.splits option.splits if_splits)

definition write_plain :: "registerDef \<Rightarrow> bool" where
  "write_plain d \<longleftrightarrow> (\<forall>wr v e. reg_Write d = Some wr \<longrightarrow> wr v = Inl e \<longrightarrow> (\<exists>m. e = EMsg m))"

lemma holding_writes_plain: "list_all write_plain (holdingRegisters oob)"
  by (simp add: holdingRegisters_def write_plain_def transform_errors)

lemma encodeRawValue_error: "encodeRawValue oob v d = Inl e \<Longrightarrow> \<exists>m. e = EMsg m"
  by (auto simp: encodeRawValue_def Let_def guard_err_def and_then_eq_Inl
      dest: asInt64_error floatAsInt64_error parseFloat_error
      split: goval.splits if_splits)

lemma prepare_write_not_fatal:
  assumes "prepare_write oob key v = Inl e"
  shows "\<not> isFatalModbus e"
proof -
  have "write_plain d" if "holdingByKey oob key = Some d" for d
    using that holding_writes_plain [of oob] by (simp add: holdingByKey_mem list_all_iff)
  with assms show ?thesis
    by (fastforce simp: prepare_write_def write_plain_def dest: encodeRawValue_error
        split: option.splits sum.splits)
qed

text \<open>A prepared write belongs to a writable row whose write transform took the value.\<close>

lemma prepare_write_Inr:
  assumes "prepare_write oob key v = Inr (d, vals)"
  obtains wr p where "d \<in> set (holdingRegisters oob)" "reg_Key d = key" "reg_Write d = Some wr"
    "wr v = Inr p" "encodeRawValue oob p d = Inr vals" "row_writable_ok d" "row_bounds_ok 108 d"
proof -
  obtain wr p where d: "holdingByKey oob key = Some d" and *: "reg_Write d = Some wr"
    "wr v = Inr p" "encodeRawValue oob p d = Inr vals"
    using assms by (auto simp: prepare_write_def split: option.splits sum.splits)
  moreover from d have mem: "d \<in> set (holdingRegisters oob)" "reg_Key d = key"
    by (simp_all add: holdingByKey_mem)
  moreover from mem(1) have "row_writable_ok d" "row_bounds_ok 108 d"
    using holding_rows_writable holding_rows_bounds by (auto simp: list_all_iff)
  ultimately show thesis using that by blast
qed

lemma decodeRegisterValue_row:
  "decodeRegisterValue ws (reg k 0 (reg_Length d) (reg_Type d) f g) =
   decodeRegisterValue ws (d\<lparr>reg_Start := 0\<rparr>)"
  by (cases "reg_Type d") (simp_all add: decodeRegisterValue_def Let_def)

lemmas acknowledge_row = acknowledge_def [unfolded decodeRegisterValue_row]

text \<open>
  The words of a prepared write, read back: they decode to the number the transform gave,
  and the row's read transform takes it.
\<close>

lemma prepared_word:
  assumes "prepare_write oob key v = Inr (d, vals)" and "goval_ok v" and "reg_Type d = RegisterUint"
  obtains wr n where "reg_Write d = Some wr" "wr v = Inr (GInt64 n)" "0 \<le> n" "n < 2 ^ 16"
    "length vals = 1" "encodeRawValue oob (GInt64 n) d = Inr vals"
    "decodeRegisterValue vals (d\<lparr>reg_Start := 0\<rparr>) = Inr (raw_int n)" "transform_pair (reg_Read d) wr"
    "reg_Length d = 1"
proof -
  obtain wr p where wr: "reg_Write d = Some wr" "wr v = Inr p" and enc: "encodeRawValue oob p d = Inr vals"
    and ok: "row_writable_ok d"
    using assms(1) by (rule prepare_write_Inr)
  from wr ok assms(3) have len: "reg_Length d = 1" and pair: "transform_pair (reg_Read d) wr"
    by (auto simp: row_writable_ok_def)
  obtain n where p: "p = GInt64 n" using transform_pair.wr_int [OF pair wr(2)] by blast
  have n: "in_int64 n" using transform_pair.wr_range [OF pair] wr(2) p assms(2) by blast
  have num: "1 \<le> reg_Length d" "reg_Length d \<le> 4" "numeric_type (reg_Type d)"
    using len assms(3) by (simp_all add: numeric_type_def)
  from enc p have e: "encodeRawValue oob (GInt64 n) d = Inr vals" by simp
  from e encode_numeric [OF n num] have "register_range d n" "vals = split_words 1 (word_of_int n)"
    by (simp_all add: len split: if_splits)
  then have "0 \<le> n" "n < 2 ^ 16" "length vals = 1"
    using assms(3) len by (simp_all add: register_range_def)
  with that wr p e pair len decode_encode_numeric [OF n num e] show thesis by simp
qed

text \<open>What is acknowledged after any prepared write, and its way back.\<close>

lemma acknowledge_Inr:
  assumes "prepare_write oob key v = Inr (d, vals)" and "goval_ok v"
  shows "\<exists>a. acknowledge key d vals = Inr a \<and> length vals = nat (reg_Length d) \<and>
    (reg_Type d = RegisterUint \<longrightarrow>
      (\<forall>ws. prepare_write oob key a = Inr (d, ws) \<longrightarrow> ws = vals))"
proof (cases "reg_Type d = RegisterUint")
  case True
  with assms obtain wr n where wr: "reg_Write d = Some wr" "wr v = Inr (GInt64 n)" "0 \<le> n" "n < 2 ^ 16"
    and len: "length vals = 1" "reg_Length d = 1" and enc: "encodeRawValue oob (GInt64 n) d = Inr vals"
    and dec: "decodeRegisterValue vals (d\<lparr>reg_Start := 0\<rparr>) = Inr (raw_int n)"
    and pair: "transform_pair (reg_Read d) wr"
    by (rule prepared_word)
  obtain a where a: "reg_Read d (raw_int n) = Inr a"
    and inverse: "\<And>p. wr a = Inr p \<Longrightarrow> p = GInt64 n"
    using transform_pair.acknowledged [OF pair wr(2) wr(3) wr(4)] by blast
  have "ws = vals" if prep: "prepare_write oob key a = Inr (d, ws)" for ws
  proof -
    obtain wr' p where "reg_Write d = Some wr'" "wr' a = Inr p" "encodeRawValue oob p d = Inr ws"
      using prep by (rule prepare_write_Inr)
    with wr(1) inverse enc show ?thesis by simp
  qed
  with a dec len show ?thesis by (simp add: acknowledge_row)
next
  case False
  obtain wr p where wr: "reg_Write d = Some wr" "wr v = Inr p" and enc: "encodeRawValue oob p d = Inr vals"
    and ok: "row_writable_ok d"
    using assms(1) by (rule prepare_write_Inr)
  from wr ok False have ch: "reg_Type d = RegisterChar" "reg_Length d = 5" "reg_Read d = identity"
    and "wr = stringWrite"
    by (auto simp: row_writable_ok_def)
  with wr(2) obtain t where "p = GString t" by (auto simp: stringWrite_def split: goval.splits)
  with enc text_roundtrip_strip [of d oob t vals] ch show ?thesis
    by (simp add: acknowledge_row identity_def)
qed

lemma acknowledge_not_command:
  assumes "prepare_write oob key v = Inr (d, vals)" and "acknowledge key d vals = Inl e"
  shows "\<not> isCommandError e \<and> \<not> isFatalModbus e"
proof -
  obtain wr p where wr: "reg_Write d = Some wr" "wr v = Inr p" and enc: "encodeRawValue oob p d = Inr vals"
    and d: "d \<in> set (holdingRegisters oob)" and bd: "row_bounds_ok 108 d"
    using assms(1) by (rule prepare_write_Inr)
  from d have "read_enum d" using holding_reads_enum by (auto simp: list_all_iff)
  have raw: "raw_isText raw \<longleftrightarrow> reg_Type d = RegisterChar"
    if "decodeRegisterValue vals (d\<lparr>reg_Start := 0\<rparr>) = Inr raw" for raw
    using that bd by (auto simp: decodeRegisterValue_def row_bounds_ok_def Let_def raw_int_def raw_string_def
        split: if_splits)
  have dec: "\<exists>m. x = EMsg m" if "decodeRegisterValue vals (d\<lparr>reg_Start := 0\<rparr>) = Inl x" for x
    using that by (auto simp: decodeRegisterValue_def Let_def split: if_splits registerType.splits)
  show ?thesis
    using assms(2) \<open>read_enum d\<close> dec
    by (auto simp: acknowledge_row read_enum_def dest: raw split: sum.splits)
qed

end
