(* ===== verification/Inverter_Contract.thy ===== *)
theory Inverter_Contract
  imports Inverter
begin

text \<open>
  What the rest of the program relies on of an inverter: the contract of the interface
  \<open>inverterDataSource\<close> (\<open>src/polling.go\<close>, lines 19 to 24) as a locale, met by the inverter of
  \<open>src/inverter.go\<close>; the fate of one write; and a device whose registers are memory.
\<close>

section \<open>The contract of a data source\<close>

text \<open>
  A configuration command is refused on its key and value alone: \<open>rejects\<close> is the error of
  the refusal. A refusal is a command error, leaves everything as it was and is no reason to
  recover; no other error is a command error.
\<close>

locale data_source =
  fixes readStatus :: "('s, govalues) io"
    and readConfig :: "('s, govalues) io"
    and writeConfig :: "string \<Rightarrow> goval \<Rightarrow> ('s, goval) io"
    and syncTime :: "('s, unit) io"
    and rejects :: "string \<Rightarrow> goval \<Rightarrow> err option"
  assumes rejected: "rejects key v = Some e \<Longrightarrow> writeConfig key v s = (Inl e, s)"
    and rejection: "rejects key v = Some e \<Longrightarrow> isCommandError e \<and> \<not> isFatalModbus e"
    and accepted: "rejects key v = None \<Longrightarrow> writeConfig key v s = (Inl e, s') \<Longrightarrow> \<not> isCommandError e"
    and reading: "readStatus s = (Inl e, s') \<or> readConfig s = (Inl e, s') \<Longrightarrow> \<not> isCommandError e"
    and syncing: "syncTime s = (Inl e, s') \<Longrightarrow> \<not> isCommandError e"
begin

lemma command_error_iff:
  assumes "writeConfig key v s = (Inl e, s')"
  shows "isCommandError e \<longleftrightarrow> rejects key v = Some e"
  using assms rejected [of key v _ s] rejection accepted by (cases "rejects key v") fastforce+

lemma command_error_unchanged:
  "writeConfig key v s = (Inl e, s') \<Longrightarrow> isCommandError e \<Longrightarrow> s' = s \<and> \<not> isFatalModbus e"
  using command_error_iff rejected [of key v e s] rejection by fastforce

text \<open>The verdict on a command does not depend on the state it meets.\<close>

lemma command_error_anywhere:
  "writeConfig key v s = (Inl e, s') \<Longrightarrow> isCommandError e \<Longrightarrow> writeConfig key v t = (Inl e, t)"
  using command_error_iff rejected by metis

end

text \<open>The interface \<open>inverterConnection\<close> (\<open>src/recovery.go\<close>, lines 15 to 19) embeds it.\<close>

locale inverter_connection =
  data_source readStatus readConfig writeConfig syncTime rejects
  for readStatus :: "('s, govalues) io" and readConfig writeConfig syncTime rejects +
  fixes connect :: "('s, unit) io" and close :: "('s, unit) io"
  assumes connecting: "connect s = (Inl e, s') \<Longrightarrow> \<not> isCommandError e"

section \<open>The inverter meets it\<close>

definition rejection_of :: "f2i \<Rightarrow> string \<Rightarrow> goval \<Rightarrow> err option" where
  "rejection_of oob key v = (case prepare_write oob key v of Inl e \<Rightarrow> Some e | Inr _ \<Rightarrow> None)"

lemma WriteConfig_cases:
  assumes "inv_WriteConfig oob h b key v s = (r, s')"
  obtains (refused) e where "prepare_write oob key v = Inl e" "r = Inl e" "s' = s"
  | (unsent) d vals e where "prepare_write oob key v = Inr (d, vals)" "r = Inl e" "bus_error e"
      "on_client (client_WriteRegisters h b (reg_Start d) (\<lambda>w. (Inr vals, w))) s = (Inl e, s')"
  | (sent) d vals i w where "prepare_write oob key v = Inr (d, vals)" "r = acknowledge key d vals"
      "on_client (client_WriteRegisters h b (reg_Start d) (\<lambda>w. (Inr vals, w))) s = (Inr (), i, w)"
      "s' = (note_pending key d vals i, w)"
proof (cases "prepare_write oob key v")
  case (Inl e)
  with assms refused show thesis by (simp add: inv_WriteConfig_def)
next
  case (Inr dv)
  obtain d vals where dv: "dv = (d, vals)" by (cases dv)
  with assms Inr have "on_ok (on_client (client_WriteRegisters h b (reg_Start d) (\<lambda>w. (Inr vals, w))) s)
      (\<lambda>_ (i, w). (acknowledge key d vals, note_pending key d vals i, w)) = (r, s')"
    by (simp add: inv_WriteConfig_def)
  then show thesis
  proof (cases rule: on_ok_cases)
    case (failed e)
    from on_client_Inl [OF failed(1)] obtain c c' where
      "client_WriteRegisters h b (reg_Start d) (\<lambda>w. (Inr vals, w)) c = (Inl e, c')" by blast
    then have "bus_error e" by (rule client_WriteRegisters_error) auto
    with failed Inr dv unsent show thesis by blast
  next
    case (passed u s1)
    then show thesis using sent Inr dv by (cases s1) auto
  qed
qed

lemma SyncTime_error:
  assumes "inv_SyncTime h b s = (Inl e, s')"
  shows "bus_error e"
proof -
  obtain c c' where "client_WriteRegisters h b 45 (clock_values h) c = (Inl e, c')"
    using assms on_client_Inl unfolding inv_SyncTime_def by blast
  moreover have "bus_error x" if "clock_values h w = (Inl x, w')" for w x w'
    using that by (auto simp: clock_values_def Let_def dest!: sleepContext_error elim!: on_ok_cases
        split: prod.splits if_splits)
  ultimately show ?thesis by (rule client_WriteRegisters_error) simp_all
qed

interpretation inv: inverter_connection
  "inv_ReadStatus oob h b" "inv_ReadConfig oob h b" "inv_WriteConfig oob h b" "inv_SyncTime h b"
  "rejection_of oob" "inv_Connect h b" "inv_Close b"
  for oob h b
proof
  fix key v e and s :: "'a iw"
  assume "rejection_of oob key v = Some e"
  then have e: "prepare_write oob key v = Inl e"
    by (auto simp: rejection_of_def split: sum.splits)
  then show "inv_WriteConfig oob h b key v s = (Inl e, s)"
    by (simp add: inv_WriteConfig_def)
next
  fix key v e
  assume "rejection_of oob key v = Some e"
  then have e: "prepare_write oob key v = Inl e"
    by (auto simp: rejection_of_def split: sum.splits)
  then show "isCommandError e \<and> \<not> isFatalModbus e"
    using prepare_write_not_fatal prepare_write_error [OF e] by auto
next
  fix key v e and s s' :: "'a iw"
  assume n: "rejection_of oob key v = None" and w: "inv_WriteConfig oob h b key v s = (Inl e, s')"
  from w show "\<not> isCommandError e"
  proof (cases rule: WriteConfig_cases)
    case refused
    with n show ?thesis by (simp add: rejection_of_def)
  next
    case unsent
    then show ?thesis using bus_error_kind by auto
  next
    case sent
    then show ?thesis using acknowledge_not_command by fastforce
  qed
next
  fix e and s s' :: "'a iw"
  assume "inv_ReadStatus oob h b s = (Inl e, s') \<or> inv_ReadConfig oob h b s = (Inl e, s')"
  then show "\<not> isCommandError e"
    using bus_error_kind(1) reading_error_kind
    by (cases s') (auto elim!: ReadStatus_cases ReadConfig_cases)
next
  fix e and s s' :: "'a iw"
  assume "inv_SyncTime h b s = (Inl e, s')"
  then show "\<not> isCommandError e" using SyncTime_error bus_error_kind(1) by blast
next
  fix e and s s' :: "'a iw"
  assume "inv_Connect h b s = (Inl e, s')"
  then show "\<not> isCommandError e"
    using on_client_Inl client_errors(1) bus_error_kind(1) unfolding inv_Connect_def by blast
qed

section \<open>A device whose holding registers are memory\<close>

text \<open>
  \<open>mem w a\<close> is holding register \<open>a\<close> of the device in world \<open>w\<close>: a reading that succeeds
  returns it and changes nothing, a write that succeeds stores what was sent, and the calls
  on the host leave it alone.
\<close>

definition holds_memory :: "'w host \<Rightarrow> 'w bus \<Rightarrow> ('w \<Rightarrow> nat \<Rightarrow> u16) \<Rightarrow> bool" where
  "holds_memory h b mem \<longleftrightarrow>
     (\<forall>limit start count w data w'. bus_read_holding b limit start count w = (Inr data, w') \<longrightarrow>
        data = registersToBytes (map (mem w) [unat start..<unat start + unat count]) \<and> mem w' = mem w) \<and>
     (\<forall>limit start v w w'. bus_write_single b limit start v w = (Inr (), w') \<longrightarrow>
        mem w' = (mem w)(unat start := v)) \<and>
     (\<forall>limit start count data w w'. bus_write_multiple b limit start count data w = (Inr (), w') \<longrightarrow>
        mem w' = (\<lambda>a. if unat start \<le> a \<and> a < unat start + unat count
          then bytesToRegisters data ! (a - unat start) else mem w a)) \<and>
     (\<forall>w. mem (snd (host_now h w)) = mem w) \<and> (\<forall>d w. mem (snd (host_wait h d w)) = mem w)"

lemma holds_memoryD:
  assumes "holds_memory h b mem"
  shows "bus_read_holding b limit start count w = (Inr data, w') \<Longrightarrow>
      data = registersToBytes (map (mem w) [unat start..<unat start + unat count]) \<and> mem w' = mem w"
    and "bus_write_single b limit start v w = (Inr (), w') \<Longrightarrow> mem w' = (mem w)(unat start := v)"
    and "bus_write_multiple b limit start count data w = (Inr (), w') \<Longrightarrow>
      mem w' = (\<lambda>a. if unat start \<le> a \<and> a < unat start + unat count
        then bytesToRegisters data ! (a - unat start) else mem w a)"
    and "host_now h w = (t, w') \<Longrightarrow> mem w' = mem w"
    and "host_wait h d w = (r, w') \<Longrightarrow> mem w' = mem w"
  using assms unfolding holds_memory_def by (blast, blast, blast, metis snd_conv, metis snd_conv)

lemma unat_of_int16:
  assumes "0 \<le> k" and "k < 2 ^ 16"
  shows "unat (word_of_int k :: u16) = nat k"
proof -
  have "uint (word_of_int k :: u16) = k mod 2 ^ 16" by (simp only: uint_word_of_int) simp
  also have "\<dots> = k" using assms by simp
  finally show ?thesis by (metis nat_uint_eq)
qed

lemma read_memory:
  assumes "holds_memory h b mem" and "client_ReadHoldingRegisters h b start count (c, w) = (Inr vals, c', w')"
    and "0 \<le> start" "start < 2 ^ 16" "0 \<le> count" "count < 2 ^ 16"
  shows "vals = map (mem w) [nat start..<nat start + nat count] \<and> mem w' = mem w \<and> c' = c"
proof -
  let ?op = "\<lambda>limit. from_library (bus_read_holding b limit (word_of_int start) (word_of_int count))"
  obtain r w1 where e: "execute h c ?op w = (r, w1)" by fastforce
  have "on_ok (r, c, w1) (\<lambda>result s'. (Inr (bytesToRegisters result), s')) = (Inr vals, c', w')"
    using assms(2) by (simp add: client_ReadHoldingRegisters_def e)
  then obtain data where r: "r = Inr data" and vals: "vals = bytesToRegisters data" "c' = c" "w' = w1"
    by (cases r) simp_all
  with e have "?op (mc_timeout c) w = (Inr data, w1)" by (simp only: execute_Inr)
  then have "bus_read_holding b (mc_timeout c) (word_of_int start) (word_of_int count) w = (Inr data, w1)"
    by (simp only: from_library_Inr)
  from holds_memoryD(1) [OF assms(1) this] show ?thesis
    using assms(3-6) vals by (simp add: unat_of_int16 bytesToRegisters_registersToBytes)
qed

text \<open>The three readings together are the first 108 registers.\<close>

lemma copy_at_prefix:
  "off = length a \<Longrightarrow> length b \<le> n \<Longrightarrow>
   copy_at off b (a @ replicate n 0) = (a @ b) @ replicate (n - length b) 0"
  by (simp add: copy_at_def)

lemma read_windows_memory:
  assumes "\<And>start count c w vals c' w'. reader start count (c, w) = (Inr vals, c', w') \<Longrightarrow>
      0 \<le> start \<Longrightarrow> start < 2 ^ 16 \<Longrightarrow> 0 \<le> count \<Longrightarrow> count < 2 ^ 16 \<Longrightarrow>
      vals = map (mem w) [nat start..<nat start + nat count] \<and> mem w' = mem w \<and> c' = c"
    and "read_windows reader wins (map (mem w) [0..<n] @ replicate m 0) (c, w) = (Inr registers, c', w')"
    and "tiles 45 (int n) (int n + int m - 1) wins" and "n + m < 2 ^ 16"
  shows "registers = map (mem w) [0..<n + m] \<and> mem w' = mem w"
  using assms(2-4)
proof (induction wins arbitrary: n m c w)
  case (Cons win wins)
  from Cons.prems(2) have win: "win_Start win = int n" "1 \<le> win_Count win" "win_Count win \<le> 45"
    and rest: "tiles 45 (int n + win_Count win) (int n + int m - 1) wins" by simp_all
  define k where "k = nat (win_Count win)"
  from rest have km: "int n + win_Count win \<le> int n + int m" using tiles_le [OF rest] by linarith
  with win have k: "win_Count win = int k" "k \<le> m" by (simp_all add: k_def)
  from Cons.prems(1) obtain vals c1 w1 where
    r: "reader (win_Start win) (win_Count win) (c, w) = (Inr vals, c1, w1)" and
    rd: "read_windows reader wins (copy_at (nat (win_Start win)) vals (map (mem w) [0..<n] @ replicate m 0)) (c1, w1) =
      (Inr registers, c', w')"
    unfolding read_windows.simps
  proof (cases rule: on_ok_cases)
    case (passed vals s1)
    obtain c1 w1 where s1: "s1 = (c1, w1)" by (cases s1)
    show thesis
    proof (cases "int (length vals) = win_Count win")
      case True
      show thesis by (rule that [of vals c1 w1]) (use passed True s1 in simp_all)
    next
      case False
      with passed(2) show thesis by simp
    qed
  qed simp
  have "n < 2 ^ 16" "k < 2 ^ 16" using k(2) Cons.prems(3) by linarith+
  then have "int n < 2 ^ 16" "int k < 2 ^ 16" by simp_all
  with assms(1) [OF r [unfolded win(1) k(1)]]
  have vals: "vals = map (mem w) [n..<n + k]" and w1: "mem w1 = mem w" by simp_all
  have "copy_at (nat (win_Start win)) vals (map (mem w) [0..<n] @ replicate m 0) =
      map (mem w1) [0..<n + k] @ replicate (m - k) 0"
    using k(2) upt_add_eq_append [of 0 n k] by (simp add: win(1) vals w1 copy_at_prefix)
  with rd have "read_windows reader wins (map (mem w1) [0..<n + k] @ replicate (m - k) 0) (c1, w1) = (Inr registers, c', w')"
    by simp
  from Cons.IH [OF this] have "registers = map (mem w1) [0..<n + k + (m - k)] \<and> mem w' = mem w1"
    using rest Cons.prems(3) k by (simp add: of_nat_diff algebra_simps)
  with k(2) w1 show ?case by simp
qed simp

lemma read_config_memory:
  assumes "holds_memory h b mem"
    and "on_client (readRegisterWindows (client_ReadHoldingRegisters h b) (holdingRegisterWindows oob)) (i, w) =
      (Inr registers, i', w')"
  shows "registers = map (mem w) [0..<108]"
proof -
  obtain c where "read_windows (client_ReadHoldingRegisters h b) [window 0 45, window 45 45, window 90 18]
      (replicate 108 0) (client i, w) = (Inr registers, c, w')"
    using assms(2) unfolding on_client_Inr config_buffer_reading by blast
  then have "read_windows (client_ReadHoldingRegisters h b) [window 0 45, window 45 45, window 90 18]
      (map (mem w) [0..<0] @ replicate 108 0) (client i, w) = (Inr registers, c, w')" by simp
  then have "registers = map (mem w) [0..<0 + 108] \<and> mem w' = mem w"
    by (rule read_windows_memory [rotated]) (use read_memory [OF assms(1)] in \<open>blast | simp\<close>)+
  then show ?thesis by simp
qed

lemma write_memory:
  assumes mem: "holds_memory h b mem"
    and "client_WriteRegisters h b start (\<lambda>w. (Inr vals, w)) (c, w) = (Inr (), c', w')"
    and "0 \<le> start" "start < 2 ^ 16" "length vals < 2 ^ 16"
  shows "mem w' = (\<lambda>a. if nat start \<le> a \<and> a < nat start + length vals
    then vals ! (a - nat start) else mem w a)"
  using assms(2)
proof (cases rule: client_WriteRegisters_cases)
  case (requested w1 ws w2 w3 written)
  have slept: "mem v' = mem v" if "sleepContext h d v = (r, v')" for d v r v'
    using that holds_memoryD(5) [OF mem] by (auto simp: sleepContext_def split: if_splits prod.splits option.splits)
  have "mem w1 = mem w"
    using requested(5) slept holds_memoryD(4) [OF mem] by (fastforce simp: waited_def)
  moreover have "ws = vals" "w2 = w1" using requested(1) by simp_all
  moreover have "mem w' = mem w3" using holds_memoryD(4) [OF mem requested(3)] .
  moreover have "write_request b start ws (mc_timeout c) w2 = (Inr (), w3)"
    using requested(2) by (simp only: execute_Inr)
  ultimately have req: "write_request b start vals (mc_timeout c) w1 = (Inr (), w3)" by simp
  have lib: "f w1 = (Inr (), w3)" if "from_library f w1 = (Inr (), w3)" for f
    using that by (simp only: from_library_Inr)
  have "mem w3 = (\<lambda>a. if nat start \<le> a \<and> a < nat start + length vals
    then vals ! (a - nat start) else mem w1 a)"
  proof (cases "\<exists>v. vals = [v]")
    case True
    then obtain v where v: "vals = [v]" by blast
    with req lib have "bus_write_single b (mc_timeout c) (word_of_int start) v w1 = (Inr (), w3)"
      by (simp add: write_request_def)
    from holds_memoryD(2) [OF mem this] show ?thesis
      using assms(3,4) by (auto simp: unat_of_int16 v)
  next
    case False
    then have "write_request b start vals (mc_timeout c) = from_library (bus_write_multiple b (mc_timeout c)
        (word_of_int start) (of_nat (length vals)) (registersToBytes vals))"
      by (auto simp: write_request_def split: list.splits)
    with req lib have "bus_write_multiple b (mc_timeout c) (word_of_int start) (of_nat (length vals))
        (registersToBytes vals) w1 = (Inr (), w3)" by metis
    from holds_memoryD(3) [OF mem this] show ?thesis
      using assms(3-5) by (simp add: unat_of_int16 unat_of_nat bytesToRegisters_registersToBytes fun_eq_iff)
  qed
  then show ?thesis unfolding \<open>mem w1 = mem w\<close> \<open>mem w' = mem w3\<close> .
qed simp_all

lemma written_row_reads:
  assumes "row_bounds_ok 108 d" and "length vals = nat (reg_Length d)"
    and "registers = map (\<lambda>a. if nat (reg_Start d) \<le> a \<and> a < nat (reg_Start d) + length vals
      then vals ! (a - nat (reg_Start d)) else f a) [0..<108]"
  shows "take (nat (reg_Length d)) (drop (nat (reg_Start d)) registers) = vals"
    and "decodeRegisterValue registers d = decodeRegisterValue vals (d\<lparr>reg_Start := 0\<rparr>)"
proof -
  have d: "0 \<le> reg_Start d" "1 \<le> reg_Length d" "reg_Start d + reg_Length d \<le> 108"
    using assms(1) by (simp_all add: row_bounds_ok_def)
  then have n: "nat (reg_Start d) + nat (reg_Length d) \<le> 108" by linarith
  show t: "take (nat (reg_Length d)) (drop (nat (reg_Start d)) registers) = vals"
    using n assms(2) by (intro nth_equalityI) (simp_all add: assms(3))
  have "int (length registers) = 108" by (simp add: assms(3))
  with d t assms(2) show "decodeRegisterValue registers d = decodeRegisterValue vals (d\<lparr>reg_Start := 0\<rparr>)"
    by (cases "reg_Type d") (simp_all add: decodeRegisterValue_def Let_def)
qed

section \<open>Properties\<close>

text \<open>C17: a configuration command is refused on its
  key and value alone, before the bus is used: a refusal is a command error that leaves
  the inverter, the bus and the pending read-backs exactly as they were, in every state;
  a command that passes the checks can never come back as a command error.\<close>

theorem refused_command_touches_nothing:
  "case prepare_write oob key v of
     Inl e \<Rightarrow> isCommandError e \<and> (\<forall>s. inv_WriteConfig oob h b key v s = (Inl e, s))
   | Inr _ \<Rightarrow> (\<forall>s e s'. inv_WriteConfig oob h b key v s = (Inl e, s') \<longrightarrow> \<not> isCommandError e)"
proof (cases "prepare_write oob key v")
  case (Inl e)
  then have "rejection_of oob key v = Some e" by (simp add: rejection_of_def)
  from inv.rejected [OF this, of h b] inv.rejection [OF this] Inl show ?thesis by simp
next
  case (Inr a)
  then have "rejection_of oob key v = None" by (simp add: rejection_of_def)
  from inv.accepted [OF this, of h b] Inr show ?thesis by auto
qed


lemma clock_values_Inr:
  assumes "clock_values h w0 = (Inr ws, w2)"
  shows "\<exists>now w1 t. host_now h w0 = (now, w1) \<and>
    (if nanosecond now = 0 then t = now \<and> w2 = w1
     else \<exists>v. sleepContext h (second - nanosecond now) w1 = (Inr (), v) \<and> host_now h v = (t, w2)) \<and>
    ws = map word_of_int (civil (host_zone h w2 t) t)"
proof -
  obtain now w1 where now: "host_now h w0 = (now, w1)" by fastforce
  have range: "0 \<le> nanosecond now" "nanosecond now < second" by (simp_all add: nanosecond_def second_def)
  show ?thesis
  proof (cases "nanosecond now = 0")
    case True
    with assms now have "w2 = w1" "ws = map word_of_int (civil (host_zone h w1 now) now)"
      by (auto simp: clock_values_def Let_def)
    with now True show ?thesis by simp
  next
    case False
    with range have "0 < second - nanosecond now \<and> second - nanosecond now < second" by simp
    with assms now obtain u v t where "sleepContext h (second - nanosecond now) w1 = (Inr u, v)"
      "host_now h v = (t, w2)" "ws = map word_of_int (civil (host_zone h w2 t) t)"
      by (auto simp: clock_values_def Let_def elim!: on_ok_cases split: prod.splits)
    with now False show ?thesis by auto
  qed
qed

text \<open>
  The words the bus answered to the three requests of a reading of the configuration, in the
  order of their addresses.
\<close>

definition config_answers :: "'w bus \<Rightarrow> duration \<Rightarrow> 'w \<Rightarrow> u16 list \<Rightarrow> 'w \<Rightarrow> bool" where
  "config_answers b limit w registers w' \<longleftrightarrow>
     (\<exists>d1 d2 d3 w1 w2.
        bus_read_holding b limit 0 45 w = (Inr d1, w1) \<and> length (bytesToRegisters d1) = 45 \<and>
        bus_read_holding b limit 45 45 w1 = (Inr d2, w2) \<and> length (bytesToRegisters d2) = 45 \<and>
        bus_read_holding b limit 90 18 w2 = (Inr d3, w') \<and> length (bytesToRegisters d3) = 18 \<and>
        registers = bytesToRegisters d1 @ bytesToRegisters d2 @ bytesToRegisters d3)"

lemma holding_read_Inr:
  "client_ReadHoldingRegisters h b start count (c, w) = (Inr ws, c', w') \<longleftrightarrow>
   c' = c \<and> (\<exists>d. bus_read_holding b (mc_timeout c) (word_of_int start) (word_of_int count) w = (Inr d, w') \<and>
     ws = bytesToRegisters d)"
proof -
  let ?e = "execute h c (\<lambda>limit. from_library (bus_read_holding b limit (word_of_int start) (word_of_int count))) w"
  have bus: "bus_read_holding b (mc_timeout c) (word_of_int start) (word_of_int count) w = (Inr d, w') \<longleftrightarrow>
      ?e = (Inr d, w')" for d
    by (simp only: execute_Inr from_library_Inr)
  have call: "client_ReadHoldingRegisters h b start count (c, w) = (Inr ws, c', w') \<longleftrightarrow>
      c' = c \<and> (\<exists>d. ?e = (Inr d, w') \<and> ws = bytesToRegisters d)"
    by (cases ?e; cases "fst ?e") (auto simp: client_ReadHoldingRegisters_def)
  show ?thesis unfolding call bus ..
qed

lemma copied_windows:
  assumes "length a = 45" and "length b = 45" and "length c = 18"
  shows "copy_at 90 c (copy_at 45 b (copy_at 0 a (replicate 108 x))) = a @ b @ c"
  using assms by (simp add: copy_at_def)

lemma read_windows_Inr:
  "read_windows reader (win # wins) buffer s = (Inr registers, s') \<longleftrightarrow>
   (\<exists>vals s1. reader (win_Start win) (win_Count win) s = (Inr vals, s1) \<and> int (length vals) = win_Count win \<and>
     read_windows reader wins (copy_at (nat (win_Start win)) vals buffer) s1 = (Inr registers, s'))"
proof -
  obtain q s1 where "reader (win_Start win) (win_Count win) s = (q, s1)" by (meson surj_pair)
  then show ?thesis by (cases q) auto
qed

lemma config_windows_answers:
  assumes "read_windows (client_ReadHoldingRegisters h b) [window 0 45, window 45 45, window 90 18] buffer (c, w) =
    (Inr registers, c', w')"
  shows "\<exists>d1 d2 d3 w1 w2.
    bus_read_holding b (mc_timeout c) 0 45 w = (Inr d1, w1) \<and> length (bytesToRegisters d1) = 45 \<and>
    bus_read_holding b (mc_timeout c) 45 45 w1 = (Inr d2, w2) \<and> length (bytesToRegisters d2) = 45 \<and>
    bus_read_holding b (mc_timeout c) 90 18 w2 = (Inr d3, w') \<and> length (bytesToRegisters d3) = 18 \<and>
    registers = copy_at 90 (bytesToRegisters d3) (copy_at 45 (bytesToRegisters d2) (copy_at 0 (bytesToRegisters d1) buffer))"
  using assms unfolding read_windows_Inr
  by (force simp: holding_read_Inr)

lemma config_buffer_answers:
  assumes "on_client (readRegisterWindows (client_ReadHoldingRegisters h b) (holdingRegisterWindows oob)) (i, w) =
    (Inr registers, i1, w')"
  shows "config_answers b (mc_timeout (client i)) w registers w'"
proof -
  obtain c where "read_windows (client_ReadHoldingRegisters h b) [window 0 45, window 45 45, window 90 18]
      (replicate 108 0) (client i, w) = (Inr registers, c, w')"
    using assms unfolding on_client_Inr config_buffer_reading by blast
  from config_windows_answers [OF this] show ?thesis
    unfolding config_answers_def by (metis copied_windows)
qed

text \<open>What is logged of a pending write when these words were read.\<close>

definition verdict :: "u16 list \<Rightarrow> pendingReadback \<Rightarrow> readback" where
  "verdict registers p =
     (if pr_start p + int (length (pr_expected p)) > int (length registers) then Unverifiable
      else if take (length (pr_expected p)) (drop (nat (pr_start p)) registers) = pr_expected p then Verified
      else NotVisible)"

lemma reconcile_verdicts:
  "readback_log (reconcilePendingReadback i registers) =
   readback_log i @ map (\<lambda>(key, p). (key, verdict registers p)) (pendingReadbacks i)"
  by (simp add: reconcilePendingReadback_def verdict_def equalRegisters_iff split_beta)

lemma failed_reading_log:
  "inv_ReadConfig oob h b (i, w) = (Inl e, i', w') \<Longrightarrow> readback_log i' = readback_log i"
  by (auto simp: inv_ReadConfig_def on_client_def on_ok_def split: prod.splits sum.splits)

text \<open>C16: a reading of the configuration ends with every key
  of the table decoded from the 108 words that the bus answered to its three requests, and
  then each pending write is logged as verified, not visible or not verifiable by comparing
  those words at its address with the words written; or it ends with an error of the bus, a
  short answer, or a number an enumeration does not list, and logs nothing. Either way no
  pending write survives it.\<close>

theorem config_reading_outcomes:
  assumes "inv_ReadConfig oob h b (i, w) = (r, i', w')"
  shows "pendingReadbacks i' = [] \<and>
    (case r of
       Inl e \<Rightarrow> (bus_error e \<or> short_answer e \<or> unlisted_number e) \<and> readback_log i' = readback_log i
     | Inr info \<Rightarrow> \<exists>registers. config_answers b (mc_timeout (client i)) w registers w' \<and>
         decoded_from registers (holdingRegisters oob) info \<and>
         readback_log i' = readback_log i @ map (\<lambda>(key, p). (key, verdict registers p)) (pendingReadbacks i))"
  using assms
proof (cases rule: ReadConfig_cases)
  case (failed e)
  with assms failed_reading_log show ?thesis by auto
next
  case (read registers info i1)
  then obtain c where "i1 = i\<lparr>client := c\<rparr>" unfolding on_client_Inr by blast
  with read config_buffer_answers [OF read(3)] show ?thesis by (auto simp: reconcile_verdicts)
qed

text \<open>C2: on a device whose registers are memory, the value
  that a configuration write acknowledged is the value that the next reading of the
  configuration publishes under that key, and the read-back is logged as verified.\<close>

theorem written_value_reads_back:
  assumes "holds_memory h b mem" and "goval_ok v"
    and "inv_WriteConfig oob h b key v s = (Inr a, s1)"
    and "inv_ReadConfig oob h b s1 = (Inr info, i2, w2)"
  shows "map_of info key = Some a \<and> (key, Verified) \<in> set (readback_log i2)"
proof -
  obtain i w where s: "s = (i, w)" by (cases s)
  from assms(3) obtain d vals i1 w1 where prep: "prepare_write oob key v = Inr (d, vals)"
    and ack: "acknowledge key d vals = Inr a"
    and wr: "on_client (client_WriteRegisters h b (reg_Start d) (\<lambda>w. (Inr vals, w))) s = (Inr (), i1, w1)"
    and s1: "s1 = (note_pending key d vals i1, w1)"
    by (cases rule: WriteConfig_cases) auto
  have row: "d \<in> set (holdingRegisters oob)" "reg_Key d = key" and bounds: "row_bounds_ok 108 d"
    using prep by (auto elim: prepare_write_Inr)
  have len: "length vals = nat (reg_Length d)"
    using acknowledge_Inr [OF prep assms(2)] by blast
  from assms(4) obtain registers i3 where
    rd: "on_client (readRegisterWindows (client_ReadHoldingRegisters h b) (holdingRegisterWindows oob)) s1 =
      (Inr registers, i3, w2)"
    and info: "decoded_from registers (holdingRegisters oob) info"
    and i2: "i2 = (reconcilePendingReadback i3 registers)\<lparr>pendingReadbacks := []\<rparr>"
    by (cases rule: ReadConfig_cases) auto
  obtain c where "client_WriteRegisters h b (reg_Start d) (\<lambda>w. (Inr vals, w)) (client i, w) = (Inr (), c, w1)"
    using wr unfolding s on_client_Inr by blast
  from write_memory [OF assms(1) this] have "mem w1 = (\<lambda>a. if nat (reg_Start d) \<le> a \<and>
      a < nat (reg_Start d) + length vals then vals ! (a - nat (reg_Start d)) else mem w a)"
    using bounds len by (simp add: row_bounds_ok_def nat_less_iff)
  then have registers: "registers = map (\<lambda>a. if nat (reg_Start d) \<le> a \<and> a < nat (reg_Start d) + length vals
      then vals ! (a - nat (reg_Start d)) else mem w a) [0..<108]"
    using read_config_memory [OF assms(1) rd [unfolded s1]] by simp
  note same = written_row_reads [OF bounds len registers]
  have "decode_row registers d = Inr a"
    using ack same(2) by (auto simp: decode_row_def acknowledge_row split: sum.splits)
  then have "map_of info key = Some a" using info row by (auto simp: decoded_from_def)
  moreover have "map_of (pendingReadbacks i3) key = Some \<lparr>pr_start = reg_Start d, pr_expected = vals\<rparr>"
    using rd unfolding s1 on_client_Inr by (auto simp: note_pending_def update_Some_unfold)
  then have "(key, \<lparr>pr_start = reg_Start d, pr_expected = vals\<rparr>) \<in> set (pendingReadbacks i3)"
    by (rule map_of_SomeD)
  then have "(key, Verified) \<in> set (readback_log i2)"
    using same(1) bounds len registers
    by (force simp: i2 reconcilePendingReadback_def equalRegisters_iff row_bounds_ok_def)
  ultimately show ?thesis ..
qed

text \<open>C38: a time synchronisation that succeeds waited out
  the distance to the last write, read the clock, waited for the end of the current second
  unless it had just begun and read the clock again; it then sent, with no other call in
  between, one request that writes six registers from register 45: the year, month, day,
  hour, minute and second of that last reading in the host's zone, each in its calendar
  range. The write is noted at the time after it.\<close>

theorem sync_sends_the_calendar:
  assumes "inv_SyncTime h b (i, w) = (Inr (), i', w')"
  shows "\<exists>w0 now w1 t w2 w3. waited h (client i) w w0 \<and> host_now h w0 = (now, w1) \<and>
    (if nanosecond now = 0 then t = now \<and> w2 = w1
     else \<exists>v. sleepContext h (second - nanosecond now) w1 = (Inr (), v) \<and> host_now h v = (t, w2)) \<and>
    civil_ok (civil (host_zone h w2 t) t) \<and>
    bus_write_multiple b (mc_timeout (client i)) 45 6
      (registersToBytes (map word_of_int (civil (host_zone h w2 t) t))) w2 = (Inr (), w3) \<and>
    host_now h w3 = (lastRegisterWrite (client i'), w')"
proof -
  obtain c where c: "client_WriteRegisters h b 45 (clock_values h) (client i, w) = (Inr (), c, w')" "client i' = c"
    using assms unfolding inv_SyncTime_def on_client_Inr by auto
  from c(1) show ?thesis
  proof (cases rule: client_WriteRegisters_cases)
    case (requested w0 ws w2 w3 written)
    obtain now w1 t where now: "host_now h w0 = (now, w1)" and
      t: "if nanosecond now = 0 then t = now \<and> w2 = w1
        else \<exists>v. sleepContext h (second - nanosecond now) w1 = (Inr (), v) \<and> host_now h v = (t, w2)"
      and ws: "ws = map word_of_int (civil (host_zone h w2 t) t)"
      using clock_values_Inr [OF requested(1)] by blast
    have "\<exists>a b c d e f. civil (host_zone h w2 t) t = [a, b, c, d, e, f]"
      by (simp add: civil_def Let_def split: prod.splits)
    with ws have "write_request b 45 ws (mc_timeout (client i)) =
        from_library (bus_write_multiple b (mc_timeout (client i)) 45 6 (registersToBytes ws))"
      by (auto simp: write_request_def)
    with requested(2) have "bus_write_multiple b (mc_timeout (client i)) 45 6 (registersToBytes ws) w2 = (Inr (), w3)"
      by (simp only: execute_Inr from_library_Inr)
    with ws now t requested(3,4,5) c(2) civil_in_range show ?thesis
      by (intro exI [of _ w0] exI [of _ now] exI [of _ w1] exI [of _ t] exI [of _ w2] exI [of _ w3]) simp
  qed simp_all
qed

section \<open>A device to try them on\<close>

text \<open>
  A device of 108 holding registers: the world is their list. Out-of-range requests are
  answered with an error, and the clock stands still.
\<close>

definition memory_host :: "u16 list host" where
  "memory_host =
     \<lparr>host_now = \<lambda>w. (63871200000000000000, w), host_wait = \<lambda>_ w. (None, w),
      ctx_err = \<lambda>_. None, host_zone = \<lambda>_ _. 3600\<rparr>"

definition memory_read :: "u16 \<Rightarrow> u16 \<Rightarrow> (u16 list, 8 word list) ext" where
  "memory_read start count w =
     (if unat start + unat count \<le> length w
      then (Inr (registersToBytes (take (unat count) (drop (unat start) w))), w)
      else (Inl ''illegal data address'', w))"

definition memory_bus :: "u16 list bus" where
  "memory_bus =
     \<lparr>bus_connect = \<lambda>_ w. (Inr (), w), bus_close = \<lambda>w. (Inr (), w),
      bus_read_input = \<lambda>_. memory_read, bus_read_holding = \<lambda>_. memory_read,
      bus_write_single = \<lambda>_ start v w.
        if unat start < length w then (Inr (), w[unat start := v]) else (Inl ''illegal data address'', w),
      bus_write_multiple = \<lambda>_ start count data w.
        if unat start + unat count \<le> length w \<and> length data = 2 * unat count
        then (Inr (), take (unat start) w @ bytesToRegisters data @ drop (unat start + unat count) w)
        else (Inl ''illegal data address'', w)\<rparr>"

definition memory_of :: "u16 list \<Rightarrow> nat \<Rightarrow> u16" where
  "memory_of w a = (if a < length w then w ! a else 0)"

lemma memory_bus_holds: "holds_memory memory_host memory_bus memory_of"
proof -
  have "data = registersToBytes (map (memory_of w) [unat start..<unat start + unat count]) \<and> memory_of w' = memory_of w"
    if "bus_read_holding memory_bus limit start count w = (Inr data, w')" for limit start count w data w'
  proof -
    from that have le: "unat start + unat count \<le> length w" and w': "w' = w"
      and data: "data = registersToBytes (take (unat count) (drop (unat start) w))"
      by (auto simp: memory_bus_def memory_read_def split: if_splits)
    have "take (unat count) (drop (unat start) w) = map (memory_of w) [unat start..<unat start + unat count]"
      using le by (intro nth_equalityI) (simp_all add: memory_of_def)
    with data w' show ?thesis by metis
  qed
  moreover have "memory_of w' = (memory_of w)(unat start := v)"
    if "bus_write_single memory_bus limit start v w = (Inr (), w')" for limit start v w w'
    using that by (auto simp: memory_bus_def memory_of_def nth_list_update fun_eq_iff split: if_splits)
  moreover have "memory_of w' = (\<lambda>a. if unat start \<le> a \<and> a < unat start + unat count
      then bytesToRegisters data ! (a - unat start) else memory_of w a)"
    if "bus_write_multiple memory_bus limit start count data w = (Inr (), w')" for limit start count data w w'
    using that by (auto simp: memory_bus_def memory_of_def nth_append fun_eq_iff split: if_splits)
  ultimately show ?thesis by (simp add: holds_memory_def memory_host_def)
qed

definition factory_words :: "u16 list" where
  "factory_words = (replicate 108 0)[42 := 1, 35 := 564]"

text \<open>A write of 57.3 volts goes through and reads back.\<close>

theorem refused_command_touches_nothing_witness:
  "prepare_write (\<lambda>_. 0) ''ParaMaxChgAmps'' (GInt64 3) =
     Inl (ECommand (EMsg (MNotWriteable ''ParaMaxChgAmps''))) \<and>
   inv_WriteConfig (\<lambda>_. 0) memory_host memory_bus ''ParaMaxChgAmps'' (GInt64 3)
     (NewInverter second, factory_words) =
     (Inl (ECommand (EMsg (MNotWriteable ''ParaMaxChgAmps''))), NewInverter second, factory_words)"
proof -
  have "prepare_write (\<lambda>_. 0) ''ParaMaxChgAmps'' (GInt64 3) =
      Inl (ECommand (EMsg (MNotWriteable ''ParaMaxChgAmps'')))"
    by (simp add: prepare_write_def holdingByKey_def holdingRegisters_def)
  with refused_command_touches_nothing [where oob = "\<lambda>_. 0" and key = "''ParaMaxChgAmps''" and v = "GInt64 3"
      and h = memory_host and b = memory_bus]
  show ?thesis by simp
qed


theorem config_reading_outcomes_witness:
  "\<exists>info i' w'. inv_ReadConfig (\<lambda>_. 0) memory_host memory_bus
     ((NewInverter second)\<lparr>pendingReadbacks := [(''ComAddress'', \<lparr>pr_start = 30, pr_expected = [4]\<rparr>),
        (''BulkChargeVolt'', \<lparr>pr_start = 35, pr_expected = [564]\<rparr>),
        (''FWVersion'', \<lparr>pr_start = 107, pr_expected = [0, 0]\<rparr>)]\<rparr>, factory_words) = (Inr info, i', w') \<and>
     pendingReadbacks i' = [] \<and>
     readback_log i' = [(''ComAddress'', NotVisible), (''BulkChargeVolt'', Verified), (''FWVersion'', Unverifiable)]"
proof -
  let ?i = "(NewInverter second)\<lparr>pendingReadbacks := [(''ComAddress'', \<lparr>pr_start = 30, pr_expected = [4]\<rparr>),
        (''BulkChargeVolt'', \<lparr>pr_start = 35, pr_expected = [564]\<rparr>),
        (''FWVersion'', \<lparr>pr_start = 107, pr_expected = [0, 0]\<rparr>)]\<rparr>"
  obtain r i' w' where e: "inv_ReadConfig (\<lambda>_. 0) memory_host memory_bus (?i, factory_words) = (r, i', w')"
    by (rule prod_cases3)
  have "\<not> isl (fst (inv_ReadConfig (\<lambda>_. 0) memory_host memory_bus (?i, factory_words)))" by code_simp
  with e obtain info where r: "r = Inr info" by (cases r) simp_all
  from config_reading_outcomes [OF e] obtain registers where p: "pendingReadbacks i' = []"
    and a: "config_answers memory_bus second factory_words registers w'"
    and v: "readback_log i' = map (\<lambda>(key, p). (key, verdict registers p)) (pendingReadbacks ?i)"
    by (auto simp: r NewInverter_def NewModbusClient_def)
  have "registers = factory_words"
  proof -
    have "fst (bus_read_holding memory_bus second 0 45 factory_words) = Inr (registersToBytes (take 45 factory_words))"
      "fst (bus_read_holding memory_bus second 45 45 factory_words) = Inr (registersToBytes (take 45 (drop 45 factory_words)))"
      "fst (bus_read_holding memory_bus second 90 18 factory_words) = Inr (registersToBytes (drop 90 factory_words))"
      by code_simp+
    moreover have "snd (bus_read_holding memory_bus second s n factory_words) = factory_words" for s n
      by (simp add: memory_bus_def memory_read_def)
    ultimately have "bus_read_holding memory_bus second 0 45 factory_words = (Inr (registersToBytes (take 45 factory_words)), factory_words)"
      "bus_read_holding memory_bus second 45 45 factory_words = (Inr (registersToBytes (take 45 (drop 45 factory_words))), factory_words)"
      "bus_read_holding memory_bus second 90 18 factory_words = (Inr (registersToBytes (drop 90 factory_words)), factory_words)"
      by (simp_all add: prod_eq_iff)
    with a have "registers = take 45 factory_words @ take 45 (drop 45 factory_words) @ drop 90 factory_words"
      by (auto simp: config_answers_def bytesToRegisters_registersToBytes)
    also have "\<dots> = factory_words" by code_simp
    finally show ?thesis .
  qed
  moreover have "map (\<lambda>(key, p). (key, verdict factory_words p)) (pendingReadbacks ?i) =
      [(''ComAddress'', NotVisible), (''BulkChargeVolt'', Verified), (''FWVersion'', Unverifiable)]" by code_simp
  ultimately show ?thesis using e r p v by metis
qed

theorem written_value_reads_back_witness:
  "\<exists>s1 info i2 w2.
     inv_WriteConfig (\<lambda>_. 0) memory_host memory_bus ''BatteryType'' (GString ''Lithium'')
       (NewInverter second, factory_words) = (Inr (GString ''Lithium''), s1) \<and>
     inv_ReadConfig (\<lambda>_. 0) memory_host memory_bus s1 = (Inr info, i2, w2) \<and>
     map_of info ''BatteryType'' = Some (GString ''Lithium'') \<and>
     (''BatteryType'', Verified) \<in> set (readback_log i2)"
proof -
  let ?run = "inv_WriteConfig (\<lambda>_. 0) memory_host memory_bus ''BatteryType'' (GString ''Lithium'')
       (NewInverter second, factory_words)"
  have w: "fst ?run = Inr (GString ''Lithium'')" by code_simp
  have "\<not> isl (fst (inv_ReadConfig (\<lambda>_. 0) memory_host memory_bus (snd ?run)))" by code_simp
  moreover obtain q i2 w2 where r: "inv_ReadConfig (\<lambda>_. 0) memory_host memory_bus (snd ?run) = (q, i2, w2)"
    by (rule prod_cases3)
  ultimately obtain info where q: "q = Inr info" by (cases q) simp_all
  from w have w': "?run = (Inr (GString ''Lithium''), snd ?run)" by (metis prod.collapse)
  have "goval_ok (GString ''Lithium'')" by simp
  from written_value_reads_back [OF memory_bus_holds this w' r [unfolded q]] w' r q show ?thesis by blast
qed

theorem sync_sends_the_calendar_witness:
  "\<exists>w3. bus_write_multiple memory_bus second 45 6 (registersToBytes [2024, 12, 31, 1, 0, 0]) factory_words = (Inr (), w3) \<and>
     snd (snd (inv_SyncTime memory_host memory_bus (NewInverter second, factory_words))) = w3"
proof -
  have "fst (inv_SyncTime memory_host memory_bus (NewInverter second, factory_words)) = Inr ()" by code_simp
  then obtain i' w' where
    e: "inv_SyncTime memory_host memory_bus (NewInverter second, factory_words) = (Inr (), i', w')"
    by (metis prod.collapse)
  have now: "host_now memory_host v = (63871200000000000000, v)" for v by (simp add: memory_host_def)
  have stay: "sleepContext memory_host d v = (Inr (), v)" for d v by (simp add: sleepContext_def memory_host_def)
  have start: "waited memory_host (client (NewInverter second)) factory_words v \<Longrightarrow> v = factory_words" for v
    by (auto simp: waited_def now stay)
  have "nanosecond 63871200000000000000 = 0" by (simp add: nanosecond_def second_def)
  moreover have "map word_of_int (civil (host_zone memory_host v 63871200000000000000) 63871200000000000000) =
      ([2024, 12, 31, 1, 0, 0] :: u16 list)" for v
  proof -
    have "map word_of_int (civil 3600 63871200000000000000) = ([2024, 12, 31, 1, 0, 0] :: u16 list)" by code_simp
    then show ?thesis by (simp add: memory_host_def)
  qed
  moreover have "mc_timeout (client (NewInverter second)) = second" by code_simp
  ultimately obtain v where v: "waited memory_host (client (NewInverter second)) factory_words v"
    and b: "bus_write_multiple memory_bus second 45 6 (registersToBytes [2024, 12, 31, 1, 0, 0]) v = (Inr (), w')"
    using sync_sends_the_calendar [OF e] by (auto simp: now simp del: registersToBytes.simps)
  from start [OF v] b e show ?thesis by simp
qed

end
