(* ===== verification/Recovery.thy ===== *)
theory Recovery
  imports Inverter_Contract
begin

text \<open>
  Recovery of a failed connection (\<open>src/recovery.go\<close>): bounded reconnects with a growing
  delay, one privileged reset of the adapter between two rounds of reconnects, a cooldown
  between resets, and the notifications of the availability sink.
\<close>

section \<open>Parts\<close>

text \<open>The interface \<open>inverterConnection\<close> as a table of functions.\<close>

record 's connection =
  c_ReadStatus :: "('s, govalues) io"
  c_ReadConfig :: "('s, govalues) io"
  c_WriteConfig :: "string \<Rightarrow> goval \<Rightarrow> ('s, goval) io"
  c_SyncTime :: "('s, unit) io"
  c_Connect :: "('s, unit) io"
  c_Close :: "('s, unit) io"

record RecoveryConfig =
  ReconnectAttempts :: int
  InitialBackoff :: duration
  MaxBackoff :: duration
  ResetCooldown :: duration

text \<open>
  \<open>sink\<close> says whether a sink is set; \<open>notified\<close> is the list of the calls of its method
  \<open>InverterAvailabilityChanged\<close>, oldest first.
\<close>

record 'i recovering =
  rec_inverter :: 'i
  lastReset :: gotime
  sink :: bool
  notified :: "bool list"

definition NewRecoveringInverter :: "'i \<Rightarrow> 'i recovering" where
  "NewRecoveringInverter i = \<lparr>rec_inverter = i, lastReset = 0, sink = False, notified = []\<rparr>"

definition SetAvailabilitySink :: "'i recovering \<Rightarrow> 'i recovering" where
  "SetAvailabilitySink r = r\<lparr>sink := True\<rparr>"

type_synonym ('i, 'w) rw = "'i recovering \<times> 'w"

definition on_inverter :: "('i \<times> 'w, 'a) io \<Rightarrow> (('i, 'w) rw, 'a) io" where
  "on_inverter f s =
     (case s of (r, w) \<Rightarrow> case f (rec_inverter r, w) of (q, i, w') \<Rightarrow> (q, r\<lparr>rec_inverter := i\<rparr>, w'))"

definition notifyAvailability :: "bool \<Rightarrow> ('i, 'w) rw \<Rightarrow> ('i, 'w) rw" where
  "notifyAvailability available s =
     (case s of (r, w) \<Rightarrow> (if sink r then r\<lparr>notified := notified r @ [available]\<rparr> else r, w))"

text \<open>The unit of the privileged reset is started through \<open>systemctl\<close>.\<close>

definition recoveryUnit :: string where
  "recoveryUnit = ''spf5000es-recovery.service''"

definition RequestReset :: "('w, unit) ext \<Rightarrow> ('w, unit) io" where
  "RequestReset systemctl w =
     (case systemctl w of
        (Inl e, w') \<Rightarrow> (Inl (EWrap (''start '' @ recoveryUnit) (EExt e)), w')
      | (Inr u, w') \<Rightarrow> (Inr u, w'))"

section \<open>Reconnecting\<close>

definition next_delay :: "RecoveryConfig \<Rightarrow> duration \<Rightarrow> duration" where
  "next_delay cfg delay = min (wrap64 (delay * 2)) (MaxBackoff cfg)"

text \<open>
  The loop of \<open>reconnectAndValidateLocked\<close> with the attempts left. \<open>validate\<close> returns the
  value of the operation it runs; when no attempt is made at all and none was, the code
  returns nil without a value, which is \<open>Inr None\<close>.
\<close>

fun reconnect_loop ::
    "'w host \<Rightarrow> ('i \<times> 'w) connection \<Rightarrow> RecoveryConfig \<Rightarrow> ('i \<times> 'w, 'a) io \<Rightarrow>
     nat \<Rightarrow> duration \<Rightarrow> err option \<Rightarrow> ('i \<times> 'w, 'a option) io" where
  "reconnect_loop h conn cfg validate 0 delay reconnectErr s =
     (case reconnectErr of None \<Rightarrow> (Inr None, s) | Some e \<Rightarrow> (Inl e, s))"
| "reconnect_loop h conn cfg validate (Suc n) delay reconnectErr s =
     (case c_Close conn s of (_, s1) \<Rightarrow>
        on_ok (on_world (sleepContext h delay) s1)
          (\<lambda>_ s2.
             case c_Connect conn s2 of
               (Inl e, s3) \<Rightarrow> reconnect_loop h conn cfg validate n (next_delay cfg delay) (Some e) s3
             | (Inr _, s3) \<Rightarrow>
                 (case validate s3 of
                    (Inr a, s4) \<Rightarrow> (Inr (Some a), s4)
                  | (Inl e, s4) \<Rightarrow>
                      if \<not> isFatalModbus e then (Inl e, s4)
                      else reconnect_loop h conn cfg validate n (next_delay cfg delay) (Some e) s4)))"

definition reconnectAndValidate ::
    "'w host \<Rightarrow> ('i \<times> 'w) connection \<Rightarrow> RecoveryConfig \<Rightarrow> ('i \<times> 'w, 'a) io \<Rightarrow> ('i \<times> 'w, 'a option) io" where
  "reconnectAndValidate h conn cfg validate =
     reconnect_loop h conn cfg validate (nat (ReconnectAttempts cfg)) (InitialBackoff cfg) None"

definition reconnectLocked ::
    "'w host \<Rightarrow> ('i \<times> 'w) connection \<Rightarrow> RecoveryConfig \<Rightarrow> ('i \<times> 'w, unit option) io" where
  "reconnectLocked h conn cfg = reconnectAndValidate h conn cfg (\<lambda>s. (Inr (), s))"

section \<open>Recovering\<close>

definition value_or :: "'a \<Rightarrow> 'a option \<Rightarrow> 'a" where
  "value_or zero a = (case a of None \<Rightarrow> zero | Some x \<Rightarrow> x)"

text \<open>The second half of \<open>executeWithRecoveryLocked\<close>: lines 139 to 153.\<close>

definition reset_and_reconnect ::
    "'w host \<Rightarrow> ('i \<times> 'w) connection \<Rightarrow> ('w, unit) ext \<Rightarrow> RecoveryConfig \<Rightarrow> 'a \<Rightarrow> ('i \<times> 'w, 'a) io \<Rightarrow>
     err \<Rightarrow> (('i, 'w) rw, 'a) io" where
  "reset_and_reconnect h conn systemctl cfg zero operation operationErr s =
     (case s of (r, w) \<Rightarrow> case host_now h w of (now, w1) \<Rightarrow>
        if lastReset r \<noteq> 0 \<and> time_sub now (lastReset r) < ResetCooldown cfg
        then (Inl (EJoin [operationErr, EMsg (MResetSuppressed (ResetCooldown cfg))]), r, w1)
        else (case RequestReset systemctl w1 of
          (Inl e, w2) \<Rightarrow> (Inl (EJoin [operationErr, EWrap ''request inverter reset'' e]), r, w2)
        | (Inr _, w2) \<Rightarrow>
            (case on_inverter (reconnectAndValidate h conn cfg operation) (r\<lparr>lastReset := now\<rparr>, w2) of
               (Inl e, s3) \<Rightarrow> (Inl (EJoin [operationErr, EWrap ''reconnect after inverter reset'' e]), s3)
             | (Inr a, s3) \<Rightarrow> (Inr (value_or zero a), notifyAvailability True s3))))"

definition executeWithRecovery ::
    "'w host \<Rightarrow> ('i \<times> 'w) connection \<Rightarrow> ('w, unit) ext \<Rightarrow> RecoveryConfig \<Rightarrow> 'a \<Rightarrow> ('i \<times> 'w, 'a) io \<Rightarrow>
     (('i, 'w) rw, 'a) io" where
  "executeWithRecovery h conn systemctl cfg zero operation s =
     (case on_inverter operation s of
        (Inr a, s1) \<Rightarrow> (Inr a, s1)
      | (Inl operationErr, s1) \<Rightarrow>
          if \<not> isFatalModbus operationErr then (Inl operationErr, s1)
          else (case on_inverter (reconnectAndValidate h conn cfg operation) (notifyAvailability False s1) of
            (Inr a, s2) \<Rightarrow> (Inr (value_or zero a), notifyAvailability True s2)
          | (Inl e, s2) \<Rightarrow>
              if \<not> isFatalModbus e \<or> ctx_err h (snd s2) \<noteq> None
              then (Inl (EJoin [operationErr, e]), s2)
              else reset_and_reconnect h conn systemctl cfg zero operation operationErr s2))"

section \<open>The methods\<close>

definition rec_Connect where
  "rec_Connect h conn systemctl cfg = executeWithRecovery h conn systemctl cfg () (c_Connect conn)"

definition rec_Close where
  "rec_Close conn = on_inverter (c_Close conn)"

definition rec_ReadStatus where
  "rec_ReadStatus h conn systemctl cfg = executeWithRecovery h conn systemctl cfg [] (c_ReadStatus conn)"

definition rec_ReadConfig where
  "rec_ReadConfig h conn systemctl cfg = executeWithRecovery h conn systemctl cfg [] (c_ReadConfig conn)"

definition rec_WriteConfig where
  "rec_WriteConfig h conn systemctl cfg key v =
     executeWithRecovery h conn systemctl cfg GNil (c_WriteConfig conn key v)"

definition rec_SyncTime where
  "rec_SyncTime h conn systemctl cfg = executeWithRecovery h conn systemctl cfg () (c_SyncTime conn)"

section \<open>One recovery, step by step\<close>

lemma on_inverter_keeps:
  "on_inverter f (r, w) = (q, r', w') \<Longrightarrow>
   lastReset r' = lastReset r \<and> sink r' = sink r \<and> notified r' = notified r"
  by (auto simp: on_inverter_def split: prod.splits)

lemma notifyAvailability_simps [simp]:
  "snd (notifyAvailability a s) = snd s"
  "rec_inverter (fst (notifyAvailability a s)) = rec_inverter (fst s)"
  "lastReset (fst (notifyAvailability a s)) = lastReset (fst s)"
  "sink (fst (notifyAvailability a s)) = sink (fst s)"
  "notified (fst (notifyAvailability a s)) = notified (fst s) @ (if sink (fst s) then [a] else [])"
  by (simp_all add: notifyAvailability_def split: prod.splits)

lemma on_inverter_fst:
  "on_inverter f s = (q, s') \<Longrightarrow>
   lastReset (fst s') = lastReset (fst s) \<and> sink (fst s') = sink (fst s) \<and> notified (fst s') = notified (fst s)"
  using on_inverter_keeps [of f "fst s" "snd s" q "fst s'" "snd s'"] by simp

text \<open>
  The ways a call can go: its operation succeeds or fails in a way that is no reason to
  recover; the first round of reconnects brings it back, or ends it; the reset is
  suppressed, refused, followed by a round that fails, or by one that succeeds.
\<close>

lemma executeWithRecovery_cases:
  assumes "executeWithRecovery h conn systemctl cfg zero operation s = (q, s')"
  obtains
    (direct) "on_inverter operation s = (q, s')" "\<And>e. q = Inl e \<Longrightarrow> \<not> isFatalModbus e"
  | (reconnected) operationErr s1 a s2 where
      "on_inverter operation s = (Inl operationErr, s1)" "isFatalModbus operationErr"
      "on_inverter (reconnectAndValidate h conn cfg operation) (notifyAvailability False s1) = (Inr a, s2)"
      "q = Inr (value_or zero a)" "s' = notifyAvailability True s2"
  | (gave_up) operationErr s1 e where
      "on_inverter operation s = (Inl operationErr, s1)" "isFatalModbus operationErr"
      "on_inverter (reconnectAndValidate h conn cfg operation) (notifyAvailability False s1) = (Inl e, s')"
      "q = Inl (EJoin [operationErr, e])" "\<not> isFatalModbus e \<or> ctx_err h (snd s') \<noteq> None"
  | (reset) operationErr s1 e s2 where
      "on_inverter operation s = (Inl operationErr, s1)" "isFatalModbus operationErr"
      "on_inverter (reconnectAndValidate h conn cfg operation) (notifyAvailability False s1) = (Inl e, s2)"
      "isFatalModbus e" "ctx_err h (snd s2) = None"
      "reset_and_reconnect h conn systemctl cfg zero operation operationErr s2 = (q, s')"
proof -
  obtain q1 s1 where first: "on_inverter operation s = (q1, s1)" by (meson surj_pair)
  show thesis
  proof (cases q1)
    case (Inr a)
    then have "q = Inr a" "s' = s1" using assms first by (simp_all add: executeWithRecovery_def)
    with first Inr direct show thesis by simp
  next
    case (Inl operationErr)
    show thesis
    proof (cases "isFatalModbus operationErr")
      case False
      then have "q = Inl operationErr" "s' = s1"
        using assms first Inl by (simp_all add: executeWithRecovery_def)
      with first Inl False direct show thesis by simp
    next
      case True
      obtain q2 s2 where second:
        "on_inverter (reconnectAndValidate h conn cfg operation) (notifyAvailability False s1) = (q2, s2)"
        by (meson surj_pair)
      show thesis
      proof (cases q2)
        case (Inr a)
        then have "q = Inr (value_or zero a)" "s' = notifyAvailability True s2"
          using assms first second Inl True by (simp_all add: executeWithRecovery_def)
        with first second Inl True Inr reconnected show thesis by simp
      next
        case e: (Inl e)
        have rest: "(if \<not> isFatalModbus e \<or> ctx_err h (snd s2) \<noteq> None then (Inl (EJoin [operationErr, e]), s2)
            else reset_and_reconnect h conn systemctl cfg zero operation operationErr s2) = (q, s')"
          using assms first second Inl True e by (simp add: executeWithRecovery_def)
        show thesis
        proof (cases "\<not> isFatalModbus e \<or> ctx_err h (snd s2) \<noteq> None")
          case True
          with rest have "q = Inl (EJoin [operationErr, e])" "s' = s2" by simp_all
          with gave_up [OF first [unfolded Inl] \<open>isFatalModbus operationErr\<close>] second e True show thesis
            by blast
        next
          case False
          with rest reset [OF first [unfolded Inl] True second [unfolded e]] show thesis by simp
        qed
      qed
    qed
  qed
qed

lemma reset_and_reconnect_cases:
  assumes "reset_and_reconnect h conn systemctl cfg zero operation operationErr (r, w) = (q, r', w')"
  obtains
    (suppressed) now where "host_now h w = (now, w')" "r' = r"
      "lastReset r \<noteq> 0" "time_sub now (lastReset r) < ResetCooldown cfg"
      "q = Inl (EJoin [operationErr, EMsg (MResetSuppressed (ResetCooldown cfg))])"
  | (refused) now w1 e where "host_now h w = (now, w1)" "systemctl w1 = (Inl e, w')" "r' = r"
      "q = Inl (EJoin [operationErr, EWrap ''request inverter reset''
        (EWrap (''start '' @ recoveryUnit) (EExt e))])"
  | (granted) now w1 w2 p s3 where "host_now h w = (now, w1)" "systemctl w1 = (Inr (), w2)"
      "lastReset r = 0 \<or> ResetCooldown cfg \<le> time_sub now (lastReset r)"
      "on_inverter (reconnectAndValidate h conn cfg operation) (r\<lparr>lastReset := now\<rparr>, w2) = (p, s3)"
      "case p of Inl e \<Rightarrow> q = Inl (EJoin [operationErr, EWrap ''reconnect after inverter reset'' e]) \<and> (r', w') = s3
        | Inr a \<Rightarrow> q = Inr (value_or zero a) \<and> (r', w') = notifyAvailability True s3"
proof -
  obtain now w1 where now: "host_now h w = (now, w1)" by fastforce
  obtain x w2 where req: "systemctl w1 = (x, w2)" by fastforce
  obtain p s3 where rc: "on_inverter (reconnectAndValidate h conn cfg operation) (r\<lparr>lastReset := now\<rparr>, w2) = (p, s3)"
    by (meson surj_pair)
  show thesis
  proof (cases "lastReset r \<noteq> 0 \<and> time_sub now (lastReset r) < ResetCooldown cfg")
    case True
    with assms now suppressed show thesis by (simp add: reset_and_reconnect_def)
  next
    case False
    show thesis
    proof (cases x)
      case (Inl e)
      with assms now req False refused show thesis
        by (auto simp: reset_and_reconnect_def RequestReset_def split: if_splits)
    next
      case (Inr u)
      have c: "lastReset r = 0 \<or> ResetCooldown cfg \<le> time_sub now (lastReset r)" using False by auto
      have "case p of Inl e \<Rightarrow> q = Inl (EJoin [operationErr, EWrap ''reconnect after inverter reset'' e]) \<and> (r', w') = s3
        | Inr a \<Rightarrow> q = Inr (value_or zero a) \<and> (r', w') = notifyAvailability True s3"
        using assms now req False Inr rc
        by (auto simp: reset_and_reconnect_def RequestReset_def split: if_splits sum.splits)
      with granted [OF now _ c rc] req Inr show thesis by simp
    qed
  qed
qed

section \<open>What a recovery tells the sink\<close>

text \<open>The notifications of one call, with what they mean for its result.\<close>

definition reported :: "bool list \<Rightarrow> err + 'a \<Rightarrow> bool" where
  "reported d q \<longleftrightarrow>
     d = [] \<and> (\<forall>e. q = Inl e \<longrightarrow> \<not> isFatalModbus e) \<or>
     d = [False, True] \<and> \<not> isl q \<or>
     d = [False] \<and> (\<exists>e x. q = Inl (EJoin [e, x]) \<and> isFatalModbus e)"

lemma notifications_of_reset:
  assumes "reset_and_reconnect h conn systemctl cfg zero operation operationErr s = (q, s')"
    and "isFatalModbus operationErr" and "sink (fst s)" and "notified (fst s) = before @ [False]"
  shows "\<exists>d. notified (fst s') = before @ d \<and> reported d q"
proof -
  obtain r w r' w' where s: "s = (r, w)" "s' = (r', w')" by (cases s; cases s') auto
  from assms(1) [unfolded s] show ?thesis
  proof (cases rule: reset_and_reconnect_cases)
    case (granted now w1 w2 p s3)
    then have "sink (fst s3)" "notified (fst s3) = before @ [False]"
      using on_inverter_fst [OF granted(4)] assms(3,4) by (simp_all add: s)
    with granted(5) assms(2) have "notified r' = before @ (if isl p then [False] else [False, True]) \<and>
        reported (if isl p then [False] else [False, True]) q"
      by (cases p) (auto simp: reported_def prod_eq_iff)
    then show ?thesis unfolding s fst_conv by blast
  qed (use assms in \<open>auto simp: s reported_def\<close>)
qed

lemma notifications_of_call:
  assumes "executeWithRecovery h conn systemctl cfg zero operation s = (q, s')" and "sink (fst s)"
  shows "\<exists>d. notified (fst s') = notified (fst s) @ d \<and> reported d q"
  using assms(1)
proof (cases rule: executeWithRecovery_cases)
  case direct
  with on_inverter_fst [OF direct(1)] show ?thesis by (auto simp: reported_def)
next
  case (reconnected operationErr s1 a s2)
  with on_inverter_fst [OF reconnected(1)] on_inverter_fst [OF reconnected(3)] assms(2) show ?thesis
    by (intro exI [of _ "[False, True]"]) (simp add: reported_def)
next
  case (gave_up operationErr s1 e)
  with on_inverter_fst [OF gave_up(1)] on_inverter_fst [OF gave_up(3)] assms(2) show ?thesis
    by (intro exI [of _ "[False]"]) (simp add: reported_def)
next
  case (reset operationErr s1 e s2)
  from on_inverter_fst [OF reset(1)] on_inverter_fst [OF reset(3)] assms(2)
  have "sink (fst s2)" "notified (fst s2) = notified (fst s) @ [False]" by simp_all
  with notifications_of_reset [OF reset(6) reset(2)] show ?thesis by blast
qed

section \<open>Work is bounded\<close>

text \<open>
  \<open>count\<close> is any measure of the connection attempts: a connect raises it by at most one and
  nothing else raises it.
\<close>

definition quiet :: "('s \<Rightarrow> nat) \<Rightarrow> ('s \<Rightarrow> 'r \<times> 's) \<Rightarrow> bool" where
  "quiet count f \<longleftrightarrow> (\<forall>s. count (snd (f s)) \<le> count s)"

definition counts_connects ::
    "('i \<times> 'w \<Rightarrow> nat) \<Rightarrow> 'w host \<Rightarrow> ('i \<times> 'w) connection \<Rightarrow> ('w, unit) ext \<Rightarrow> bool" where
  "counts_connects count h conn systemctl \<longleftrightarrow>
     (\<forall>s. count (snd (c_Connect conn s)) \<le> count s + 1) \<and> quiet count (c_Close conn) \<and>
     (\<forall>i. quiet (\<lambda>w. count (i, w)) systemctl \<and> quiet (\<lambda>w. count (i, w)) (host_now h) \<and>
        (\<forall>d. quiet (\<lambda>w. count (i, w)) (host_wait h d)))"

lemma quietD: "quiet count f \<Longrightarrow> f s = (r, s') \<Longrightarrow> count s' \<le> count s"
  by (metis quiet_def snd_conv)

lemma reconnect_loop_count:
  assumes "counts_connects count h conn systemctl" and "quiet count validate"
    and "reconnect_loop h conn cfg validate n delay e s = (q, s')"
  shows "count s' \<le> count s + n"
  using assms(3)
proof (induction n arbitrary: delay e s)
  case 0
  then show ?case by (auto split: option.splits)
next
  case (Suc n)
  obtain x i1 w1 where close: "c_Close conn s = (x, i1, w1)" by (rule prod_cases3)
  have c1: "count (i1, w1) \<le> count s"
    using assms(1) quietD close by (auto simp: counts_connects_def)
  obtain y w2 where sl: "sleepContext h delay w1 = (y, w2)" by fastforce
  have wait: "quiet (\<lambda>w. count (i1, w)) (host_wait h d)" for d
    using assms(1) by (simp add: counts_connects_def)
  have c2: "count (i1, w2) \<le> count (i1, w1)"
    using sl quietD [OF wait] by (auto simp: sleepContext_def split: if_splits prod.splits option.splits)
  show ?case
  proof (cases y)
    case (Inl err)
    with Suc.prems close sl c1 c2 show ?thesis by simp
  next
    case (Inr u)
    obtain z s3 where con: "c_Connect conn (i1, w2) = (z, s3)" by (meson surj_pair)
    have c3: "count s3 \<le> count (i1, w2) + 1"
      using assms(1) con unfolding counts_connects_def by (metis snd_conv)
    show ?thesis
    proof (cases z)
      case (Inl err)
      with Suc.prems close sl \<open>y = Inr u\<close> con
      have "reconnect_loop h conn cfg validate n (next_delay cfg delay) (Some err) s3 = (q, s')" by simp
      from Suc.IH [OF this] c1 c2 c3 show ?thesis by linarith
    next
      case (Inr v)
      obtain p s4 where val: "validate s3 = (p, s4)" by (meson surj_pair)
      have c4: "count s4 \<le> count s3" using assms(2) val by (rule quietD)
      have "(q, s') = (q, s4) \<or>
          (\<exists>err. reconnect_loop h conn cfg validate n (next_delay cfg delay) (Some err) s4 = (q, s'))"
        using Suc.prems close sl \<open>y = Inr u\<close> con Inr val by (auto split: sum.splits if_splits)
      then show ?thesis using Suc.IH c1 c2 c3 c4 by fastforce
    qed
  qed
qed

definition connects :: "('i \<times> 'w \<Rightarrow> nat) \<Rightarrow> ('i, 'w) rw \<Rightarrow> nat" where
  "connects count s = count (rec_inverter (fst s), snd s)"

lemma connects_notify [simp]: "connects count (notifyAvailability a s) = connects count s"
  by (simp add: connects_def)

lemma on_inverter_connects:
  "on_inverter f s = (q, s') \<Longrightarrow>
   \<exists>t t'. f t = (q, t') \<and> connects count s = count t \<and> connects count s' = count t'"
  by (intro exI [of _ "(rec_inverter (fst s), snd s)"] exI [of _ "(rec_inverter (fst s'), snd s')"])
    (auto simp: on_inverter_def connects_def split: prod.splits)

lemma round_count:
  assumes "counts_connects count h conn systemctl" and "quiet count validate"
    and "on_inverter (reconnectAndValidate h conn cfg validate) s = (q, s')"
  shows "connects count s' \<le> connects count s + nat (ReconnectAttempts cfg)"
proof -
  from on_inverter_connects [OF assms(3), of count] obtain t t' where
    r: "reconnectAndValidate h conn cfg validate t = (q, t')"
    and "connects count s = count t" "connects count s' = count t'" by blast
  with reconnect_loop_count [OF assms(1,2) r [unfolded reconnectAndValidate_def]] show ?thesis by simp
qed

lemma call_count:
  assumes c: "counts_connects count h conn systemctl" and op: "quiet count operation"
    and "executeWithRecovery h conn systemctl cfg zero operation s = (q, s')"
  shows "connects count s' \<le> connects count s + 2 * nat (ReconnectAttempts cfg)"
  using assms(3)
proof (cases rule: executeWithRecovery_cases)
  case direct
  with on_inverter_connects [OF direct(1), of count] quietD [OF op] show ?thesis by fastforce
next
  case (reconnected operationErr s1 a s2)
  with on_inverter_connects [OF reconnected(1), of count] quietD [OF op]
    round_count [OF c op reconnected(3)] show ?thesis by fastforce
next
  case (gave_up operationErr s1 e)
  with on_inverter_connects [OF gave_up(1), of count] quietD [OF op]
    round_count [OF c op gave_up(3)] show ?thesis by fastforce
next
  case (reset operationErr s1 e s2)
  obtain r w r' w' where s2: "s2 = (r, w)" "s' = (r', w')" by (cases s2; cases s') auto
  have before: "connects count s2 \<le> connects count s + nat (ReconnectAttempts cfg)"
    using on_inverter_connects [OF reset(1), of count] quietD [OF op]
      round_count [OF c op reset(3)] by fastforce
  have q: "quiet (\<lambda>w. count (i, w)) (host_now h)" "quiet (\<lambda>w. count (i, w)) systemctl" for i
    using c by (simp_all add: counts_connects_def)
  from reset(6) [unfolded s2] have "connects count s' \<le> connects count s2 + nat (ReconnectAttempts cfg)"
  proof (cases rule: reset_and_reconnect_cases)
    case (suppressed now)
    with quietD [OF q(1) suppressed(1), of "rec_inverter r"] show ?thesis
      by (simp add: s2 connects_def)
  next
    case (refused now w1 e)
    with quietD [OF q(1) refused(1), of "rec_inverter r"] quietD [OF q(2) refused(2), of "rec_inverter r"]
    show ?thesis by (simp add: s2 connects_def)
  next
    case (granted now w1 w2 p s3)
    have "connects count s' = connects count s3" using granted(5) by (cases p) (auto simp: s2)
    with round_count [OF c op granted(4)] quietD [OF q(1) granted(1), of "rec_inverter r"]
      quietD [OF q(2) granted(2), of "rec_inverter r"]
    show ?thesis by (simp add: s2 connects_def)
  qed
  with before show ?thesis by linarith
qed

end
