(* ===== verification/Recovery_Properties.thy ===== *)
theory Recovery_Properties
  imports Recovery
begin

text \<open>
  What a recovering inverter guarantees: it is again a data source with the same refusals,
  its successes are those of the operation, and it comes back when the device does.
\<close>

section \<open>A success is the operation's own\<close>

lemma reconnect_loop_value:
  assumes "reconnect_loop h conn cfg validate n delay e s = (Inr r, s')"
  shows "(\<exists>a t. r = Some a \<and> validate t = (Inr a, s')) \<or> r = None \<and> n = 0 \<and> e = None"
  using assms
proof (induction n arbitrary: delay e s)
  case 0
  then show ?case by (simp split: option.splits)
next
  case (Suc n)
  from Suc.prems have "(\<exists>delay x t. reconnect_loop h conn cfg validate n delay (Some x) t = (Inr r, s')) \<or>
      (\<exists>a t. r = Some a \<and> validate t = (Inr a, s'))"
    unfolding reconnect_loop.simps
    by (auto elim!: on_ok_cases split: prod.splits sum.splits if_splits) blast+
  then show ?case using Suc.IH by blast
qed

lemma round_value:
  assumes "on_inverter (reconnectAndValidate h conn cfg operation) s = (Inr r, s')"
    and "1 \<le> ReconnectAttempts cfg"
  shows "\<exists>a t t'. r = Some a \<and> operation t = (Inr a, t')"
proof -
  obtain t t' where "reconnectAndValidate h conn cfg operation t = (Inr r, t')"
    using assms(1) by (auto simp: on_inverter_def split: prod.splits)
  from reconnect_loop_value [OF this [unfolded reconnectAndValidate_def]] assms(2) show ?thesis
    by (simp del: split_paired_Ex) blast
qed

lemma call_value:
  assumes "executeWithRecovery h conn systemctl cfg zero operation s = (Inr a, s')"
    and "1 \<le> ReconnectAttempts cfg"
  shows "\<exists>t t'. operation t = (Inr a, t')"
  using assms(1)
proof (cases rule: executeWithRecovery_cases)
  case direct
  then show ?thesis by (auto simp: on_inverter_def split: prod.splits)
next
  case (reconnected operationErr s1 r s2)
  with round_value [OF reconnected(3) assms(2)] show ?thesis
    by (simp add: value_or_def del: split_paired_Ex) (metis option.simps(5))
next
  case gave_up
  then show ?thesis by simp
next
  case (reset operationErr s1 e s2)
  obtain r w r' w' where s2: "s2 = (r, w)" "s' = (r', w')" by (cases s2; cases s') auto
  from reset(6) [unfolded s2] show ?thesis
  proof (cases rule: reset_and_reconnect_cases)
    case (granted now w1 w2 p s3)
    then obtain x where p: "p = Inr x" and a: "a = value_or zero x" by (cases p) auto
    from round_value [OF granted(4) [unfolded p] assms(2)] a show ?thesis
      by (simp add: value_or_def del: split_paired_Ex) (metis option.simps(5))
  qed simp_all
qed

section \<open>A device that comes back\<close>

text \<open>
  \<open>down\<close> measures how many more connects are needed before the device answers: each connect
  lowers it while it is positive, nothing raises it, the sleeps are not cut short, and once
  it is 0 a connect succeeds and so does the operation after it.
\<close>

definition comes_back ::
    "('i \<times> 'w \<Rightarrow> nat) \<Rightarrow> 'w host \<Rightarrow> ('i \<times> 'w) connection \<Rightarrow> ('i \<times> 'w, 'a) io \<Rightarrow> bool" where
  "comes_back down h conn operation \<longleftrightarrow>
     quiet down (c_Close conn) \<and> quiet down operation \<and>
     (\<forall>i d w. \<exists>w'. host_wait h d w = (None, w') \<and> down (i, w') \<le> down (i, w)) \<and>
     (\<forall>s. down s = 0 \<longrightarrow> (\<exists>s' a t. c_Connect conn s = (Inr (), s') \<and> operation s' = (Inr a, t))) \<and>
     (\<forall>s r s'. 0 < down s \<longrightarrow> c_Connect conn s = (r, s') \<longrightarrow> down s' < down s) \<and>
     (\<forall>s e s'. operation s = (Inl e, s') \<longrightarrow> isFatalModbus e)"

lemma comes_backD:
  assumes "comes_back down h conn operation"
  shows "quiet down (c_Close conn)" and "quiet down operation"
    and "\<exists>w'. host_wait h d w = (None, w') \<and> down (i, w') \<le> down (i, w)"
    and "down s = 0 \<Longrightarrow> \<exists>s' a t. c_Connect conn s = (Inr (), s') \<and> operation s' = (Inr a, t)"
    and "0 < down s \<Longrightarrow> c_Connect conn s = (r, s') \<Longrightarrow> down s' < down s"
    and "operation s = (Inl e, s') \<Longrightarrow> isFatalModbus e"
  using assms unfolding comes_back_def by blast+

lemma comes_back_sleep:
  "comes_back down h conn operation \<Longrightarrow>
   \<exists>w'. sleepContext h d w = (Inr (), w') \<and> down (i, w') \<le> down (i, w)"
  using comes_backD(3) [of down h conn operation d w i] by (auto simp: sleepContext_def)

lemma reconnect_loop_succeeds:
  assumes c: "comes_back down h conn operation" and "down s < n"
  shows "\<exists>r s'. reconnect_loop h conn cfg operation n delay e s = (Inr r, s')"
  using assms(2)
proof (induction n arbitrary: delay e s)
  case (Suc n)
  obtain x i w1 where close: "c_Close conn s = (x, i, w1)" by (rule prod_cases3)
  from quietD [OF comes_backD(1) [OF c] close] have d1: "down (i, w1) \<le> down s" .
  obtain w2 where sl: "sleepContext h delay w1 = (Inr (), w2)" and d2: "down (i, w2) \<le> down (i, w1)"
    using comes_back_sleep [OF c] by blast
  obtain z s3 where con: "c_Connect conn (i, w2) = (z, s3)" by (meson surj_pair)
  show ?case
  proof (cases "down (i, w2) = 0")
    case True
    with comes_backD(4) [OF c True] con close sl show ?thesis by auto
  next
    case False
    then have d3: "down s3 < down (i, w2)" using comes_backD(5) [OF c _ con] by simp
    show ?thesis
    proof (cases z)
      case (Inl err)
      with Suc.IH [of s3] d1 d2 d3 Suc.prems close sl con show ?thesis by simp
    next
      case (Inr u)
      obtain q s4 where op: "operation s3 = (q, s4)" by (meson surj_pair)
      from quietD [OF comes_backD(2) [OF c] op] have "down s4 < n" using d1 d2 d3 Suc.prems by linarith
      with Suc.IH [of s4] close sl con Inr op comes_backD(6) [OF c] show ?thesis by (cases q) auto
    qed
  qed
qed simp

lemma call_succeeds:
  assumes c: "comes_back down h conn operation" and "connects down s < nat (ReconnectAttempts cfg)"
    and "executeWithRecovery h conn systemctl cfg zero operation s = (q, s')"
  shows "\<not> isl q \<and> lastReset (fst s') = lastReset (fst s)"
proof -
  have round: "\<exists>r t'. on_inverter (reconnectAndValidate h conn cfg operation) t = (Inr r, t')"
    if "connects down t \<le> connects down s" for t
  proof -
    have "down (rec_inverter (fst t), snd t) < nat (ReconnectAttempts cfg)"
      using that assms(2) by (simp add: connects_def)
    from reconnect_loop_succeeds [OF c this, of cfg "InitialBackoff cfg" None] obtain r i w
      where "reconnect_loop h conn cfg operation (nat (ReconnectAttempts cfg)) (InitialBackoff cfg) None
        (rec_inverter (fst t), snd t) = (Inr r, i, w)" by auto
    then show ?thesis
      by (cases t) (auto simp: on_inverter_def reconnectAndValidate_def)
  qed
  have failed: "connects down (notifyAvailability False s1) \<le> connects down s"
    if "on_inverter operation s = (Inl e, s1)" for e s1
    using on_inverter_connects [OF that, of down] quietD [OF comes_backD(2) [OF c]] by fastforce
  from assms(3) show ?thesis
  proof (cases rule: executeWithRecovery_cases)
    case direct
    have "\<not> isl q"
      using direct comes_backD(6) [OF c] by (cases q) (auto simp: on_inverter_def split: prod.splits)
    with on_inverter_fst [OF direct(1)] show ?thesis by simp
  next
    case (reconnected operationErr s1 a s2)
    with on_inverter_fst [OF reconnected(1)] on_inverter_fst [OF reconnected(3)] show ?thesis by simp
  next
    case (gave_up operationErr s1 e)
    with round [OF failed [OF gave_up(1)]] show ?thesis by simp
  next
    case (reset operationErr s1 e s2)
    with round [OF failed [OF reset(1)]] show ?thesis by simp
  qed
qed

section \<open>A recovering inverter is a data source\<close>

text \<open>Errors that no operation of an accepted command returns are never returned.\<close>

definition plain_errors :: "('s, 'a) io \<Rightarrow> bool" where
  "plain_errors f \<longleftrightarrow> (\<forall>s e s'. f s = (Inl e, s') \<longrightarrow> \<not> isCommandError e)"

lemma plain_errorsD: "plain_errors f \<Longrightarrow> f s = (Inl e, s') \<Longrightarrow> \<not> isCommandError e"
  by (auto simp: plain_errors_def)

locale recovering_client =
  inverter_connection "c_ReadStatus conn" "c_ReadConfig conn" "c_WriteConfig conn" "c_SyncTime conn"
    rejects "c_Connect conn" "c_Close conn"
  for conn :: "('i \<times> 'w) connection" and rejects +
  fixes h :: "'w host" and systemctl :: "('w, unit) ext" and cfg :: RecoveryConfig
begin

lemma loop_error:
  assumes "reconnect_loop h conn cfg validate n delay e s = (Inl x, s')"
    and "plain_errors validate" and "\<And>y. e = Some y \<Longrightarrow> \<not> isCommandError y"
  shows "\<not> isCommandError x"
  using assms(1,3)
proof (induction n arbitrary: delay e s)
  case 0
  then show ?case by (auto split: option.splits)
next
  case (Suc n)
  obtain y i w1 where close: "c_Close conn s = (y, i, w1)" by (rule prod_cases3)
  obtain z w2 where sl: "sleepContext h delay w1 = (z, w2)" by fastforce
  show ?case
  proof (cases z)
    case (Inl err)
    with Suc.prems close sl sleepContext_error [of h delay w1 err w2] show ?thesis by auto
  next
    case (Inr u)
    obtain p s3 where con: "c_Connect conn (i, w2) = (p, s3)" by (meson surj_pair)
    show ?thesis
    proof (cases p)
      case (Inl err)
      then have "\<not> isCommandError err" using connecting con by blast
      with Suc.IH [of "next_delay cfg delay" "Some err" s3] Suc.prems(1) close sl \<open>z = Inr u\<close> con Inl
      show ?thesis by simp
    next
      case (Inr v)
      obtain q s4 where val: "validate s3 = (q, s4)" by (meson surj_pair)
      show ?thesis
      proof (cases q)
        case err: (Inl err)
        then have "\<not> isCommandError err" using plain_errorsD [OF assms(2)] val by blast
        with Suc.IH [of "next_delay cfg delay" "Some err" s4] Suc.prems(1) close sl \<open>z = Inr u\<close> con Inr val err
        show ?thesis by (simp split: if_splits)
      next
        case ok: (Inr a)
        with Suc.prems(1) close sl \<open>z = Inr u\<close> con Inr val show ?thesis by simp
      qed
    qed
  qed
qed

lemma round_error:
  assumes "on_inverter (reconnectAndValidate h conn cfg operation) s = (Inl x, s')" and "plain_errors operation"
  shows "\<not> isCommandError x"
proof -
  obtain t t' where "reconnectAndValidate h conn cfg operation t = (Inl x, t')"
    using assms(1) by (auto simp: on_inverter_def split: prod.splits)
  from loop_error [OF this [unfolded reconnectAndValidate_def] assms(2)] show ?thesis by simp
qed

lemma call_error:
  assumes "executeWithRecovery h conn systemctl cfg zero operation s = (Inl x, s')"
    and op: "plain_errors operation"
  shows "\<not> isCommandError x"
  using assms(1)
proof (cases rule: executeWithRecovery_cases)
  case direct
  then show ?thesis using plain_errorsD [OF op] by (auto simp: on_inverter_def split: prod.splits)
next
  case (gave_up operationErr s1 e)
  have "\<not> isCommandError operationErr"
    using gave_up(1) plain_errorsD [OF op] by (auto simp: on_inverter_def split: prod.splits)
  with round_error [OF gave_up(3) op] gave_up(4) show ?thesis by simp
next
  case (reset operationErr s1 e s2)
  have e: "\<not> isCommandError operationErr"
    using reset(1) plain_errorsD [OF op] by (auto simp: on_inverter_def split: prod.splits)
  obtain r w r' w' where s2: "s2 = (r, w)" "s' = (r', w')" by (cases s2; cases s') auto
  from reset(6) [unfolded s2] show ?thesis
  proof (cases rule: reset_and_reconnect_cases)
    case (granted now w1 w2 p s3)
    with e round_error [OF _ op] show ?thesis by (cases p) auto
  qed (use e in auto)
qed simp

lemma call_refused:
  assumes "operation (rec_inverter (fst s), snd s) = (Inl e, rec_inverter (fst s), snd s)"
    and "\<not> isFatalModbus e"
  shows "executeWithRecovery h conn systemctl cfg zero operation s = (Inl e, s)"
  using assms by (cases s) (simp add: executeWithRecovery_def on_inverter_def)

end

sublocale recovering_client \<subseteq> recovered: data_source
  "rec_ReadStatus h conn systemctl cfg" "rec_ReadConfig h conn systemctl cfg"
  "rec_WriteConfig h conn systemctl cfg" "rec_SyncTime h conn systemctl cfg" rejects
proof
  fix key v e and s :: "('i, 'w) rw"
  assume r: "rejects key v = Some e"
  show "rec_WriteConfig h conn systemctl cfg key v s = (Inl e, s)"
    using call_refused [of "c_WriteConfig conn key v" s e] rejected [OF r] rejection [OF r]
    by (simp add: rec_WriteConfig_def)
next
  fix key v e
  assume "rejects key v = Some e"
  then show "isCommandError e \<and> \<not> isFatalModbus e" by (rule rejection)
next
  fix key v e and s s' :: "('i, 'w) rw"
  assume "rejects key v = None" and w: "rec_WriteConfig h conn systemctl cfg key v s = (Inl e, s')"
  then have "plain_errors (c_WriteConfig conn key v)" using accepted by (simp add: plain_errors_def)
  from call_error [OF w [unfolded rec_WriteConfig_def] this] show "\<not> isCommandError e" .
next
  fix e and s s' :: "('i, 'w) rw"
  have "plain_errors (c_ReadStatus conn)" "plain_errors (c_ReadConfig conn)"
    unfolding plain_errors_def using reading by blast+
  moreover assume "rec_ReadStatus h conn systemctl cfg s = (Inl e, s') \<or> rec_ReadConfig h conn systemctl cfg s = (Inl e, s')"
  ultimately show "\<not> isCommandError e"
    unfolding rec_ReadStatus_def rec_ReadConfig_def using call_error by metis
next
  fix e and s s' :: "('i, 'w) rw"
  assume w: "rec_SyncTime h conn systemctl cfg s = (Inl e, s')"
  have "plain_errors (c_SyncTime conn)" using syncing by (simp add: plain_errors_def)
  from call_error [OF w [unfolded rec_SyncTime_def] this] show "\<not> isCommandError e" .
qed

text \<open>The program's inverter behind the recovery.\<close>

definition inverter_conn :: "f2i \<Rightarrow> 'w host \<Rightarrow> 'w bus \<Rightarrow> 'w iw connection" where
  "inverter_conn oob h b =
     \<lparr>c_ReadStatus = inv_ReadStatus oob h b, c_ReadConfig = inv_ReadConfig oob h b,
      c_WriteConfig = inv_WriteConfig oob h b, c_SyncTime = inv_SyncTime h b,
      c_Connect = inv_Connect h b, c_Close = inv_Close b\<rparr>"

interpretation rinv: recovering_client "inverter_conn oob h b" "rejection_of oob" h systemctl cfg
  for oob h b systemctl cfg
  using inv.inverter_connection_axioms [of oob h b]
  by (simp add: recovering_client_def inverter_conn_def)

section \<open>Properties\<close>

text \<open>C32: one call of a recovering inverter tells the sink
  nothing, and then it did not fail with a connection error; or unavailable and then
  available, and then it succeeded; or unavailable only, and then it failed with an error
  that joins the connection error that started the recovery.\<close>

theorem availability_is_reported:
  assumes "executeWithRecovery h conn systemctl cfg zero operation s = (q, s')" and "sink (fst s)"
  shows "\<exists>d. notified (fst s') = notified (fst s) @ d \<and> reported d q"
  using assms by (rule notifications_of_call)


text \<open>With at least one attempt configured, a value
  returned after a recovery was returned by the operation itself in some state: recovery
  never reports a value or a success of its own.\<close>

theorem recovered_value_is_real:
  assumes "executeWithRecovery h conn systemctl cfg zero operation s = (Inr a, s')"
    and "1 \<le> ReconnectAttempts cfg"
  shows "\<exists>t t'. operation t = (Inr a, t')"
  using assms by (rule call_value)

text \<open>C14: when the device comes back within the configured number of
  attempts, the call succeeds in its first round, without a reset.\<close>

theorem recovery_succeeds:
  assumes "comes_back down h conn operation" and "connects down s < nat (ReconnectAttempts cfg)"
  shows "\<exists>a s'. executeWithRecovery h conn systemctl cfg zero operation s = (Inr a, s') \<and>
    lastReset (fst s') = lastReset (fst s)"
proof -
  obtain q s' where e: "executeWithRecovery h conn systemctl cfg zero operation s = (q, s')"
    by (meson surj_pair)
  with call_succeeds [OF assms e] show ?thesis by (cases q) (simp_all del: split_paired_Ex)
qed

text \<open>C31: a refused configuration command passes through the
  recovery untouched: the same command error, no reconnect, no notification, nothing
  changed; and no failure of an accepted command is ever taken for a refusal.\<close>

theorem refusals_pass_through:
  "case prepare_write oob key v of
     Inl e \<Rightarrow> rec_WriteConfig h (inverter_conn oob h b) systemctl cfg key v s = (Inl e, s)
   | Inr _ \<Rightarrow> (\<forall>e s'. rec_WriteConfig h (inverter_conn oob h b) systemctl cfg key v s = (Inl e, s') \<longrightarrow>
       \<not> isCommandError e)"
proof (cases "prepare_write oob key v")
  case (Inl e)
  then have "rejection_of oob key v = Some e" by (simp add: rejection_of_def)
  from rinv.recovered.rejected [OF this, of h b systemctl cfg s] Inl show ?thesis by simp
next
  case (Inr a)
  then have "rejection_of oob key v = None" by (simp add: rejection_of_def)
  from rinv.recovered.accepted [OF this, of h b systemctl cfg s] Inr show ?thesis by auto
qed

section \<open>A flaky device to try them on\<close>

text \<open>
  The world is the number of requests that still fail; the clock stands still and resets
  are granted.
\<close>

definition flaky_host :: "nat host" where
  "flaky_host =
     \<lparr>host_now = \<lambda>w. (63871200000000000000, w), host_wait = \<lambda>_ w. (None, w),
      ctx_err = \<lambda>_. None, host_zone = \<lambda>_ _. 0\<rparr>"

definition flaky_read :: "u16 \<Rightarrow> u16 \<Rightarrow> (nat, 8 word list) ext" where
  "flaky_read start count w =
     (if w = 0 then (Inr (replicate (2 * unat count) 0), w) else (Inl ''timeout'', w))"

definition flaky_bus :: "nat bus" where
  "flaky_bus =
     \<lparr>bus_connect = \<lambda>_ w. (Inr (), w - 1), bus_close = \<lambda>w. (Inr (), w),
      bus_read_input = \<lambda>_. flaky_read, bus_read_holding = \<lambda>_. flaky_read,
      bus_write_single = \<lambda>_ _ _ w. if w = 0 then (Inr (), w) else (Inl ''timeout'', w),
      bus_write_multiple = \<lambda>_ _ _ _ w. if w = 0 then (Inr (), w) else (Inl ''timeout'', w)\<rparr>"

abbreviation flaky_conn :: "nat iw connection" where
  "flaky_conn \<equiv> inverter_conn (\<lambda>_. 0) flaky_host flaky_bus"

abbreviation flaky_systemctl :: "(nat, unit) ext" where
  "flaky_systemctl \<equiv> \<lambda>w. (Inr (), w)"

definition three_attempts :: RecoveryConfig where
  "three_attempts =
     \<lparr>ReconnectAttempts = 3, InitialBackoff = second, MaxBackoff = 10 * second, ResetCooldown = 300 * second\<rparr>"

definition flaky_start :: "nat \<Rightarrow> (inverter, nat) rw" where
  "flaky_start n = (SetAvailabilitySink (NewRecoveringInverter (NewInverter second)), n)"

abbreviation flaky_sync :: "nat \<Rightarrow> (err + unit) \<times> (inverter, nat) rw" where
  "flaky_sync n \<equiv>
     executeWithRecovery flaky_host flaky_conn flaky_systemctl three_attempts () (c_SyncTime flaky_conn) (flaky_start n)"

theorem availability_is_reported_witness:
  "fst (flaky_sync 2) = Inr () \<and> notified (fst (snd (flaky_sync 2))) = [False, True] \<and>
   (\<exists>d. notified (fst (snd (flaky_sync 2))) = [] @ d \<and> reported d (fst (flaky_sync 2)))"
proof -
  have e: "flaky_sync 2 = (fst (flaky_sync 2), snd (flaky_sync 2))" by simp
  have "sink (fst (flaky_start 2))" by code_simp
  moreover have "notified (fst (flaky_start 2)) = []" by code_simp
  ultimately have "\<exists>d. notified (fst (snd (flaky_sync 2))) = [] @ d \<and> reported d (fst (flaky_sync 2))"
    using availability_is_reported [OF e] by simp
  moreover have "fst (flaky_sync 2) = Inr ()" by code_simp
  moreover have "notified (fst (snd (flaky_sync 2))) = [False, True]" by code_simp
  ultimately show ?thesis by blast
qed



lemma flaky_simps:
  "host_now flaky_host w = (63871200000000000000, w)"
  "ctx_err flaky_host w = None"
  "bus_write_multiple flaky_bus limit start count data w = (if w = 0 then (Inr (), w) else (Inl ''timeout'', w))"
  by (simp_all add: flaky_host_def flaky_bus_def)

lemma flaky_clock: "clock_values flaky_host w = (Inr [2024, 12, 31, 0, 0, 0], w)"
proof -
  have "map word_of_int (civil 0 63871200000000000000) = ([2024, 12, 31, 0, 0, 0] :: u16 list)" by code_simp
  then show ?thesis by (simp add: clock_values_def flaky_host_def nanosecond_def second_def)
qed

lemma flaky_sleep: "sleepContext flaky_host d w = (Inr (), w)"
  by (simp add: sleepContext_def flaky_host_def)

lemma flaky_sync_eq:
  "c_SyncTime flaky_conn (i, w) =
     (if w = 0 then Inr () else Inl (EFatal (EExt ''timeout'')),
      i\<lparr>client := (client i)\<lparr>lastRegisterWrite := 63871200000000000000\<rparr>\<rparr>, w)"
  by (simp add: inverter_conn_def inv_SyncTime_def on_client_def client_WriteRegisters_def flaky_clock flaky_sleep
      execute_def write_request_def from_library_def fatalModbusErrorFor_def flaky_simps)



theorem recovered_value_is_real_witness:
  "executeWithRecovery flaky_host flaky_conn flaky_systemctl three_attempts () (c_SyncTime flaky_conn) (flaky_start 4) =
     (Inr (), snd (flaky_sync 4)) \<and>
   (\<exists>t t'. c_SyncTime flaky_conn t = (Inr (), t'))"
proof -
  have "fst (flaky_sync 4) = Inr ()" by code_simp
  then have e: "flaky_sync 4 = (Inr (), snd (flaky_sync 4))" by (metis prod.collapse)
  from recovered_value_is_real [OF e] e show ?thesis by (simp add: three_attempts_def del: split_paired_Ex)
qed

theorem recovery_succeeds_witness:
  "\<exists>a s'. flaky_sync 2 = (Inr a, s') \<and> lastReset (fst s') = lastReset (fst (flaky_start 2))"
proof -
  have "comes_back snd flaky_host flaky_conn (c_SyncTime flaky_conn)"
    unfolding comes_back_def quiet_def
    by (auto simp: flaky_sync_eq split: if_splits)
      (auto simp: inverter_conn_def inv_Close_def inv_Connect_def client_Close_def client_Connect_def on_client_def
        execute_def from_library_def flaky_bus_def flaky_host_def)
  from recovery_succeeds [OF this, of "flaky_start 2" three_attempts flaky_systemctl "()"] show ?thesis
    by (simp add: connects_def flaky_start_def three_attempts_def)
qed

theorem refusals_pass_through_witness:
  "rec_WriteConfig flaky_host flaky_conn flaky_systemctl three_attempts ''FWVersion9'' (GInt64 1) (flaky_start 7) =
     (Inl (ECommand (EMsg (MInvalidKey ''FWVersion9''))), flaky_start 7)"
proof -
  have "prepare_write (\<lambda>_. 0) ''FWVersion9'' (GInt64 1) = Inl (ECommand (EMsg (MInvalidKey ''FWVersion9'')))"
    by (simp add: prepare_write_def holdingByKey_def holdingRegisters_def)
  with refusals_pass_through [where oob = "\<lambda>_. 0" and key = "''FWVersion9''" and v = "GInt64 1" and h = flaky_host
      and b = flaky_bus and systemctl = flaky_systemctl and cfg = three_attempts and s = "flaky_start 7"]
  show ?thesis by simp
qed

end
