(* ===== verification/Reset_Spacing.thy ===== *)
theory Reset_Spacing
  imports Recovery_Properties
begin

text \<open>
  The distance between resets: any sequence of calls of the recovering inverter of the
  program, run in a world that keeps a journal of the resets systemd granted.
\<close>

section \<open>A journal of resets\<close>

text \<open>
  The journal holds the last reading of the clock and, for each granted reset, the reading it
  was decided on: \<open>executeWithRecoveryLocked\<close> reads the clock right before it asks.
\<close>

record journal =
  last_reading :: gotime
  grants :: "gotime list"

type_synonym 'w journaled = "'w \<times> journal"

definition unnoted :: "('w \<Rightarrow> 'r \<times> 'w) \<Rightarrow> 'w journaled \<Rightarrow> 'r \<times> 'w journaled" where
  "unnoted f s = (case s of (w, j) \<Rightarrow> case f w of (r, w') \<Rightarrow> (r, w', j))"

definition noted_now :: "('w \<Rightarrow> gotime \<times> 'w) \<Rightarrow> 'w journaled \<Rightarrow> gotime \<times> 'w journaled" where
  "noted_now f s = (case s of (w, j) \<Rightarrow> case f w of (t, w') \<Rightarrow> (t, w', j\<lparr>last_reading := t\<rparr>))"

definition noted_reset :: "('w, unit) ext \<Rightarrow> ('w journaled, unit) ext" where
  "noted_reset systemctl s =
     (case s of (w, j) \<Rightarrow> (case systemctl w of
        (Inl e, w') \<Rightarrow> (Inl e, w', j)
      | (Inr u, w') \<Rightarrow> (Inr u, w', j\<lparr>grants := grants j @ [last_reading j]\<rparr>)))"

definition journaled_host :: "'w host \<Rightarrow> 'w journaled host" where
  "journaled_host h =
     \<lparr>host_now = noted_now (host_now h), host_wait = \<lambda>d. unnoted (host_wait h d),
      ctx_err = \<lambda>(w, j). ctx_err h w, host_zone = \<lambda>(w, j). host_zone h w\<rparr>"

definition journaled_bus :: "'w bus \<Rightarrow> 'w journaled bus" where
  "journaled_bus b =
     \<lparr>bus_connect = \<lambda>limit. unnoted (bus_connect b limit), bus_close = unnoted (bus_close b),
      bus_read_input = \<lambda>limit start count. unnoted (bus_read_input b limit start count),
      bus_read_holding = \<lambda>limit start count. unnoted (bus_read_holding b limit start count),
      bus_write_single = \<lambda>limit start v. unnoted (bus_write_single b limit start v),
      bus_write_multiple = \<lambda>limit start count data. unnoted (bus_write_multiple b limit start count data)\<rparr>"

section \<open>Sequences of calls\<close>

text \<open>The methods of the inverter, and whatever changes the world between them.\<close>

datatype 'w rec_call =
    Connects
  | Closes
  | ReadsStatus
  | ReadsConfig
  | Writes string goval
  | Syncs
  | SetsSink
  | Meanwhile "'w \<Rightarrow> 'w"

fun make_rec_call ::
    "'w host \<Rightarrow> ('i \<times> 'w) connection \<Rightarrow> ('w, unit) ext \<Rightarrow> RecoveryConfig \<Rightarrow> 'w rec_call \<Rightarrow>
     ('i, 'w) rw \<Rightarrow> ('i, 'w) rw" where
  "make_rec_call h conn systemctl cfg Connects s = snd (rec_Connect h conn systemctl cfg s)"
| "make_rec_call h conn systemctl cfg Closes s = snd (rec_Close conn s)"
| "make_rec_call h conn systemctl cfg ReadsStatus s = snd (rec_ReadStatus h conn systemctl cfg s)"
| "make_rec_call h conn systemctl cfg ReadsConfig s = snd (rec_ReadConfig h conn systemctl cfg s)"
| "make_rec_call h conn systemctl cfg (Writes key v) s = snd (rec_WriteConfig h conn systemctl cfg key v s)"
| "make_rec_call h conn systemctl cfg Syncs s = snd (rec_SyncTime h conn systemctl cfg s)"
| "make_rec_call h conn systemctl cfg SetsSink (r, w) = (SetAvailabilitySink r, w)"
| "make_rec_call h conn systemctl cfg (Meanwhile f) (r, w) = (r, f w)"

definition make_rec_calls where
  "make_rec_calls h conn systemctl cfg = fold (make_rec_call h conn systemctl cfg)"

fun journaled_call :: "'w rec_call \<Rightarrow> 'w journaled rec_call" where
  "journaled_call Connects = Connects"
| "journaled_call Closes = Closes"
| "journaled_call ReadsStatus = ReadsStatus"
| "journaled_call ReadsConfig = ReadsConfig"
| "journaled_call (Writes key v) = Writes key v"
| "journaled_call Syncs = Syncs"
| "journaled_call SetsSink = SetsSink"
| "journaled_call (Meanwhile f) = Meanwhile (map_prod f id)"

text \<open>The recovering inverter of the program with its journal, from its creation.\<close>

definition journaled_run ::
    "f2i \<Rightarrow> 'w host \<Rightarrow> 'w bus \<Rightarrow> ('w, unit) ext \<Rightarrow> RecoveryConfig \<Rightarrow> duration \<Rightarrow> 'w rec_call list \<Rightarrow> 'w \<Rightarrow>
     (inverter, 'w journaled) rw" where
  "journaled_run oob h b systemctl cfg timeout calls w =
     make_rec_calls (journaled_host h) (inverter_conn oob (journaled_host h) (journaled_bus b))
       (noted_reset systemctl) cfg (map journaled_call calls)
       (NewRecoveringInverter (NewInverter timeout), w, \<lparr>last_reading = 0, grants = []\<rparr>)"

section \<open>Nothing else is noted\<close>

definition keeps :: "('s \<Rightarrow> 'x) \<Rightarrow> ('s \<Rightarrow> 'r \<times> 's) \<Rightarrow> bool" where
  "keeps p f \<longleftrightarrow> (\<forall>s. p (snd (f s)) = p s)"

named_theorems keeping

lemma keepsD: "keeps p f \<Longrightarrow> f s = (r, s') \<Longrightarrow> p s' = p s"
  by (metis keeps_def snd_conv)

lemma keeps_on_ok:
  assumes "p (snd m) = p s" and "\<And>a t. p (snd (f a t)) = p t"
  shows "p (snd (on_ok m f)) = p s"
  using assms by (cases m; cases "fst m") auto

text \<open>\<open>host_keeps\<close> and \<open>bus_keeps\<close>: no function of a host or a bus changes what \<open>p\<close> shows.\<close>

definition host_keeps :: "('w \<Rightarrow> 'x) \<Rightarrow> 'w host \<Rightarrow> bool" where
  "host_keeps p h \<longleftrightarrow> keeps p (host_now h) \<and> (\<forall>d. keeps p (host_wait h d))"

definition bus_keeps :: "('w \<Rightarrow> 'x) \<Rightarrow> 'w bus \<Rightarrow> bool" where
  "bus_keeps p b \<longleftrightarrow>
     (\<forall>limit. keeps p (bus_connect b limit)) \<and> keeps p (bus_close b) \<and>
     (\<forall>limit start count. keeps p (bus_read_input b limit start count)) \<and>
     (\<forall>limit start count. keeps p (bus_read_holding b limit start count)) \<and>
     (\<forall>limit start v. keeps p (bus_write_single b limit start v)) \<and>
     (\<forall>limit start count data. keeps p (bus_write_multiple b limit start count data))"

lemma journaled_keeps:
  "host_keeps (\<lambda>s. grants (snd s)) (journaled_host h)"
  "bus_keeps (\<lambda>s. grants (snd s)) (journaled_bus b)"
  by (auto simp: host_keeps_def bus_keeps_def keeps_def journaled_host_def journaled_bus_def unnoted_def
      noted_now_def split: prod.splits)

lemma keepsI: "(\<And>s r s'. f s = (r, s') \<Longrightarrow> p s' = p s) \<Longrightarrow> keeps p f"
  by (metis keeps_def prod.collapse)

lemma keeps_from_library [keeping]: "keeps p f \<Longrightarrow> keeps p (from_library f)"
  by (rule keepsI) (auto simp: from_library_def split: prod.splits sum.splits dest: keepsD)

lemma keeps_execute [keeping]: "(\<And>limit. keeps p (f limit)) \<Longrightarrow> keeps p (execute h c f)"
  by (rule keepsI) (auto simp: execute_def fatalModbusErrorFor_def split: prod.splits sum.splits option.splits
      dest: keepsD)

lemma keeps_on_world [keeping]: "keeps p f \<Longrightarrow> keeps (\<lambda>s. p (snd s)) (on_world f)"
  by (rule keepsI) (auto simp: on_world_def split: prod.splits dest: keepsD)

lemma keeps_on_client [keeping]: "keeps (\<lambda>s. p (snd s)) f \<Longrightarrow> keeps (\<lambda>s. p (snd s)) (on_client f)"
  by (rule keepsI) (auto simp: on_client_def split: prod.splits dest: keepsD)

lemma keeps_sleepContext [keeping]: "host_keeps p h \<Longrightarrow> keeps p (sleepContext h d)"
  by (rule keepsI) (auto simp: host_keeps_def sleepContext_def split: prod.splits option.splits if_splits dest: keepsD)

lemma keeps_on_ok' [keeping]:
  assumes "keeps p f" and "\<And>a. keeps p (g a)"
  shows "keeps p (\<lambda>s. on_ok (f s) g)"
proof (rule keepsI)
  fix s r s'
  assume "on_ok (f s) g = (r, s')"
  then show "p s' = p s"
    by (cases rule: on_ok_cases) (auto dest!: keepsD [OF assms(1)] keepsD [OF assms(2)])
qed

section \<open>The client and the inverter note nothing\<close>

lemma keeps_write_request [keeping]: "bus_keeps p b \<Longrightarrow> keeps p (write_request b start ws limit)"
  by (auto simp: write_request_def bus_keeps_def intro: keeping split: list.splits)

lemma keeps_read [keeping]:
  assumes "\<And>limit. keeps p (f limit)"
  shows "keeps (\<lambda>s. p (snd s)) (\<lambda>(c, w). on_ok (on_world (execute h c (\<lambda>limit. from_library (f limit))) (c, w))
      (\<lambda>result s'. (Inr (g result), s')))"
proof (rule keepsI, clarify)
  fix c w r c' w'
  assume "on_ok (on_world (execute h c (\<lambda>limit. from_library (f limit))) (c, w)) (\<lambda>result s'. (Inr (g result), s')) = (r, c', w')"
  moreover have "keeps p (execute h c (\<lambda>limit. from_library (f limit)))" using assms by (intro keeping)
  ultimately show "p (snd (c', w')) = p (snd (c, w))"
    by (auto simp: on_world_def elim!: on_ok_cases split: prod.splits dest: keepsD)
qed

lemma keeps_client [keeping]:
  assumes "host_keeps p h" and "bus_keeps p b"
  shows "keeps (\<lambda>s. p (snd s)) (client_Connect h b)"
    and "keeps (\<lambda>s. p (snd s)) (client_Close b)"
    and "keeps (\<lambda>s. p (snd s)) (client_ReadInputRegisters h b start count)"
    and "keeps (\<lambda>s. p (snd s)) (client_ReadHoldingRegisters h b start count)"
proof -
  have b: "keeps p (bus_connect b limit)" "keeps p (bus_close b)" "keeps p (bus_read_input b limit n m)"
    "keeps p (bus_read_holding b limit n m)" for limit n m
    using assms(2) by (simp_all add: bus_keeps_def)
  have e: "keeps p (execute h c (\<lambda>limit. from_library (bus_connect b limit)))" for c by (intro keeping b)
  show "keeps (\<lambda>s. p (snd s)) (client_Connect h b)"
    by (intro keepsI) (auto simp: client_Connect_def split: prod.splits dest: keepsD [OF e])
  have "keeps p (from_library (bus_close b))" by (intro keeping b)
  then show "keeps (\<lambda>s. p (snd s)) (client_Close b)"
    by (intro keepsI) (auto simp: client_Close_def split: prod.splits dest: keepsD)
  show "keeps (\<lambda>s. p (snd s)) (client_ReadInputRegisters h b start count)"
    "keeps (\<lambda>s. p (snd s)) (client_ReadHoldingRegisters h b start count)"
    unfolding client_ReadInputRegisters_def client_ReadHoldingRegisters_def by (intro keeps_read b)+
qed

lemma keeps_client_write [keeping]:
  assumes "host_keeps p h" and "bus_keeps p b" and "keeps p vals"
  shows "keeps (\<lambda>s. p (snd s)) (client_WriteRegisters h b start vals)"
proof (rule keepsI, clarify)
  fix c w r c' w'
  have now: "keeps p (host_now h)" using assms(1) by (simp add: host_keeps_def)
  have sleep: "keeps p (sleepContext h d)" for d using assms(1) by (rule keeping)
  have wait: "p w1 = p w" if "waited h c w w1" for w1
    using that keepsD [OF now] keepsD [OF sleep] unfolding waited_def by metis
  have exec: "keeps p (execute h c (write_request b start ws))" for ws by (intro keeping assms)
  assume "client_WriteRegisters h b start vals (c, w) = (r, c', w')"
  then have "p w' = p w"
  proof (cases rule: client_WriteRegisters_cases)
    case (waiting e t w1)
    then show ?thesis using keepsD [OF now] keepsD [OF sleep] by metis
  next
    case (valueless e w1)
    then show ?thesis using wait keepsD [OF assms(3)] by metis
  next
    case (requested w1 ws w2 w3 written)
    then show ?thesis using wait keepsD [OF assms(3)] keepsD [OF exec] keepsD [OF now] by metis
  qed
  then show "p (snd (c', w')) = p (snd (c, w))" by simp
qed

lemma keeps_window [keeping]:
  assumes "\<And>start count. keeps p (reader start count)"
  shows "keeps p (readRegisterWindow reader win)"
  by (rule keepsI) (auto simp: readRegisterWindow_def elim!: on_ok_cases split: if_splits dest: keepsD [OF assms])

lemma keeps_read_windows [keeping]:
  assumes "\<And>start count. keeps p (reader start count)"
  shows "keeps p (read_windows reader wins registers)"
proof (induction wins arbitrary: registers)
  case (Cons win wins)
  show ?case
    by (rule keepsI) (auto elim!: on_ok_cases split: if_splits dest!: keepsD [OF assms] keepsD [OF Cons.IH])
qed (simp add: keeps_def)

lemma keeps_windows [keeping]:
  assumes "\<And>start count. keeps p (reader start count)"
  shows "keeps p (readRegisterWindows reader wins)"
  by (rule keepsI) (auto simp: readRegisterWindows_def Let_def dest: keepsD [OF keeps_read_windows [OF assms]])

lemma keeps_clock_values [keeping]:
  assumes "host_keeps p h"
  shows "keeps p (clock_values h)"
proof -
  have now: "keeps p (host_now h)" using assms by (simp add: host_keeps_def)
  have sleep: "keeps p (sleepContext h d)" for d using assms by (rule keeping)
  show ?thesis
    by (rule keepsI) (auto simp: clock_values_def Let_def elim!: on_ok_cases split: prod.splits if_splits
        dest!: keepsD [OF now] keepsD [OF sleep])
qed

text \<open>Every operation of a connection keeps what \<open>p\<close> shows of the world.\<close>

definition conn_keeps :: "('w \<Rightarrow> 'x) \<Rightarrow> ('i \<times> 'w) connection \<Rightarrow> bool" where
  "conn_keeps p conn \<longleftrightarrow>
     keeps (\<lambda>s. p (snd s)) (c_ReadStatus conn) \<and> keeps (\<lambda>s. p (snd s)) (c_ReadConfig conn) \<and>
     (\<forall>key v. keeps (\<lambda>s. p (snd s)) (c_WriteConfig conn key v)) \<and> keeps (\<lambda>s. p (snd s)) (c_SyncTime conn) \<and>
     keeps (\<lambda>s. p (snd s)) (c_Connect conn) \<and> keeps (\<lambda>s. p (snd s)) (c_Close conn)"

lemma inverter_keeps:
  assumes "host_keeps p h" and "bus_keeps p b"
  shows "conn_keeps p (inverter_conn oob h b)"
proof -
  have status: "keeps (\<lambda>s. p (snd s)) (on_client (readRegisterWindow (client_ReadInputRegisters h b) win))" for win
    by (intro keeping assms)
  have config: "keeps (\<lambda>s. p (snd s)) (on_client (readRegisterWindows (client_ReadHoldingRegisters h b) wins))" for wins
    by (intro keeping assms)
  have writing: "keeps (\<lambda>s. p (snd s)) (on_client (client_WriteRegisters h b start (\<lambda>w. (Inr vals, w))))" for start vals
    by (intro keeping assms) (simp add: keeps_def)
  have "keeps (\<lambda>s. p (snd s)) (inv_ReadStatus oob h b)"
    by (rule keepsI) (auto simp: inv_ReadStatus_def elim!: on_ok_cases dest: keepsD [OF status])
  moreover have "keeps (\<lambda>s. p (snd s)) (inv_ReadConfig oob h b)"
    by (rule keepsI) (auto simp: inv_ReadConfig_def on_ok_def split: prod.splits sum.splits dest: keepsD [OF config])
  moreover have "keeps (\<lambda>s. p (snd s)) (inv_WriteConfig oob h b key v)" for key v
    by (rule keepsI) (auto simp: inv_WriteConfig_def elim!: on_ok_cases split: sum.splits prod.splits dest: keepsD [OF writing])
  moreover have "keeps (\<lambda>s. p (snd s)) (inv_SyncTime h b)"
    unfolding inv_SyncTime_def by (intro keeping assms)
  moreover have "keeps (\<lambda>s. p (snd s)) (inv_Connect h b)" "keeps (\<lambda>s. p (snd s)) (inv_Close b)"
    unfolding inv_Connect_def inv_Close_def by (intro keeping keeps_client [of p h b] assms)+
  ultimately show ?thesis by (simp add: conn_keeps_def inverter_conn_def)
qed

lemma keeps_reconnect_loop:
  assumes "host_keeps p h" and "conn_keeps p conn" and "keeps (\<lambda>s. p (snd s)) validate"
  shows "keeps (\<lambda>s. p (snd s)) (reconnect_loop h conn cfg validate n delay e)"
proof (induction n arbitrary: delay e)
  case 0
  show ?case by (simp add: keeps_def split: option.splits)
next
  case (Suc n)
  have c: "keeps (\<lambda>s. p (snd s)) (c_Close conn)" "keeps (\<lambda>s. p (snd s)) (c_Connect conn)"
    using assms(2) by (simp_all add: conn_keeps_def)
  have sleep: "keeps (\<lambda>s. p (snd s)) (on_world (sleepContext h delay))" for delay
    by (intro keeping assms)
  show ?case
  proof (rule keepsI)
    fix s r s'
    assume run: "reconnect_loop h conn cfg validate (Suc n) delay e s = (r, s')"
    obtain x s1 where close: "c_Close conn s = (x, s1)" by (meson surj_pair)
    from run show "p (snd s') = p (snd s)"
      unfolding reconnect_loop.simps close prod.case
      using keepsD [OF c(1) close]
      by (auto elim!: on_ok_cases split: prod.splits sum.splits if_splits
          dest!: keepsD [OF sleep] keepsD [OF c(2)] keepsD [OF assms(3)] keepsD [OF Suc.IH])
  qed
qed

lemma keeps_reconnect:
  assumes "host_keeps p h" and "conn_keeps p conn" and "keeps (\<lambda>s. p (snd s)) operation"
  shows "keeps (\<lambda>s. p (snd s)) (on_inverter (reconnectAndValidate h conn cfg operation))"
  by (rule keepsI) (auto simp: on_inverter_def reconnectAndValidate_def split: prod.splits
      dest: keepsD [OF keeps_reconnect_loop [OF assms]])

lemma keeps_on_inverter:
  "keeps (\<lambda>s. p (snd s)) operation \<Longrightarrow> keeps (\<lambda>s. p (snd s)) (on_inverter operation)"
  by (rule keepsI) (auto simp: on_inverter_def split: prod.splits dest: keepsD)

section \<open>The invariant\<close>

lemma time_sub_at_least:
  "min_int64 < d \<Longrightarrow> d \<le> time_sub t u \<Longrightarrow> u + d \<le> t"
  by (auto simp: time_sub_def min_int64_def max_int64_def)

text \<open>The resets granted so far are the cooldown apart, and \<open>lastReset\<close> is the last of them.\<close>

fun cooled :: "RecoveryConfig \<Rightarrow> ('i, 'w journaled) rw \<Rightarrow> bool" where
  "cooled cfg (r, w, j) \<longleftrightarrow>
     sorted_wrt (\<lambda>a b. a + ResetCooldown cfg \<le> b) (grants j) \<and> (\<forall>a \<in> set (grants j). 0 < a \<and> a \<le> lastReset r) \<and>
     lastReset r = (if grants j = [] then 0 else last (grants j))"

lemma cooled_keeps:
  assumes "cooled cfg s" and "lastReset (fst s') = lastReset (fst s)"
    and "grants (snd (snd s')) = grants (snd (snd s))"
  shows "cooled cfg s'"
  using assms by (cases s; cases s') (auto split: if_splits)

lemma reset_cooled:
  assumes cool: "0 < ResetCooldown cfg" and now: "\<And>w. 0 < fst (host_now h w)"
    and conn: "conn_keeps (\<lambda>s. grants (snd s)) conn" and op: "keeps (\<lambda>s. grants (snd (snd s))) operation"
    and run: "reset_and_reconnect (journaled_host h) conn (noted_reset systemctl) cfg zero operation e s = (q, s')"
    and old: "cooled cfg s"
  shows "cooled cfg s'"
proof -
  obtain r w j r' v where s: "s = (r, w, j)" "s' = (r', v)" by (cases s; cases s') auto
  have n: "grants (snd w1) = grants j \<and> last_reading (snd w1) = t \<and> 0 < t"
    if "host_now (journaled_host h) (w, j) = (t, w1)" for t w1
    using that now [of w] by (auto simp: journaled_host_def noted_now_def split: prod.splits)
  from run [unfolded s] show ?thesis
  proof (cases rule: reset_and_reconnect_cases)
    case (suppressed t)
    with n old show ?thesis by (intro cooled_keeps [OF old]) (auto simp: s)
  next
    case (refused t w1 x)
    then have "grants (snd v) = grants (snd w1)" by (auto simp: noted_reset_def split: prod.splits sum.splits)
    with n [OF refused(1)] refused(3) show ?thesis by (intro cooled_keeps [OF old]) (auto simp: s)
  next
    case (granted t w1 w2 p s3)
    have "grants (snd w2) = grants (snd w1) @ [last_reading (snd w1)]"
      using granted(2) by (auto simp: noted_reset_def split: prod.splits sum.splits)
    with n [OF granted(1)] have g: "grants (snd w2) = grants j @ [t]" "0 < t" by simp_all
    have apart: "lastReset r = 0 \<or> lastReset r + ResetCooldown cfg \<le> t"
      using granted(3) cool time_sub_at_least [of "ResetCooldown cfg" t "lastReset r"] by (auto simp: min_int64_def)
    have "0 < a \<and> a + ResetCooldown cfg \<le> t" if "a \<in> set (grants j)" for a
      using that old apart by (fastforce simp: s)
    with old cool g have "cooled cfg (r\<lparr>lastReset := t\<rparr>, w2)"
      by (cases w2) (force simp: s sorted_wrt_append)
    moreover have "grants (snd (snd s3)) = grants (snd w2)"
      using keepsD [OF keeps_reconnect [OF journaled_keeps(1) conn op] granted(4)] by simp
    ultimately have "cooled cfg s3"
      using cooled_keeps [of cfg "(r\<lparr>lastReset := t\<rparr>, w2)" s3] on_inverter_fst [OF granted(4)] by simp
    with granted(5) show ?thesis by (cases p) (auto simp: s intro: cooled_keeps)
  qed
qed

lemma execute_cooled:
  assumes cool: "0 < ResetCooldown cfg" and now: "\<And>w. 0 < fst (host_now h w)"
    and conn: "conn_keeps (\<lambda>s. grants (snd s)) conn" and op: "keeps (\<lambda>s. grants (snd (snd s))) operation"
    and old: "cooled cfg s"
  shows "cooled cfg (snd (executeWithRecovery (journaled_host h) conn (noted_reset systemctl) cfg zero operation s))"
proof -
  obtain q s' where run: "executeWithRecovery (journaled_host h) conn (noted_reset systemctl) cfg zero operation s = (q, s')"
    by (meson surj_pair)
  note direct_keeps = keepsD [OF keeps_on_inverter [OF op]]
  note round_keeps = keepsD [OF keeps_reconnect [OF journaled_keeps(1) conn op]]
  have first: "cooled cfg s1" if "on_inverter operation s = (x, s1)" for x s1
    using old by (rule cooled_keeps) (use on_inverter_fst [OF that] direct_keeps [OF that] in simp_all)
  have second: "cooled cfg s2"
    if "on_inverter operation s = (x, s1)"
      "on_inverter (reconnectAndValidate (journaled_host h) conn cfg operation) (notifyAvailability False s1) = (y, s2)"
    for x y s1 s2
    using first [OF that(1)]
    by (rule cooled_keeps) (use on_inverter_fst [OF that(2)] round_keeps [OF that(2)] in simp_all)
  from run have "cooled cfg s'"
  proof (cases rule: executeWithRecovery_cases)
    case direct
    then show ?thesis by (simp add: first)
  next
    case (reconnected e s1 a s2)
    from cooled_keeps [OF second [OF reconnected(1,3)], of "notifyAvailability True s2"] reconnected(5)
    show ?thesis by simp
  next
    case (gave_up e s1 x)
    then show ?thesis using second by blast
  next
    case (reset e s1 x s2)
    from second [OF reset(1,3)] show ?thesis by (rule reset_cooled [OF cool now conn op reset(6)])
  qed
  with run show ?thesis by simp
qed

lemma call_cooled:
  assumes "0 < ResetCooldown cfg" and "\<And>w. 0 < fst (host_now h w)"
    and conn: "conn_keeps (\<lambda>s. grants (snd s)) conn" and "cooled cfg s"
  shows "cooled cfg (make_rec_call (journaled_host h) conn (noted_reset systemctl) cfg (journaled_call x) s)"
proof (cases x)
  case Closes
  have "keeps (\<lambda>s. grants (snd (snd s))) (rec_Close conn)"
    unfolding rec_Close_def
    by (rule keeps_on_inverter [where p = "\<lambda>s. grants (snd s)"]) (use conn in \<open>simp add: conn_keeps_def\<close>)
  moreover obtain q s' where "rec_Close conn s = (q, s')" by (meson surj_pair)
  ultimately show ?thesis
    using Closes assms(4) on_inverter_fst [of "c_Close conn" s q s']
    by (auto simp: rec_Close_def dest: keepsD intro: cooled_keeps)
next
  case SetsSink
  then show ?thesis using assms(4) by (cases s) (auto simp: SetAvailabilitySink_def)
next
  case (Meanwhile f)
  then show ?thesis using assms(4) by (cases s) auto
qed (use conn in \<open>auto simp: conn_keeps_def rec_Connect_def rec_ReadStatus_def rec_ReadConfig_def rec_WriteConfig_def
      rec_SyncTime_def intro!: execute_cooled [OF assms(1,2) conn _ assms(4)]\<close>)

lemma calls_cooled:
  assumes "0 < ResetCooldown cfg" and "\<And>w. 0 < fst (host_now h w)"
    and "conn_keeps (\<lambda>s. grants (snd s)) conn" and "cooled cfg s"
  shows "cooled cfg (make_rec_calls (journaled_host h) conn (noted_reset systemctl) cfg (map journaled_call calls) s)"
  using assms(4)
proof (induction calls arbitrary: s)
  case (Cons x calls)
  then show ?case using call_cooled [OF assms(1-3)] by (simp add: make_rec_calls_def)
qed (simp add: make_rec_calls_def)

text \<open>C3: whatever sequence of calls is made of the recovering inverter
  from its creation, with whatever happens in the world between them, any two resets that
  systemd granted were decided on clock readings at least the configured cooldown apart, and
  \<open>lastReset\<close> is the reading of the last one. The clock is past the zero time.\<close>

theorem resets_cool_down:
  assumes "0 < ResetCooldown cfg" and "\<And>w. 0 < fst (host_now h w)"
    and "journaled_run oob h b systemctl cfg timeout calls w = (r, w', j)"
  shows "sorted_wrt (\<lambda>a b. a + ResetCooldown cfg \<le> b) (grants j) \<and>
    lastReset r = (if grants j = [] then 0 else last (grants j))"
proof -
  have "cooled cfg (NewRecoveringInverter (NewInverter timeout), w, \<lparr>last_reading = 0, grants = []\<rparr>)"
    by (simp add: NewRecoveringInverter_def)
  from calls_cooled [OF assms(1,2) inverter_keeps [OF journaled_keeps] this] assms(3)
  have "cooled cfg (r, w', j)" unfolding journaled_run_def by metis
  then show ?thesis by simp
qed

text \<open>
  A line on which every request times out; the world is the clock. The second failure falls
  into the cooldown of the first reset, the third does not.
\<close>

definition dead_host :: "gotime host" where
  "dead_host =
     \<lparr>host_now = \<lambda>w. (max 1 w, w), host_wait = \<lambda>d w. (None, w + max 0 d), ctx_err = \<lambda>_. None, host_zone = \<lambda>_ _. 0\<rparr>"

definition dead_bus :: "gotime bus" where
  "dead_bus =
     \<lparr>bus_connect = \<lambda>_ w. (Inl ''timeout'', w), bus_close = \<lambda>w. (Inr (), w),
      bus_read_input = \<lambda>_ _ _ w. (Inl ''timeout'', w), bus_read_holding = \<lambda>_ _ _ w. (Inl ''timeout'', w),
      bus_write_single = \<lambda>_ _ _ w. (Inl ''timeout'', w), bus_write_multiple = \<lambda>_ _ _ _ w. (Inl ''timeout'', w)\<rparr>"

theorem resets_cool_down_witness:
  "grants (snd (snd (journaled_run (\<lambda>_. 0) dead_host dead_bus (\<lambda>w. (Inr (), w)) three_attempts second
      [ReadsStatus, ReadsStatus, Meanwhile (\<lambda>w. w + 600 * second), ReadsStatus] second))) = [8 * second, 629 * second] \<and>
   sorted_wrt (\<lambda>a b. a + 300 * second \<le> b) [8 * second, 629 * second]"
proof -
  let ?run = "journaled_run (\<lambda>_. 0) dead_host dead_bus (\<lambda>w. (Inr (), w)) three_attempts second
      [ReadsStatus, ReadsStatus, Meanwhile (\<lambda>w. w + 600 * second), ReadsStatus] second"
  have g: "grants (snd (snd ?run)) = [8 * second, 629 * second]" by code_simp
  have e: "?run = (fst ?run, fst (snd ?run), snd (snd ?run))" by simp
  have "0 < fst (host_now dead_host w)" for w by (simp add: dead_host_def)
  moreover have "0 < ResetCooldown three_attempts" by code_simp
  ultimately show ?thesis using resets_cool_down [OF _ _ e] g by (simp add: three_attempts_def)
qed

end
