(* ===== verification/Clock_Watchdog.thy ===== *)
theory Clock_Watchdog
  imports Go_Runtime
begin

text \<open>
  The clock watchdog (\<open>src/clock_watchdog.go\<close>): two samples of the wall clock and of the
  monotonic clock tell whether the host's time was set or its zone changed.
\<close>

definition clockWatchdogInterval :: duration where "clockWatchdogInterval = second"
definition clockJumpTolerance :: duration where "clockJumpTolerance = 500 * millisecond"

text \<open>\<open>wall\<close> has its monotonic reading stripped: it is the wall clock alone.\<close>

record clockSample =
  wall :: gotime
  monotonic :: duration
  zoneName :: string
  zoneOffset :: int

text \<open>The state of a \<open>clockWatchdog\<close> is its previous sample.\<close>

type_synonym clockWatchdog = clockSample

text \<open>
  A reading of \<open>time.Now\<close>: its wall clock, the monotonic reading it carries and its zone.
  \<open>newClockWatchdog\<close> takes samples relative to its start: \<open>Round(0)\<close> strips the monotonic
  reading, and \<open>Sub\<close> of two readings that have one uses it alone.
\<close>

record now_reading =
  now_wall :: gotime
  now_monotonic :: int
  now_zone :: "string \<times> int"

definition sample_at :: "now_reading \<Rightarrow> now_reading \<Rightarrow> clockSample" where
  "sample_at start now =
     \<lparr>wall = now_wall now, monotonic = time_sub (now_monotonic now) (now_monotonic start),
      zoneName = fst (now_zone now), zoneOffset = snd (now_zone now)\<rparr>"

definition newClockWatchdog :: "now_reading \<Rightarrow> now_reading \<Rightarrow> clockWatchdog" where
  "newClockWatchdog start first = sample_at start first"

definition absDuration :: "duration \<Rightarrow> duration" where
  "absDuration v = (if v < 0 then wrap64 (- v) else v)"

definition Check :: "clockSample \<Rightarrow> clockWatchdog \<Rightarrow> bool \<times> clockWatchdog" where
  "Check current previous =
     (let wallElapsed = time_sub (wall current) (wall previous);
          monotonicElapsed = wrap64 (monotonic current - monotonic previous);
          jump = wrap64 (wallElapsed - monotonicElapsed);
          clockJumped = absDuration jump \<ge> clockJumpTolerance;
          zoneChanged = zoneName current \<noteq> zoneName previous \<or> zoneOffset current \<noteq> zoneOffset previous
      in (if \<not> clockJumped \<and> \<not> zoneChanged then False else True, current))"

lemma Check_keeps [simp]: "snd (Check current previous) = current"
  by (simp add: Check_def Let_def)

text \<open>Two samples that are less than 146 years apart on both clocks.\<close>

definition samples_near :: "clockSample \<Rightarrow> clockSample \<Rightarrow> bool" where
  "samples_near a b \<longleftrightarrow>
     \<bar>wall a - wall b\<bar> < 2 ^ 62 \<and> \<bar>monotonic a - monotonic b\<bar> < 2 ^ 62"

lemma absDuration_small: "\<bar>v\<bar> < 2 ^ 63 \<Longrightarrow> absDuration v = \<bar>v\<bar>"
  by (auto simp: absDuration_def wrap64_id in_int64_def min_int64_def max_int64_def)

text \<open>C37: for samples less than 146 years apart the watchdog
  reports a change exactly when the two clocks disagree on the time that passed by half a
  second or more, in either direction, or the zone's name or offset differs; and the next
  check always compares with the sample just taken.\<close>

theorem watchdog_sees_changes:
  assumes "samples_near current previous"
  shows "Check current previous =
    (500 * millisecond \<le> \<bar>(wall current - wall previous) - (monotonic current - monotonic previous)\<bar> \<or>
     zoneName current \<noteq> zoneName previous \<or> zoneOffset current \<noteq> zoneOffset previous, current)"
proof -
  define a b where "a = wall current - wall previous" and "b = monotonic current - monotonic previous"
  have "\<bar>a\<bar> < 2 ^ 62" "\<bar>b\<bar> < 2 ^ 62" using assms by (simp_all add: samples_near_def a_def b_def)
  then have ab: "\<bar>a\<bar> < 4611686018427387904" "\<bar>b\<bar> < 4611686018427387904" by simp_all
  then have "\<bar>a - b\<bar> < 9223372036854775808" by linarith
  then have diff: "\<bar>a - b\<bar> < 2 ^ 63" and "in_int64 (a - b)"
    by (simp_all add: in_int64_def min_int64_def max_int64_def abs_less_iff)
  moreover have "in_int64 a" "in_int64 b"
    using ab by (simp_all add: in_int64_def min_int64_def max_int64_def abs_less_iff)
  moreover have "time_sub (wall current) (wall previous) = a"
    using ab by (simp add: time_sub_def min_int64_def max_int64_def abs_less_iff flip: a_def)
  ultimately show ?thesis
    by (auto simp: Check_def Let_def wrap64_id absDuration_small clockJumpTolerance_def
        simp flip: a_def b_def)
qed

theorem watchdog_sees_changes_witness:
  "samples_near \<lparr>wall = 9000000000, monotonic = 1000000000, zoneName = ''CET'', zoneOffset = 3600\<rparr>
     \<lparr>wall = 4000000000, monotonic = 5, zoneName = ''CET'', zoneOffset = 3600\<rparr> \<and>
   fst (Check \<lparr>wall = 9000000000, monotonic = 1000000000, zoneName = ''CET'', zoneOffset = 3600\<rparr>
     \<lparr>wall = 4000000000, monotonic = 5, zoneName = ''CET'', zoneOffset = 3600\<rparr>)"
proof -
  have "samples_near \<lparr>wall = 9000000000, monotonic = 1000000000, zoneName = ''CET'', zoneOffset = 3600\<rparr>
     \<lparr>wall = 4000000000, monotonic = 5, zoneName = ''CET'', zoneOffset = 3600\<rparr>"
    by (simp add: samples_near_def)
  from watchdog_sees_changes [OF this] this show ?thesis by (simp add: millisecond_def)
qed

end
