(* ===== verification/Polling.thy ===== *)
theory Polling
  imports Recovery Clock_Watchdog
begin

text \<open>
  The polling service (\<open>src/polling.go\<close>): the loop that owns the inverter. It writes queued
  configuration commands, reads configuration and status when they are due, checks the
  clock and sets the inverter's time. Other goroutines only reach it through a queue of 32
  commands, two channels of one token each, and two atomics.
\<close>

section \<open>State\<close>

definition syncTimeInterval :: duration where "syncTimeInterval = 6 * hour"
definition configReadbackDelay :: duration where "configReadbackDelay = 2 * second"
definition pollCommandQueueSize :: nat where "pollCommandQueueSize = 32"

record PollingConfig =
  ConfigInterval :: duration
  StatusInterval :: duration

type_synonym configWriteCommand = "string \<times> goval"

text \<open>The methods of \<open>inverterDataSink\<close>, as the calls they are.\<close>

datatype delivery = StatusDelivered govalues | ConfigDelivered govalues

text \<open>
  A channel of one token is a bool, the command channel a list with its oldest command
  first, and a map an association list. \<open>delivered\<close> is the list of the calls made to the
  sink. The slices and the map that \<open>takeLatestConfigCommands\<close> reuses between calls hold
  nothing across calls.
\<close>

record polling =
  poll_config :: PollingConfig
  has_sink :: bool
  commands :: "configWriteCommand list"
  pendingWrites :: "(string \<times> goval) list"
  timeSyncRequests :: bool
  wake :: bool
  watchdog :: clockWatchdog
  pollingEnabled :: bool
  pollingVersion :: "64 word"
  observedVersion :: "64 word"
  started :: bool
  configDeadline :: gotime
  statusDeadline :: gotime
  watchdogDeadline :: gotime
  timeSyncDeadline :: gotime
  delivered :: "delivery list"

definition NewPollingService :: "clockSample \<Rightarrow> PollingConfig \<Rightarrow> polling" where
  "NewPollingService sample config =
     \<lparr>poll_config = config, has_sink = False, commands = [], pendingWrites = [],
      timeSyncRequests = False, wake = False, watchdog = sample, pollingEnabled = False,
      pollingVersion = 0, observedVersion = 0, started = False, configDeadline = 0,
      statusDeadline = 0, watchdogDeadline = 0, timeSyncDeadline = 0, delivered = []\<rparr>"

definition SetSink :: "polling \<Rightarrow> polling" where
  "SetSink p = p\<lparr>has_sink := True\<rparr>"

definition poll_Start :: "gotime \<Rightarrow> polling \<Rightarrow> polling" where
  "poll_Start now p =
     p\<lparr>started := True, configDeadline := now, statusDeadline := now,
       watchdogDeadline := now + clockWatchdogInterval, timeSyncDeadline := now\<rparr>"

section \<open>Calls from other goroutines\<close>

definition signalWake :: "polling \<Rightarrow> polling" where
  "signalWake p = p\<lparr>wake := True\<rparr>"

definition SetPollingEnabled :: "bool \<Rightarrow> polling \<Rightarrow> polling" where
  "SetPollingEnabled enabled p =
     (let wasEnabled = pollingEnabled p; p = p\<lparr>pollingEnabled := enabled\<rparr>
      in signalWake (if enabled \<and> \<not> wasEnabled then p\<lparr>pollingVersion := pollingVersion p + 1\<rparr> else p))"

definition RequestTimeSync :: "polling \<Rightarrow> polling" where
  "RequestTimeSync p = signalWake (p\<lparr>timeSyncRequests := True\<rparr>)"

definition QueueConfigWrite :: "string \<Rightarrow> goval \<Rightarrow> polling \<Rightarrow> (err + unit) \<times> polling" where
  "QueueConfigWrite key v p =
     (if length (commands p) < pollCommandQueueSize
      then (Inr (), signalWake (p\<lparr>commands := commands p @ [(key, v)]\<rparr>))
      else (Inl (EMsg MQueueFull), p))"

section \<open>Commands\<close>

text \<open>
  \<open>reflect.DeepEqual\<close> of two command values: same dynamic type, equal values, and a NaN
  equal to nothing.
\<close>

definition DeepEqual :: "goval \<Rightarrow> goval \<Rightarrow> bool" where
  "DeepEqual a b \<longleftrightarrow> a = b \<and> a \<noteq> GFloat FNaN \<and> a \<noteq> GFloat32 FNaN"

text \<open>
  \<open>takeLatestConfigCommands\<close>: the loop over the received commands with its map and its list
  of keys, then the batch in the order of the keys.
\<close>

fun latest_loop ::
    "configWriteCommand list \<Rightarrow> (string \<times> configWriteCommand) list \<Rightarrow> string list \<Rightarrow>
     (string \<times> configWriteCommand) list \<times> string list" where
  "latest_loop [] latest order = (latest, order)"
| "latest_loop (c # cs) latest order =
     latest_loop cs (AList.update (fst c) c latest)
       (if map_of latest (fst c) = None then order @ [fst c] else order)"

definition takeLatestConfigCommands :: "polling \<Rightarrow> configWriteCommand list \<times> polling" where
  "takeLatestConfigCommands p =
     (case latest_loop (commands p) [] [] of
        (latest, order) \<Rightarrow> (map (\<lambda>key. the (map_of latest key)) order, p\<lparr>commands := []\<rparr>))"

type_synonym ('i, 'w) pw = "polling \<times> 'i \<times> 'w"

text \<open>A call on the inverter behind the service.\<close>

definition on_source :: "('i \<times> 'w, 'a) io \<Rightarrow> (('i, 'w) pw, 'a) io" where
  "on_source f s = (case s of (p, iw) \<Rightarrow> case f iw of (r, iw') \<Rightarrow> (r, p, iw'))"

text \<open>The loop of \<open>drainCommands\<close> over the batch; the bool is \<open>wroteConfig\<close>.\<close>

fun drain_loop ::
    "(string \<Rightarrow> goval \<Rightarrow> ('i \<times> 'w, goval) io) \<Rightarrow> configWriteCommand list \<Rightarrow> bool \<Rightarrow> (('i, 'w) pw, bool) io" where
  "drain_loop writeConfig [] wrote s = (Inr wrote, s)"
| "drain_loop writeConfig ((key, v) # batch) wrote s =
     (if (case map_of (pendingWrites (fst s)) key of None \<Rightarrow> False | Some pending \<Rightarrow> DeepEqual pending v)
      then drain_loop writeConfig batch wrote s
      else case on_source (writeConfig key v) s of
        (Inl e, s') \<Rightarrow>
          if isCommandError e then drain_loop writeConfig batch wrote s'
          else (Inl (EWrap ''inverter task config_write'' e), s')
      | (Inr _, p, iw) \<Rightarrow>
          drain_loop writeConfig batch True (p\<lparr>pendingWrites := AList.update key v (pendingWrites p)\<rparr>, iw))"

definition drainCommands :: "(string \<Rightarrow> goval \<Rightarrow> ('i \<times> 'w, goval) io) \<Rightarrow> (('i, 'w) pw, bool) io" where
  "drainCommands writeConfig s =
     (case s of (p, iw) \<Rightarrow> case takeLatestConfigCommands p of
        (batch, p') \<Rightarrow> drain_loop writeConfig batch False (p', iw))"

section \<open>Polls\<close>

definition deliver :: "delivery \<Rightarrow> polling \<Rightarrow> polling" where
  "deliver d p = (if has_sink p then p\<lparr>delivered := delivered p @ [d]\<rparr> else p)"

definition pollStatus :: "('i \<times> 'w, govalues) io \<Rightarrow> (('i, 'w) pw, unit) io" where
  "pollStatus readStatus s =
     on_ok (on_source readStatus s)
       (\<lambda>status (p, iw). (Inr (), deliver (StatusDelivered status) p, iw))"

definition pollConfig :: "('i \<times> 'w, govalues) io \<Rightarrow> (('i, 'w) pw, unit) io" where
  "pollConfig readConfig s =
     on_ok (on_source readConfig s)
       (\<lambda>config (p, iw). (Inr (), deliver (ConfigDelivered config) p, iw))"

definition inverterTaskError :: "string \<Rightarrow> err \<Rightarrow> err" where
  "inverterTaskError name e = EWrap (''inverter task '' @ name) e"

section \<open>One turn of the loop\<close>

definition earliestDeadline :: "gotime list \<Rightarrow> gotime" where
  "earliestDeadline deadlines =
     fold (\<lambda>deadline earliest.
       if deadline \<noteq> 0 \<and> (earliest = 0 \<or> deadline < earliest) then deadline else earliest) deadlines 0"

record due =
  commandsDue :: bool
  configDue :: bool
  watchdogDue :: bool
  timeSyncDue :: bool
  statusDue :: bool

text \<open>Lines 137 to 155: what is due at \<open>now\<close>; takes the token of a requested time sync.\<close>

definition decide :: "gotime \<Rightarrow> polling \<Rightarrow> due \<times> polling" where
  "decide now p =
     (let enabled = pollingEnabled p;
          fresh = enabled \<and> pollingVersion p \<noteq> observedVersion p
      in (\<lparr>commandsDue = commands p \<noteq> [],
           configDue = enabled \<and> started p \<and> configDeadline p \<le> now \<or> fresh,
           watchdogDue = started p \<and> watchdogDeadline p \<le> now,
           timeSyncDue = started p \<and> timeSyncDeadline p \<le> now \<or> timeSyncRequests p,
           statusDue = enabled \<and> started p \<and> statusDeadline p \<le> now \<or> fresh\<rparr>,
          p\<lparr>observedVersion := if fresh then pollingVersion p else observedVersion p,
            timeSyncRequests := False\<rparr>))"

definition workDue :: "due \<Rightarrow> bool" where
  "workDue d \<longleftrightarrow> commandsDue d \<or> configDue d \<or> watchdogDue d \<or> timeSyncDue d \<or> statusDue d"

text \<open>Lines 157 to 168: how long to wait when nothing is due.\<close>

definition idle_wait :: "gotime \<Rightarrow> bool \<Rightarrow> polling \<Rightarrow> duration" where
  "idle_wait now enabled p =
     time_sub (earliestDeadline
       [if enabled then configDeadline p else 0, if enabled then statusDeadline p else 0,
        watchdogDeadline p, timeSyncDeadline p]) now"

text \<open>
  What ended the wait: the context, a token of \<open>wake\<close>, or the timer. The select is the
  host's; it sees whether a token was there, and one may arrive while it waits.
\<close>

datatype wake_cause = WokenByContext ctx_cause | WokenByToken | WokenByTimer

record ('i, 'w) machine =
  m_source :: "('i \<times> 'w) connection"
  m_host :: "'w host"
  m_sample :: "'w \<Rightarrow> clockSample \<times> 'w"
  m_select :: "duration \<Rightarrow> bool \<Rightarrow> 'w \<Rightarrow> wake_cause \<times> 'w"

definition wait_phase :: "('i, 'w) machine \<Rightarrow> duration \<Rightarrow> (('i, 'w) pw, unit) io" where
  "wait_phase m wait s =
     (case s of (p, i, w) \<Rightarrow> (case m_select m wait (wake p) w of
        (WokenByContext c, w') \<Rightarrow> (Inl (ECtx c), p, i, w')
      | (WokenByToken, w') \<Rightarrow> (Inr (), p\<lparr>wake := False\<rparr>, i, w')
      | (WokenByTimer, w') \<Rightarrow> (Inr (), p, i, w')))"

definition poll_now :: "('i, 'w) machine \<Rightarrow> (gotime \<Rightarrow> polling \<Rightarrow> polling) \<Rightarrow> ('i, 'w) pw \<Rightarrow> ('i, 'w) pw" where
  "poll_now m f s = (case s of (p, i, w) \<Rightarrow> case host_now (m_host m) w of (now, w') \<Rightarrow> (f now p, i, w'))"

text \<open>Lines 181 to 190: the result is what remains due.\<close>

definition commands_phase :: "('i, 'w) machine \<Rightarrow> due \<Rightarrow> (('i, 'w) pw, due) io" where
  "commands_phase m d s =
     (if commandsDue d then
        on_ok (drainCommands (c_WriteConfig (m_source m)) s)
          (\<lambda>wroteConfig s'.
             if wroteConfig
             then (Inr (d\<lparr>configDue := False\<rparr>),
                   poll_now m (\<lambda>now p. p\<lparr>configDeadline := now + configReadbackDelay\<rparr>) s')
             else (Inr d, s'))
      else (Inr d, s))"

text \<open>Lines 192 to 199.\<close>

definition config_phase :: "('i, 'w) machine \<Rightarrow> due \<Rightarrow> (('i, 'w) pw, unit) io" where
  "config_phase m d s =
     (if configDue d then
        case pollConfig (c_ReadConfig (m_source m)) s of
          (r, p, iw) \<Rightarrow>
            (case r of
               Inl e \<Rightarrow> (Inl (inverterTaskError ''config_poll'' e), p\<lparr>pendingWrites := []\<rparr>, iw)
             | Inr _ \<Rightarrow> (Inr (), poll_now m (\<lambda>now p. p\<lparr>configDeadline := now + ConfigInterval (poll_config p)\<rparr>)
                 (p\<lparr>pendingWrites := []\<rparr>, iw)))
      else (Inr (), s))"

text \<open>Lines 201 to 207: a clock change asks for a time sync of the next turn.\<close>

definition watchdog_phase :: "('i, 'w) machine \<Rightarrow> due \<Rightarrow> ('i, 'w) pw \<Rightarrow> due \<times> ('i, 'w) pw" where
  "watchdog_phase m d s =
     (if watchdogDue d then
        case poll_now m (\<lambda>now p. p\<lparr>watchdogDeadline := now + clockWatchdogInterval\<rparr>) s of
          (p, i, w) \<Rightarrow> case m_sample m w of
            (sample, w') \<Rightarrow> case Check sample (watchdog p) of
              (changed, previous) \<Rightarrow>
                (if changed
                 then (d\<lparr>timeSyncDue := False\<rparr>, RequestTimeSync (p\<lparr>watchdog := previous\<rparr>), i, w')
                 else (d, p\<lparr>watchdog := previous\<rparr>, i, w'))
      else (d, s))"

text \<open>Lines 209 to 219.\<close>

definition sync_phase :: "('i, 'w) machine \<Rightarrow> due \<Rightarrow> (('i, 'w) pw, unit) io" where
  "sync_phase m d s =
     (if timeSyncDue d then
        case on_source (c_SyncTime (m_source m)) (case s of (p, iw) \<Rightarrow> (p\<lparr>timeSyncRequests := False\<rparr>, iw)) of
          (r, s') \<Rightarrow>
            (case r of Inl e \<Rightarrow> Inl (inverterTaskError ''time_sync'' e) | Inr u \<Rightarrow> Inr u,
             poll_now m (\<lambda>now p. p\<lparr>timeSyncDeadline := now + syncTimeInterval\<rparr>) s')
      else (Inr (), s))"

text \<open>Lines 221 to 228.\<close>

definition status_phase :: "('i, 'w) machine \<Rightarrow> due \<Rightarrow> (('i, 'w) pw, unit) io" where
  "status_phase m d s =
     (if statusDue d then
        case pollStatus (c_ReadStatus (m_source m)) s of
          (r, s') \<Rightarrow>
            (case r of Inl e \<Rightarrow> Inl (inverterTaskError ''status_poll'' e) | Inr u \<Rightarrow> Inr u,
             poll_now m (\<lambda>now p. p\<lparr>statusDeadline := now + StatusInterval (poll_config p)\<rparr>) s')
      else (Inr (), s))"

definition work_phases :: "('i, 'w) machine \<Rightarrow> due \<Rightarrow> (('i, 'w) pw, unit) io" where
  "work_phases m d s =
     on_ok (commands_phase m d s)
       (\<lambda>d1 s1. on_ok (config_phase m d1 s1)
          (\<lambda>_ s2. case watchdog_phase m d1 s2 of
             (d2, s3) \<Rightarrow> on_ok (sync_phase m d2 s3) (\<lambda>_ s4. status_phase m d2 s4)))"

definition runPending :: "('i, 'w) machine \<Rightarrow> (('i, 'w) pw, unit) io" where
  "runPending m s =
     (case s of (p, i, w) \<Rightarrow> case host_now (m_host m) w of
        (now, w1) \<Rightarrow> case decide now p of
          (d, p1) \<Rightarrow>
            (if \<not> workDue d then wait_phase m (idle_wait now (pollingEnabled p) p1) (p1, i, w1)
             else work_phases m d (p1, i, w1)))"

text \<open>\<open>Run\<close> for at most \<open>n\<close> turns: None when the loop is still going.\<close>

fun poll_Run :: "nat \<Rightarrow> ('i, 'w) machine \<Rightarrow> ('i, 'w) pw \<Rightarrow> err option \<times> ('i, 'w) pw" where
  "poll_Run 0 m s = (None, s)"
| "poll_Run (Suc n) m s =
     (if \<not> started (fst s) then (Some (EMsg MNotStarted), s)
      else case ctx_err (m_host m) (snd (snd s)) of
        Some c \<Rightarrow> (Some (ECtx c), s)
      | None \<Rightarrow>
          (case runPending m s of
             (Inl e, s') \<Rightarrow> (Some e, s')
           | (Inr _, s') \<Rightarrow> poll_Run n m s'))"

end
