(* ===== verification/Polling_Properties.thy ===== *)
theory Polling_Properties
  imports Polling Recovery_Properties
begin

text \<open>
  What one turn of the polling loop does: the batch of commands it takes, the commands it
  skips, when it waits and for how long, what ends it, and what it delivers.
\<close>

section \<open>The batch\<close>

text \<open>The keys of a list, each at its first occurrence.\<close>

definition first_keys :: "'a list \<Rightarrow> 'a list" where
  "first_keys ks = rev (remdups (rev ks))"

lemma first_keys_snoc:
  "first_keys (ks @ [k]) = (if k \<in> set ks then first_keys ks else first_keys ks @ [k])"
  by (simp add: first_keys_def)

lemma set_first_keys [simp]: "set (first_keys ks) = set ks"
  by (simp add: first_keys_def)

lemma distinct_first_keys [simp]: "distinct (first_keys ks)"
  by (simp add: first_keys_def)

lemma first_keys_Nil [simp]: "first_keys [] = []"
  by (simp add: first_keys_def)

lemma latest_loop_append:
  "latest_loop (cs @ ds) latest order =
   (case latest_loop cs latest order of (l, ks) \<Rightarrow> latest_loop ds l ks)"
  by (induction cs arbitrary: latest order) simp_all

lemma latest_loop_spec:
  "latest_loop cs [] [] = (latest, order) \<Longrightarrow>
   order = first_keys (map fst cs) \<and>
   (\<forall>k. map_of latest k = map_option (\<lambda>v. (k, v)) (map_of (rev cs) k))"
proof (induction cs arbitrary: latest order rule: rev_induct)
  case (snoc c cs)
  obtain l ks where l: "latest_loop cs [] [] = (l, ks)" by fastforce
  from snoc.IH [OF l] have ks: "ks = first_keys (map fst cs)"
    and m: "map_of l k = map_option (\<lambda>v. (k, v)) (map_of (rev cs) k)" for k by simp_all
  have "latest = AList.update (fst c) c l" and
    o: "order = (if map_of l (fst c) = None then ks @ [fst c] else ks)"
    using snoc.prems by (simp_all add: latest_loop_append l)
  then have "map_of latest k = map_option (\<lambda>v. (k, v)) (map_of (rev (cs @ [c])) k)" for k
    using m by (cases c) (simp add: update_conv')
  moreover have "map_of l (fst c) = None \<longleftrightarrow> fst c \<notin> set (map fst cs)"
    by (simp add: m map_of_eq_None_iff)
  then have "order = first_keys (map fst (cs @ [c]))"
    unfolding o ks by (simp add: first_keys_snoc)
  ultimately show ?case by blast
qed simp

lemma takeLatest_eq:
  "takeLatestConfigCommands p =
   (map (\<lambda>k. (k, the (map_of (rev (commands p)) k))) (first_keys (map fst (commands p))), p\<lparr>commands := []\<rparr>)"
proof -
  obtain latest order where l: "latest_loop (commands p) [] [] = (latest, order)" by fastforce
  from latest_loop_spec [OF l] have o: "order = first_keys (map fst (commands p))"
    and m: "map_of latest k = map_option (\<lambda>v. (k, v)) (map_of (rev (commands p)) k)" for k by simp_all
  have "the (map_of latest k) = (k, the (map_of (rev (commands p)) k))"
    if "k \<in> set (map fst (commands p))" for k
  proof -
    from that have "map_of (rev (commands p)) k \<noteq> None" by (simp add: map_of_eq_None_iff)
    with m [of k] show ?thesis by auto
  qed
  then show ?thesis by (simp add: takeLatestConfigCommands_def l o)
qed

section \<open>Draining\<close>

text \<open>A drain only changes the pending writes of the service.\<close>

lemma drain_loop_keeps:
  "drain_loop writeConfig batch wrote (p, iw) = (r, p', iw') \<Longrightarrow> \<exists>ws. p' = p\<lparr>pendingWrites := ws\<rparr>"
proof (induction batch arbitrary: wrote p iw)
  case Nil
  then have "p' = p\<lparr>pendingWrites := pendingWrites p\<rparr>" by simp
  then show ?case by blast
next
  case (Cons c batch)
  obtain key v where c: "c = (key, v)" by (cases c)
  obtain q jw where w: "writeConfig key v iw = (q, jw)" by (meson surj_pair)
  show ?case
  proof (cases "case map_of (pendingWrites p) key of None \<Rightarrow> False | Some pending \<Rightarrow> DeepEqual pending v")
    case True
    with Cons.prems c have "drain_loop writeConfig batch wrote (p, iw) = (r, p', iw')" by simp
    then show ?thesis by (rule Cons.IH)
  next
    case False
    show ?thesis
    proof (cases q)
      case (Inl e)
      have "(\<exists>wr. drain_loop writeConfig batch wr (p, jw) = (r, p', iw')) \<or> p' = p"
        using Cons.prems False c w Inl by (auto simp: on_source_def split: if_splits)
      then show ?thesis
      proof
        assume "p' = p"
        then have "p' = p\<lparr>pendingWrites := pendingWrites p\<rparr>" by simp
        then show ?thesis by blast
      qed (use Cons.IH in blast)
    next
      case (Inr a)
      then have "drain_loop writeConfig batch True
          (p\<lparr>pendingWrites := AList.update key v (pendingWrites p)\<rparr>, jw) = (r, p', iw')"
        using Cons.prems False c w by (simp add: on_source_def split: option.splits)
      from Cons.IH [OF this] show ?thesis by auto
    qed
  qed
qed

lemma drainCommands_keeps:
  assumes "drainCommands writeConfig (p, iw) = (r, p', iw')"
  shows "\<exists>ws. p' = p\<lparr>commands := [], pendingWrites := ws\<rparr>"
proof -
  obtain batch where b: "takeLatestConfigCommands p = (batch, p\<lparr>commands := []\<rparr>)"
    by (simp add: takeLatest_eq)
  from drain_loop_keeps [of writeConfig batch False "p\<lparr>commands := []\<rparr>" iw] assms b
  show ?thesis by (simp add: drainCommands_def)
qed

section \<open>Phases\<close>

text \<open>What each phase of a turn may change of the service.\<close>

lemma commands_phase_cases:
  assumes "commands_phase m d (p, i, w) = (r, p', i', w')"
  obtains (nothing) "r = Inr d" "p' = p" "i' = i" "w' = w" "\<not> commandsDue d"
  | (failed) e ws where "r = Inl e" "p' = p\<lparr>commands := [], pendingWrites := ws\<rparr>" "commandsDue d"
      "drainCommands (c_WriteConfig (m_source m)) (p, i, w) = (Inl e, p', i', w')"
  | (unwritten) ws where "r = Inr d" "p' = p\<lparr>commands := [], pendingWrites := ws\<rparr>" "commandsDue d"
      "drainCommands (c_WriteConfig (m_source m)) (p, i, w) = (Inr False, p', i', w')"
  | (wrote) ws w1 now where "r = Inr (d\<lparr>configDue := False\<rparr>)" "commandsDue d"
      "drainCommands (c_WriteConfig (m_source m)) (p, i, w) =
         (Inr True, p\<lparr>commands := [], pendingWrites := ws\<rparr>, i', w1)"
      "host_now (m_host m) w1 = (now, w')"
      "p' = p\<lparr>commands := [], pendingWrites := ws, configDeadline := now + configReadbackDelay\<rparr>"
proof (cases "commandsDue d")
  case True
  obtain q p1 i1 w1 where dr: "drainCommands (c_WriteConfig (m_source m)) (p, i, w) = (q, p1, i1, w1)"
    by (rule prod_cases4)
  from drainCommands_keeps [OF this] obtain ws where ws: "p1 = p\<lparr>commands := [], pendingWrites := ws\<rparr>" by blast
  show thesis
  proof (cases q)
    case (Inl e)
    with assms True dr ws show thesis by (intro failed [of e ws]) (simp_all add: commands_phase_def)
  next
    case (Inr b)
    obtain now w2 where n: "host_now (m_host m) w1 = (now, w2)" by fastforce
    show thesis
    proof (cases b)
      case True
      with assms \<open>commandsDue d\<close> dr ws Inr n show thesis
        by (intro wrote [of ws w1 now]) (simp_all add: commands_phase_def poll_now_def)
    next
      case False
      with assms True dr ws Inr show thesis by (intro unwritten [of ws]) (simp_all add: commands_phase_def)
    qed
  qed
qed (use assms nothing in \<open>simp add: commands_phase_def\<close>)

lemma watchdog_phase_keeps:
  assumes "watchdog_phase m d (p, i, w) = (d', p', i', w')"
  shows "i' = i \<and> delivered p' = delivered p \<and> configDeadline p' = configDeadline p \<and> has_sink p' = has_sink p \<and>
    (d' = d \<and> timeSyncRequests p' = timeSyncRequests p \<or> d' = d\<lparr>timeSyncDue := False\<rparr> \<and> timeSyncRequests p')"
  using assms by (auto simp: watchdog_phase_def poll_now_def RequestTimeSync_def signalWake_def
      split: if_splits prod.splits)

lemma sync_phase_keeps:
  assumes "sync_phase m d (p, i, w) = (r, p', i', w')"
  shows "delivered p' = delivered p \<and> configDeadline p' = configDeadline p \<and> has_sink p' = has_sink p \<and>
    (\<not> timeSyncDue d \<longrightarrow> i' = i \<and> w' = w \<and> timeSyncRequests p' = timeSyncRequests p)"
  using assms by (auto simp: sync_phase_def poll_now_def on_source_def split: if_splits prod.splits)

lemma deliver_simps [simp]:
  "has_sink (deliver x p) = has_sink p"
  "configDeadline (deliver x p) = configDeadline p"
  "timeSyncRequests (deliver x p) = timeSyncRequests p"
  "delivered (deliver x p) = (if has_sink p then delivered p @ [x] else delivered p)"
  by (simp_all add: deliver_def)

lemma poll_cases:
  assumes "on_ok (on_source f (p, i, w)) (\<lambda>a (p, iw). (Inr (), deliver (kind a) p, iw)) = (r, p', i', w')"
  obtains (failed) e where "r = Inl e" "p' = p" | (read) a where "r = Inr ()" "p' = deliver (kind a) p"
  using assms by (cases "f (i, w)"; cases "fst (f (i, w))") (auto simp: on_source_def)

lemma status_phase_keeps:
  assumes "status_phase m d (p, i, w) = (r, p', i', w')"
  shows "configDeadline p' = configDeadline p \<and> timeSyncRequests p' = timeSyncRequests p \<and>
    (\<not> statusDue d \<longrightarrow> delivered p' = delivered p \<and> i' = i \<and> w' = w) \<and>
    (statusDue d \<and> r = Inr u \<and> has_sink p \<longrightarrow> (\<exists>st. delivered p' = delivered p @ [StatusDelivered st])) \<and>
    (delivered p' = delivered p \<or> (\<exists>st. delivered p' = delivered p @ [StatusDelivered st]))"
proof (cases "statusDue d")
  case True
  obtain q p1 i1 w1 where q: "pollStatus (c_ReadStatus (m_source m)) (p, i, w) = (q, p1, i1, w1)"
    by (rule prod_cases4)
  from q [unfolded pollStatus_def] show ?thesis
  proof (cases rule: poll_cases)
    case (failed e)
    with q True assms show ?thesis
      by (cases "host_now (m_host m) w1") (simp add: status_phase_def poll_now_def, clarsimp)
  next
    case (read a)
    with q True assms show ?thesis
      by (cases "host_now (m_host m) w1") (simp add: status_phase_def poll_now_def, clarsimp)
  qed
qed (use assms in \<open>simp add: status_phase_def\<close>)

lemma config_phase_keeps:
  assumes "config_phase m d (p, i, w) = (r, p', i', w')"
  shows "has_sink p' = has_sink p \<and> timeSyncRequests p' = timeSyncRequests p \<and>
    (\<not> configDue d \<longrightarrow> r = Inr () \<and> p' = p \<and> i' = i \<and> w' = w) \<and>
    (configDue d \<and> r = Inr u \<and> has_sink p \<longrightarrow> (\<exists>c. delivered p' = delivered p @ [ConfigDelivered c]))"
proof (cases "configDue d")
  case True
  obtain q p1 i1 w1 where q: "pollConfig (c_ReadConfig (m_source m)) (p, i, w) = (q, p1, i1, w1)"
    by (rule prod_cases4)
  from q [unfolded pollConfig_def] show ?thesis
  proof (cases rule: poll_cases)
    case (failed e)
    with q True assms show ?thesis by (simp add: config_phase_def, clarsimp)
  next
    case (read a)
    with q True assms show ?thesis
      by (cases "host_now (m_host m) w1") (simp add: config_phase_def poll_now_def, clarsimp)
  qed
qed (use assms in \<open>simp add: config_phase_def\<close>)

text \<open>A turn with work, phase by phase.\<close>

lemma work_phases_cases:
  assumes "work_phases m d s = (r, s')"
  obtains (commands) e where "r = Inl e" "commands_phase m d s = (Inl e, s')"
  | (config) d1 p1 i1 w1 e where "r = Inl e" "commands_phase m d s = (Inr d1, p1, i1, w1)"
      "config_phase m d1 (p1, i1, w1) = (Inl e, s')"
  | (sync) d1 p1 i1 w1 p2 i2 w2 d2 p3 i3 w3 e where "r = Inl e" "commands_phase m d s = (Inr d1, p1, i1, w1)"
      "config_phase m d1 (p1, i1, w1) = (Inr (), p2, i2, w2)" "watchdog_phase m d1 (p2, i2, w2) = (d2, p3, i3, w3)"
      "sync_phase m d2 (p3, i3, w3) = (Inl e, s')"
  | (status) d1 p1 i1 w1 p2 i2 w2 d2 p3 i3 w3 p4 i4 w4 where "commands_phase m d s = (Inr d1, p1, i1, w1)"
      "config_phase m d1 (p1, i1, w1) = (Inr (), p2, i2, w2)" "watchdog_phase m d1 (p2, i2, w2) = (d2, p3, i3, w3)"
      "sync_phase m d2 (p3, i3, w3) = (Inr (), p4, i4, w4)" "status_phase m d2 (p4, i4, w4) = (r, s')"
  using assms unfolding work_phases_def
proof (cases rule: on_ok_cases)
  case (failed e)
  then show thesis using commands by blast
next
  case (passed d1 s1)
  note c = passed(1)
  obtain p1 i1 w1 where s1: "s1 = (p1, i1, w1)" by (rule prod_cases3)
  from passed(2) show thesis
  proof (cases rule: on_ok_cases)
    case (failed e)
    then show thesis using config c s1 by blast
  next
    case (passed u s2)
    note g = passed(1)
    obtain p2 i2 w2 where s2: "s2 = (p2, i2, w2)" by (rule prod_cases3)
    obtain d2 p3 i3 w3 where wd: "watchdog_phase m d1 s2 = (d2, p3, i3, w3)" by (rule prod_cases4)
    from passed(2) have "on_ok (sync_phase m d2 (p3, i3, w3)) (\<lambda>_ s4. status_phase m d2 s4) = (r, s')"
      by (simp add: wd)
    then show thesis
    proof (cases rule: on_ok_cases)
      case (failed e)
      then show thesis using sync c g s1 s2 wd by simp
    next
      case (passed u s4)
      obtain p4 i4 w4 where "s4 = (p4, i4, w4)" by (rule prod_cases3)
      then show thesis using status c g s1 s2 wd passed by simp
    qed
  qed
qed

text \<open>The client of a data source: what its contract gives the loop.\<close>

locale polling_client =
  data_source "c_ReadStatus (m_source m)" "c_ReadConfig (m_source m)" "c_WriteConfig (m_source m)"
    "c_SyncTime (m_source m)" rejects
  for m :: "('i, 'w) machine" and rejects
begin

abbreviation writeConfig where "writeConfig \<equiv> c_WriteConfig (m_source m)"

text \<open>Refused commands might as well not have been queued.\<close>

lemma drain_skips_refused:
  "drain_loop writeConfig batch wrote s =
   drain_loop writeConfig (filter (\<lambda>(k, v). rejects k v = None) batch) wrote s"
proof (induction batch arbitrary: wrote s)
  case (Cons c batch)
  obtain key v p iw where cs: "c = (key, v)" "s = (p, iw)" by (cases c; cases s) auto
  show ?case
  proof (cases "rejects key v")
    case None
    then show ?thesis using Cons.IH by (simp add: cs split: prod.splits sum.splits option.splits)
  next
    case (Some e)
    with Cons.IH rejected [OF Some, of iw] rejection [OF Some] show ?thesis
      by (simp add: cs on_source_def)
  qed
qed simp

lemma drain_error:
  "drain_loop writeConfig batch wrote s = (Inl e, s') \<Longrightarrow> \<not> isCommandError e"
proof (induction batch arbitrary: wrote s)
  case (Cons c batch)
  obtain key v p iw where cs: "c = (key, v)" "s = (p, iw)" by (cases c; cases s) auto
  obtain q jw where w: "writeConfig key v iw = (q, jw)" by (meson surj_pair)
  have "(\<exists>wr t. drain_loop writeConfig batch wr t = (Inl e, s')) \<or> \<not> isCommandError e"
  proof (cases q)
    case (Inl x)
    with Cons.prems show ?thesis
      by (simp add: cs w on_source_def del: split_paired_Ex split: if_splits) (blast | clarsimp)+
  next
    case (Inr a)
    with Cons.prems show ?thesis
      by (simp add: cs w on_source_def del: split_paired_Ex split: if_splits) blast+
  qed
  then show ?case using Cons.IH by auto
qed simp

lemma drain_skips:
  "drainCommands writeConfig (p, iw) =
   drain_loop writeConfig (filter (\<lambda>(k, v). rejects k v = None) (fst (takeLatestConfigCommands p)))
     False (p\<lparr>commands := []\<rparr>, iw)"
  using drain_skips_refused by (simp add: drainCommands_def takeLatest_eq)

lemma read_error:
  "c_ReadStatus (m_source m) s = (Inl e, s') \<Longrightarrow> \<not> isCommandError e"
  "c_ReadConfig (m_source m) s = (Inl e, s') \<Longrightarrow> \<not> isCommandError e"
  using reading by blast+

lemma work_error:
  assumes "work_phases m d (p, i, w) = (Inl e, s')"
  shows "\<not> isCommandError e"
  using assms unfolding work_phases_def
proof (cases rule: on_ok_cases)
  case (failed x)
  obtain p1 i1 w1 where s': "s' = (p1, i1, w1)" by (rule prod_cases3)
  from failed(1) [unfolded s'] failed(2) drain_error show ?thesis
    by (cases rule: commands_phase_cases) (auto simp: drainCommands_def split: prod.splits)
next
  case (passed d1 s1)
  from passed(2) show ?thesis
  proof (cases rule: on_ok_cases)
    case (failed x)
    then show ?thesis
      by (auto dest: read_error simp: config_phase_def pollConfig_def on_source_def inverterTaskError_def
          elim!: on_ok_cases split: if_splits prod.splits sum.splits)
  next
    case (passed u s2)
    obtain d2 s3 where wd: "watchdog_phase m d1 s2 = (d2, s3)" by (meson surj_pair)
    from passed(2) have "on_ok (sync_phase m d2 s3) (\<lambda>_ s4. status_phase m d2 s4) = (Inl e, s')"
      by (simp add: wd)
    then show ?thesis
    proof (cases rule: on_ok_cases)
      case (failed x)
      then show ?thesis using syncing
        by (auto simp: sync_phase_def on_source_def inverterTaskError_def
            split: if_splits prod.splits sum.splits)
    next
      case (passed u s4)
      then show ?thesis
        by (auto dest: read_error simp: status_phase_def pollStatus_def on_source_def inverterTaskError_def
            elim!: on_ok_cases split: if_splits prod.splits sum.splits)
    qed
  qed
qed

lemma turn_error:
  assumes "runPending m s = (Inl e, s')"
  shows "\<not> isCommandError e"
proof -
  obtain p i w where s: "s = (p, i, w)" by (rule prod_cases3)
  with assms show ?thesis using work_error
    by (auto simp: runPending_def wait_phase_def split: prod.splits if_splits wake_cause.splits)
qed

lemma run_error: "poll_Run n m s = (Some e, s') \<Longrightarrow> \<not> isCommandError e"
proof (induction n arbitrary: s)
  case (Suc n)
  then show ?case using turn_error
    by (auto split: if_splits option.splits prod.splits sum.splits)
qed simp

end

text \<open>The service on the program's recovering inverter.\<close>

definition recovering_conn ::
    "f2i \<Rightarrow> 'w host \<Rightarrow> 'w bus \<Rightarrow> ('w, unit) ext \<Rightarrow> RecoveryConfig \<Rightarrow> (inverter, 'w) rw connection" where
  "recovering_conn oob h b systemctl cfg =
     (let conn = inverter_conn oob h b
      in \<lparr>c_ReadStatus = rec_ReadStatus h conn systemctl cfg, c_ReadConfig = rec_ReadConfig h conn systemctl cfg,
          c_WriteConfig = rec_WriteConfig h conn systemctl cfg, c_SyncTime = rec_SyncTime h conn systemctl cfg,
          c_Connect = rec_Connect h conn systemctl cfg, c_Close = rec_Close conn\<rparr>)"

definition service_machine ::
    "f2i \<Rightarrow> 'w host \<Rightarrow> 'w bus \<Rightarrow> ('w, unit) ext \<Rightarrow> RecoveryConfig \<Rightarrow> ('w \<Rightarrow> clockSample \<times> 'w) \<Rightarrow>
     (duration \<Rightarrow> bool \<Rightarrow> 'w \<Rightarrow> wake_cause \<times> 'w) \<Rightarrow> (inverter recovering, 'w) machine" where
  "service_machine oob h b systemctl cfg sample select =
     \<lparr>m_source = recovering_conn oob h b systemctl cfg, m_host = h, m_sample = sample, m_select = select\<rparr>"

interpretation service: polling_client "service_machine oob h b systemctl cfg sample select" "rejection_of oob"
  for oob h b systemctl cfg sample select
  using rinv.recovered.data_source_axioms [of h oob b systemctl cfg]
  by (simp add: polling_client_def service_machine_def recovering_conn_def Let_def)

section \<open>Deadlines\<close>

lemma earliestDeadline_step:
  "fold (\<lambda>d e. if d \<noteq> 0 \<and> (e = 0 \<or> d < e) then d else e) ds e =
   (if filter (\<lambda>d. d \<noteq> 0) ds = [] then e
    else if e = 0 then Min (set (filter (\<lambda>d. d \<noteq> 0) ds))
    else min e (Min (set (filter (\<lambda>d. d \<noteq> 0) ds))))" for e :: int
proof (induction ds arbitrary: e)
  case (Cons d ds)
  define F where "F = filter (\<lambda>d. d \<noteq> 0) ds"
  show ?case
  proof (cases "F = []")
    case True
    with Cons show ?thesis by (auto simp flip: F_def)
  next
    case False
    define M where "M = Min (set F)"
    have "Min (set F) \<in> set F" using False by (intro Min_in) simp_all
    then have nz: "M \<noteq> 0" by (auto simp: F_def M_def)
    have IH: "fold (\<lambda>d e. if d \<noteq> 0 \<and> (e = 0 \<or> d < e) then d else e) ds x = (if x = 0 then M else min x M)" for x
      using Cons.IH [of x] False by (simp add: M_def flip: F_def)
    show ?thesis
    proof (cases "d = 0")
      case True
      with IH [of e] False show ?thesis by (simp add: M_def flip: F_def)
    next
      case False
      have "Min (set (d # F)) = min d M" using \<open>F \<noteq> []\<close> by (simp add: M_def)
      moreover have "filter (\<lambda>d. d \<noteq> 0) (d # ds) = d # F" using False by (simp add: F_def)
      ultimately show ?thesis using False nz IH by (simp del: set_filter filter.simps list.set Min_insert) linarith
    qed
  qed
qed simp

lemma earliestDeadline_Min:
  assumes "\<exists>d \<in> set ds. d \<noteq> 0"
  shows "earliestDeadline ds = Min {d \<in> set ds. d \<noteq> 0}"
  using assms by (auto simp: earliestDeadline_def earliestDeadline_step filter_empty_conv)

text \<open>The deadlines a turn looks at: those of the polls only while polling is enabled.\<close>

definition watched :: "polling \<Rightarrow> gotime set" where
  "watched p =
     {watchdogDeadline p, timeSyncDeadline p} \<union>
     (if pollingEnabled p then {configDeadline p, statusDeadline p} else {})"

definition deadlines_set :: "polling \<Rightarrow> bool" where
  "deadlines_set p \<longleftrightarrow>
     started p \<and> 0 < configDeadline p \<and> 0 < statusDeadline p \<and> 0 < watchdogDeadline p \<and> 0 < timeSyncDeadline p"

lemma idle_wait_watched:
  assumes "deadlines_set p"
  shows "idle_wait now (pollingEnabled p) p = time_sub (Min (watched p)) now"
proof -
  let ?ds = "[if pollingEnabled p then configDeadline p else 0, if pollingEnabled p then statusDeadline p else 0,
        watchdogDeadline p, timeSyncDeadline p]"
  have "{d \<in> set ?ds. d \<noteq> 0} = watched p"
    using assms by (auto simp: deadlines_set_def watched_def)
  moreover have "\<exists>d \<in> set ?ds. d \<noteq> 0" using assms by (simp add: deadlines_set_def)
  ultimately show ?thesis using earliestDeadline_Min [of ?ds] by (simp add: idle_wait_def)
qed

lemma nothing_due_later:
  assumes "decide now p = (d, p')" and "\<not> workDue d" and "deadlines_set p"
  shows "now < Min (watched p)"
proof -
  have "now < t" if "t \<in> watched p" for t
    using assms that by (auto simp: decide_def Let_def workDue_def deadlines_set_def watched_def split: if_splits)
  moreover have "finite (watched p)" "watched p \<noteq> {}" by (simp_all add: watched_def)
  ultimately show ?thesis by simp
qed

section \<open>Turns\<close>

lemma disabled_turn:
  assumes "runPending m (p, i, w) = (r, p', i', w')" and "\<not> pollingEnabled p"
  shows "delivered p' = delivered p"
proof -
  obtain now w1 where n: "host_now (m_host m) w = (now, w1)" by fastforce
  obtain d p1 where d: "decide now p = (d, p1)" by fastforce
  from d assms(2) have due: "\<not> configDue d" "\<not> statusDue d" and p1: "delivered p1 = delivered p"
    by (auto simp: decide_def Let_def)
  show ?thesis
  proof (cases "workDue d")
    case False
    with assms n d p1 show ?thesis by (auto simp: runPending_def wait_phase_def split: prod.splits wake_cause.splits)
  next
    case True
    with assms n d have "work_phases m d (p1, i, w1) = (r, p', i', w')" by (simp add: runPending_def)
    moreover have com: "delivered p2 = delivered p1 \<and> (\<forall>d1. q = Inr d1 \<longrightarrow> \<not> configDue d1 \<and> \<not> statusDue d1)"
      if "commands_phase m d (p1, i, w1) = (q, p2, i2, w2)" for q p2 i2 w2
      using that by (cases rule: commands_phase_cases) (auto simp: due)
    ultimately show ?thesis
    proof (cases rule: work_phases_cases)
      case (status d1 p2 i2 w2 p3 i3 w3 d2 p4 i4 w4 p5 i5 w5)
      have "statusDue d2 = statusDue d1" using watchdog_phase_keeps [OF status(3)] by auto
      with com [OF status(1)] config_phase_keeps [OF status(2)] watchdog_phase_keeps [OF status(3)]
        sync_phase_keeps [OF status(4)] status_phase_keeps [OF status(5)] p1
      show ?thesis by simp
    next
      case (sync d1 p2 i2 w2 p3 i3 w3 d2 p4 i4 w4 e)
      with com [OF sync(2)] config_phase_keeps [OF sync(3)] watchdog_phase_keeps [OF sync(4)]
        sync_phase_keeps [OF sync(5)] p1
      show ?thesis by simp
    next
      case (config d1 p2 i2 w2 e)
      with com [OF config(2)] config_phase_keeps [OF config(3)] p1 show ?thesis by simp
    next
      case (commands e)
      with com [OF commands(2)] p1 show ?thesis by simp
    qed
  qed
qed

text \<open>The outcome of the drain a turn makes of the commands it finds: true when one was written.\<close>

definition turn_writes :: "('i, 'w) machine \<Rightarrow> ('i, 'w) pw \<Rightarrow> bool" where
  "turn_writes m s =
     (case s of (p, i, w) \<Rightarrow> case host_now (m_host m) w of (now, w1) \<Rightarrow>
        fst (drainCommands (c_WriteConfig (m_source m)) (snd (decide now p), i, w1)) = Inr True)"

lemma drain_nothing: "commands p = [] \<Longrightarrow> fst (drainCommands f (p, iw)) = Inr False"
  by (simp add: drainCommands_def takeLatestConfigCommands_def)

lemma fresh_turn:
  assumes "runPending m (p, i, w) = (Inr (), p', i', w')"
    and "pollingEnabled p" "pollingVersion p \<noteq> observedVersion p" "has_sink p"
  shows "\<exists>c st. delivered p' = delivered p @
    (if turn_writes m (p, i, w) then [StatusDelivered st] else [ConfigDelivered c, StatusDelivered st])"
proof -
  obtain now w1 where n: "host_now (m_host m) w = (now, w1)" by fastforce
  obtain d p1 where d: "decide now p = (d, p1)" by fastforce
  from d assms(2-4) have due: "configDue d" "statusDue d" "commandsDue d \<longleftrightarrow> commands p1 \<noteq> []"
    and p1: "delivered p1 = delivered p" "has_sink p1"
    by (auto simp: decide_def Let_def)
  then have "workDue d" by (simp add: workDue_def)
  with assms n d have "work_phases m d (p1, i, w1) = (Inr (), p', i', w')" by (simp add: runPending_def)
  then show ?thesis
  proof (cases rule: work_phases_cases)
    case (status d1 p2 i2 w2 p3 i3 w3 d2 p4 i4 w4 p5 i5 w5)
    have c: "configDue d1 \<longleftrightarrow> \<not> turn_writes m (p, i, w)" "statusDue d1" "delivered p2 = delivered p1"
      "has_sink p2 = has_sink p1"
      using status(1) by (cases rule: commands_phase_cases; use due drain_nothing [of p1 _ "(i, w1)"] in
          \<open>auto simp: turn_writes_def n d\<close>)+
    obtain x where x: "delivered p3 = delivered p @ (if turn_writes m (p, i, w) then [] else [ConfigDelivered x])"
      "has_sink p3"
      using config_phase_keeps [OF status(2)] p1 c by (cases "turn_writes m (p, i, w)") auto
    have "statusDue d2" "delivered p5 = delivered p3" "has_sink p5"
      using watchdog_phase_keeps [OF status(3)] sync_phase_keeps [OF status(4)] c(2) x(2) by auto
    with status_phase_keeps [OF status(5), of "()"] obtain st where "delivered p' = delivered p3 @ [StatusDelivered st]"
      by auto
    with x(1) show ?thesis by (intro exI [of _ x] exI [of _ st]) simp
  qed simp_all
qed

lemma written_turn:
  assumes "host_now (m_host m) w = (now, w1)" and "decide now p = (d, p1)" and "commandsDue d"
    and "drainCommands (c_WriteConfig (m_source m)) (p1, i, w1) = (Inr True, p2, i2, w2)"
    and "runPending m (p, i, w) = (Inr (), p', i', w')"
  shows "configDeadline p' = fst (host_now (m_host m) w2) + configReadbackDelay"
    and "delivered p' = delivered p \<or> (\<exists>st. delivered p' = delivered p @ [StatusDelivered st])"
proof -
  from assms(3) have "workDue d" by (simp add: workDue_def)
  with assms have "work_phases m d (p1, i, w1) = (Inr (), p', i', w')" by (simp add: runPending_def)
  moreover have p1: "delivered p1 = delivered p" using assms(2) by (auto simp: decide_def Let_def)
  ultimately have "configDeadline p' = fst (host_now (m_host m) w2) + configReadbackDelay \<and>
    (delivered p' = delivered p \<or> (\<exists>st. delivered p' = delivered p @ [StatusDelivered st]))"
  proof (cases rule: work_phases_cases)
    case (status d1 q2 j2 v2 p3 i3 w3 d2 p4 i4 w4 p5 i5 w5)
    from status(1) have c: "d1 = d\<lparr>configDue := False\<rparr>" "delivered q2 = delivered p1"
      "configDeadline q2 = fst (host_now (m_host m) w2) + configReadbackDelay"
      using assms(3,4) by (cases rule: commands_phase_cases; auto)+
    with config_phase_keeps [OF status(2)] watchdog_phase_keeps [OF status(3)] sync_phase_keeps [OF status(4)]
      status_phase_keeps [OF status(5)] p1
    show ?thesis by auto
  qed simp_all
  then show "configDeadline p' = fst (host_now (m_host m) w2) + configReadbackDelay"
    and "delivered p' = delivered p \<or> (\<exists>st. delivered p' = delivered p @ [StatusDelivered st])" by blast+
qed

text \<open>A count of the time syncs: one more for each, and untouched by everything else.\<close>

definition untouched :: "('s \<Rightarrow> nat) \<Rightarrow> ('s, 'a) io \<Rightarrow> bool" where
  "untouched count f \<longleftrightarrow> (\<forall>s. count (snd (f s)) = count s)"

definition counts_syncs :: "('i \<times> 'w \<Rightarrow> nat) \<Rightarrow> ('i, 'w) machine \<Rightarrow> bool" where
  "counts_syncs count m \<longleftrightarrow>
     untouched count (c_ReadStatus (m_source m)) \<and> untouched count (c_ReadConfig (m_source m)) \<and>
     (\<forall>key v. untouched count (c_WriteConfig (m_source m) key v)) \<and>
     (\<forall>s. count (snd (c_SyncTime (m_source m) s)) = Suc (count s)) \<and>
     (\<forall>i w. count (i, snd (host_now (m_host m) w)) = count (i, w) \<and> count (i, snd (m_sample m w)) = count (i, w))"

lemma untouchedD: "untouched count f \<Longrightarrow> f s = (r, s') \<Longrightarrow> count s' = count s"
  by (metis untouched_def snd_conv)

lemma counts_syncsD:
  assumes "counts_syncs count m"
  shows "c_ReadStatus (m_source m) s = (r, s') \<Longrightarrow> count s' = count s"
    and "c_ReadConfig (m_source m) s = (r, s') \<Longrightarrow> count s' = count s"
    and "c_WriteConfig (m_source m) key v s = (q, s') \<Longrightarrow> count s' = count s"
    and "c_SyncTime (m_source m) s = (u, s') \<Longrightarrow> count s' = Suc (count s)"
    and "host_now (m_host m) w = (t, w') \<Longrightarrow> count (i, w') = count (i, w)"
    and "m_sample m w = (x, w') \<Longrightarrow> count (i, w') = count (i, w)"
  using assms unfolding counts_syncs_def by (metis untouchedD snd_conv)+

lemma drain_loop_count:
  assumes "counts_syncs count m"
  shows "drain_loop (c_WriteConfig (m_source m)) batch wrote (p, iw) = (r, p', iw') \<Longrightarrow> count iw' = count iw"
proof (induction batch arbitrary: wrote p iw)
  case (Cons c batch)
  obtain key v where c: "c = (key, v)" by (cases c)
  obtain q jw where w: "c_WriteConfig (m_source m) key v iw = (q, jw)" by (meson surj_pair)
  have "count jw = count iw" using counts_syncsD(3) [OF assms w] .
  with Cons show ?case
    by (cases q) (auto simp: c w on_source_def simp del: split_paired_Ex split_paired_All split: if_splits)
qed simp

lemma phase_counts:
  assumes c: "counts_syncs count m"
  shows "commands_phase m d (p, i, w) = (r, p', i', w') \<Longrightarrow> count (i', w') = count (i, w)"
    and "config_phase m d (p, i, w) = (u, p', i', w') \<Longrightarrow> count (i', w') = count (i, w)"
    and "watchdog_phase m d (p, i, w) = (d', p', i', w') \<Longrightarrow> count (i', w') = count (i, w)"
    and "timeSyncDue d \<Longrightarrow> sync_phase m d (p, i, w) = (u, p', i', w') \<Longrightarrow> count (i', w') = Suc (count (i, w))"
    and "status_phase m d (p, i, w) = (u, p', i', w') \<Longrightarrow> count (i', w') = count (i, w)"
proof -
  assume "commands_phase m d (p, i, w) = (r, p', i', w')"
  then show "count (i', w') = count (i, w)"
    by (cases rule: commands_phase_cases)
      (auto simp: drainCommands_def takeLatest_eq dest!: drain_loop_count [OF c] counts_syncsD(5) [OF c, where i = i'])
next
  assume "config_phase m d (p, i, w) = (u, p', i', w')"
  then show "count (i', w') = count (i, w)"
    by (auto simp: config_phase_def pollConfig_def poll_now_def on_source_def on_ok_def
        dest!: counts_syncsD(2) [OF c] counts_syncsD(5) [OF c, where i = i'] split: if_splits prod.splits sum.splits)
next
  assume "watchdog_phase m d (p, i, w) = (d', p', i', w')"
  then show "count (i', w') = count (i, w)"
    by (auto simp: watchdog_phase_def poll_now_def
        dest!: counts_syncsD(6) [OF c, where i = i] counts_syncsD(5) [OF c, where i = i] split: if_splits prod.splits)
next
  assume "timeSyncDue d" "sync_phase m d (p, i, w) = (u, p', i', w')"
  then show "count (i', w') = Suc (count (i, w))"
    by (auto simp: sync_phase_def poll_now_def on_source_def
        dest!: counts_syncsD(4) [OF c] counts_syncsD(5) [OF c, where i = i'] split: prod.splits)
next
  assume "status_phase m d (p, i, w) = (u, p', i', w')"
  then show "count (i', w') = count (i, w)"
    by (auto simp: status_phase_def pollStatus_def poll_now_def on_source_def on_ok_def
        dest!: counts_syncsD(1) [OF c] counts_syncsD(5) [OF c, where i = i'] split: if_splits prod.splits sum.splits)
qed

lemma requested_turn:
  assumes c: "counts_syncs count m" and run: "runPending m (p, i, w) = (Inr (), p', i', w')"
    and "timeSyncRequests p"
  shows "timeSyncRequests p' \<or> count (i', w') = Suc (count (i, w))"
proof -
  obtain now w1 where n: "host_now (m_host m) w = (now, w1)" by fastforce
  obtain d p1 where d: "decide now p = (d, p1)" by fastforce
  from d assms(3) have due: "timeSyncDue d" by (auto simp: decide_def Let_def)
  then have "workDue d" by (simp add: workDue_def)
  with run n d have "work_phases m d (p1, i, w1) = (Inr (), p', i', w')" by (simp add: runPending_def)
  then show ?thesis
  proof (cases rule: work_phases_cases)
    case (status d1 p2 i2 w2 p3 i3 w3 d2 p4 i4 w4 p5 i5 w5)
    have d1: "timeSyncDue d1" using status(1) due by (cases rule: commands_phase_cases) auto
    note cs = phase_counts(1) [OF c status(1)] phase_counts(2) [OF c status(2)] phase_counts(3) [OF c status(3)]
      phase_counts(5) [OF c status(5)] counts_syncsD(5) [OF c n, of i]
    show ?thesis
    proof (cases "timeSyncDue d2")
      case True
      with phase_counts(4) [OF c True status(4)] cs show ?thesis by simp
    next
      case False
      with watchdog_phase_keeps [OF status(3)] d1 have "timeSyncRequests p4" by auto
      with sync_phase_keeps [OF status(4)] False status_phase_keeps [OF status(5)] show ?thesis by simp
    qed
  qed simp_all
qed

section \<open>Properties\<close>

text \<open>C7: a drain takes every queued command and keeps
  one for each key, the last one queued, in the order in which the keys first appear in the
  queue.\<close>

theorem latest_command_wins:
  "takeLatestConfigCommands p =
     (map (\<lambda>k. (k, the (map_of (rev (commands p)) k))) (first_keys (map fst (commands p))), p\<lparr>commands := []\<rparr>)"
  by (rule takeLatest_eq)

text \<open>C33: on the program's inverter a drain is
  the drain of the batch without its refused commands: a refused command neither stops the
  batch, nor counts as a write, nor becomes a pending one.\<close>

theorem refused_commands_change_nothing:
  "drainCommands (rec_WriteConfig h (inverter_conn oob h b) systemctl cfg) (p, iw) =
   drain_loop (rec_WriteConfig h (inverter_conn oob h b) systemctl cfg)
     (filter (\<lambda>(k, v). rejection_of oob k v = None) (fst (takeLatestConfigCommands p)))
     False (p\<lparr>commands := []\<rparr>, iw)"
  using service.drain_skips [of oob h b systemctl cfg _ _ p iw]
  by (simp add: service_machine_def recovering_conn_def Let_def)

text \<open>C34: the loop of the service never ends with
  the error of a refused command, whatever is queued.\<close>

theorem no_command_ends_the_service:
  "case fst (poll_Run n (service_machine oob h b systemctl cfg sample select) s) of
     None \<Rightarrow> True | Some e \<Rightarrow> \<not> isCommandError e"
proof (cases "fst (poll_Run n (service_machine oob h b systemctl cfg sample select) s)")
  case (Some e)
  then have "poll_Run n (service_machine oob h b systemctl cfg sample select) s =
      (Some e, snd (poll_Run n (service_machine oob h b systemctl cfg sample select) s))"
    by (metis prod.collapse)
  from service.run_error [OF this] Some show ?thesis by simp
qed simp

text \<open>When nothing is due the loop waits for a
  positive time, so it never spins, and not past any deadline it watches; the deadlines of
  the two polls are watched exactly while polling is enabled.\<close>

theorem waits_for_the_first_deadline:
  assumes "decide now p = (d, p')" and "\<not> workDue d" and "deadlines_set p"
  shows "0 < idle_wait now (pollingEnabled p) p' \<and> now + idle_wait now (pollingEnabled p) p' \<le> Min (watched p)"
proof -
  have "idle_wait now (pollingEnabled p) p' = idle_wait now (pollingEnabled p) p"
    using assms(1) by (auto simp: decide_def Let_def idle_wait_def)
  with idle_wait_watched [OF assms(3)] nothing_due_later [OF assms]
    time_sub_later [of now "Min (watched p)"]
  show ?thesis by (auto simp: time_sub_def max_int64_def min_int64_def)
qed

text \<open>A turn whose drain wrote something reads no
  configuration; it sets the next configuration poll to two seconds after the drain.\<close>

theorem a_write_is_read_back_later:
  assumes "host_now (m_host m) w = (now, w1)" and "decide now p = (d, p1)" and "commandsDue d"
    and "drainCommands (c_WriteConfig (m_source m)) (p1, i, w1) = (Inr True, p2, i2, w2)"
    and "runPending m (p, i, w) = (Inr (), p', i', w')"
  shows "configDeadline p' = fst (host_now (m_host m) w2) + 2 * second \<and>
    (delivered p' = delivered p \<or> (\<exists>st. delivered p' = delivered p @ [StatusDelivered st]))"
  using written_turn [OF assms] by (simp add: configReadbackDelay_def)

text \<open>While polling is disabled no turn delivers
  a reading, whether it ends well or with an error.\<close>

theorem disabled_polling_is_silent:
  assumes "runPending m (p, i, w) = (r, p', i', w')" and "\<not> pollingEnabled p"
  shows "delivered p' = delivered p"
  using assms by (rule disabled_turn)

text \<open>C35: the first turn after polling was enabled, when it
  succeeds, delivers a status however far away the deadlines are, and before it a
  configuration unless the turn wrote a queued command: the configuration is then read after
  the read-back delay instead.\<close>

theorem enabling_polls_at_once:
  assumes "\<not> pollingEnabled p" and "pollingVersion p + 1 \<noteq> observedVersion p" and "has_sink p"
    and "runPending m (SetPollingEnabled True p, i, w) = (Inr (), p', i', w')"
  shows "\<exists>c st. delivered p' = delivered p @
    (if turn_writes m (SetPollingEnabled True p, i, w) then [StatusDelivered st]
     else [ConfigDelivered c, StatusDelivered st])"
proof -
  let ?p = "SetPollingEnabled True p"
  have "pollingEnabled ?p" "pollingVersion ?p \<noteq> observedVersion ?p" "has_sink ?p" "delivered ?p = delivered p"
    using assms(1-3) by (simp_all add: SetPollingEnabled_def signalWake_def)
  with fresh_turn [OF assms(4)] show ?thesis by simp
qed

text \<open>C36: a turn that starts with a requested time sync
  and succeeds either has set the time once, or leaves the request in its channel for the
  next turn.\<close>

theorem a_requested_sync_is_kept:
  assumes "counts_syncs count m" and "runPending m (p, i, w) = (Inr (), p', i', w')" and "timeSyncRequests p"
  shows "timeSyncRequests p' \<or> count (i', w') = Suc (count (i, w))"
  using assms by (rule requested_turn)

section \<open>A bench to try them on\<close>

text \<open>
  A source that counts its time syncs and answers everything; the world is the clock, which
  every reading advances by a nanosecond and every wait by its duration.
\<close>

definition bench :: "(nat, int) machine" where
  "bench =
     \<lparr>m_source = \<lparr>c_ReadStatus = \<lambda>s. (Inr [], s), c_ReadConfig = \<lambda>s. (Inr [], s),
        c_WriteConfig = \<lambda>_ v s. (Inr v, s), c_SyncTime = \<lambda>(n, w). (Inr (), Suc n, w),
        c_Connect = \<lambda>s. (Inr (), s), c_Close = \<lambda>s. (Inr (), s)\<rparr>,
      m_host = \<lparr>host_now = \<lambda>w. (w, w + 1), host_wait = \<lambda>d w. (None, w + d), ctx_err = \<lambda>_. None,
        host_zone = \<lambda>_ _. 0\<rparr>,
      m_sample = \<lambda>w. (\<lparr>wall = w, monotonic = w, zoneName = ''UTC'', zoneOffset = 0\<rparr>, w),
      m_select = \<lambda>d token w. if token then (WokenByToken, w) else (WokenByTimer, w + d)\<rparr>"

definition bench_service :: polling where
  "bench_service =
     poll_Start 1000 (SetSink (NewPollingService \<lparr>wall = 1000, monotonic = 1000, zoneName = ''UTC'', zoneOffset = 0\<rparr>
       \<lparr>ConfigInterval = 60 * second, StatusInterval = 5 * second\<rparr>))"

abbreviation bench_turn :: "polling \<Rightarrow> (err + unit) \<times> polling \<times> nat \<times> int" where
  "bench_turn p \<equiv> runPending bench (p, 0, 2000)"

theorem waits_for_the_first_deadline_witness:
  "0 < idle_wait 2000 False (bench_service\<lparr>timeSyncDeadline := 9000\<rparr>) \<and>
   idle_wait 2000 False (bench_service\<lparr>timeSyncDeadline := 9000\<rparr>) \<le> 7000"
proof -
  let ?p = "bench_service\<lparr>timeSyncDeadline := 9000\<rparr>"
  have d: "decide 2000 ?p = (\<lparr>commandsDue = False, configDue = False, watchdogDue = False, timeSyncDue = False,
      statusDue = False\<rparr>, ?p)" by code_simp
  have "deadlines_set ?p" by code_simp
  from waits_for_the_first_deadline [OF d _ this] show ?thesis
    by (simp add: workDue_def watched_def bench_service_def poll_Start_def SetSink_def NewPollingService_def
        clockWatchdogInterval_def second_def)
qed

definition bench_writing :: polling where
  "bench_writing = snd (QueueConfigWrite ''k'' (GInt64 1) (SetPollingEnabled True bench_service))"

theorem a_write_is_read_back_later_witness:
  "fst (bench_turn bench_writing) = Inr () \<and>
   configDeadline (fst (snd (bench_turn bench_writing))) = 2001 + 2 * second"
proof -
  let ?now = "2000 :: int" and ?d = "fst (decide 2000 bench_writing)" and ?p1 = "snd (decide 2000 bench_writing)"
  let ?r = "drainCommands (c_WriteConfig (m_source bench)) (?p1, 0, 2001)" and ?t = "bench_turn bench_writing"
  have ok: "fst ?t = Inr ()" by code_simp
  have "fst ?r = Inr True" by code_simp
  then have r: "?r = (Inr True, fst (snd ?r), fst (snd (snd ?r)), snd (snd (snd ?r)))" by (metis prod.collapse)
  from ok have t: "?t = (Inr (), fst (snd ?t), fst (snd (snd ?t)), snd (snd (snd ?t)))" by (metis prod.collapse)
  have n: "host_now (m_host bench) 2000 = (2000, 2001)" by code_simp
  have d: "decide 2000 bench_writing = (?d, ?p1)" by simp
  have c: "commandsDue ?d" by code_simp
  have "fst (host_now (m_host bench) (snd (snd (snd ?r)))) = 2001" by code_simp
  with a_write_is_read_back_later [OF n d c r t] ok show ?thesis by simp
qed

theorem disabled_polling_is_silent_witness: "delivered (fst (snd (bench_turn bench_service))) = []"
proof -
  let ?t = "bench_turn bench_service"
  have t: "?t = (fst ?t, fst (snd ?t), fst (snd (snd ?t)), snd (snd (snd ?t)))" by simp
  have "\<not> pollingEnabled bench_service" "delivered bench_service = []" by code_simp+
  with disabled_polling_is_silent [OF t] show ?thesis by simp
qed

theorem enabling_polls_at_once_witness:
  "(\<exists>c st. delivered (fst (snd (bench_turn (SetPollingEnabled True bench_service)))) =
     [ConfigDelivered c, StatusDelivered st]) \<and>
   (\<exists>st. delivered (fst (snd (bench_turn (SetPollingEnabled True (bench_service\<lparr>commands := [(''k'', GInt64 1)]\<rparr>))))) =
     [StatusDelivered st])"
proof -
  let ?q = "bench_service\<lparr>commands := [(''k'', GInt64 1)]\<rparr>"
  have run: "runPending bench (p, 0, 2000) = (fst (bench_turn p), fst (snd (bench_turn p)),
      fst (snd (snd (bench_turn p))), snd (snd (snd (bench_turn p))))" for p by simp
  have ok: "fst (bench_turn (SetPollingEnabled True bench_service)) = Inr ()"
    "fst (bench_turn (SetPollingEnabled True ?q)) = Inr ()" by code_simp+
  have w: "\<not> turn_writes bench (SetPollingEnabled True bench_service, 0, 2000)"
    "turn_writes bench (SetPollingEnabled True ?q, 0, 2000)" by code_simp+
  have "\<not> pollingEnabled bench_service" "pollingVersion bench_service + 1 \<noteq> observedVersion bench_service"
    "has_sink bench_service" "delivered bench_service = []" by code_simp+
  with enabling_polls_at_once [OF _ _ _ run [of "SetPollingEnabled True bench_service", unfolded ok]]
    enabling_polls_at_once [OF _ _ _ run [of "SetPollingEnabled True ?q", unfolded ok]] w
  show ?thesis by simp
qed

theorem a_requested_sync_is_kept_witness:
  "timeSyncRequests (fst (snd (bench_turn (RequestTimeSync bench_service)))) \<or>
   fst (snd (snd (bench_turn (RequestTimeSync bench_service)))) = 1"
proof -
  let ?t = "bench_turn (RequestTimeSync bench_service)"
  have "fst ?t = Inr ()" by code_simp
  then have t: "?t = (Inr (), fst (snd ?t), fst (snd (snd ?t)), snd (snd (snd ?t)))" by (metis prod.collapse)
  have "counts_syncs fst bench" by (simp add: counts_syncs_def untouched_def bench_def split_beta)
  moreover have "timeSyncRequests (RequestTimeSync bench_service)" by code_simp
  ultimately show ?thesis using a_requested_sync_is_kept [OF _ t, of fst] by simp
qed

end
