(* ===== verification/Polling_Interleaving.thy ===== *)
theory Polling_Interleaving
  imports Polling
begin

text \<open>
  The polling service and its callers as goroutines: a step relation whose steps are the
  single operations on the shared atomics and channels, in any interleaving. The loop of
  \<open>runPending\<close> reads the shared state in several steps (\<open>src/polling.go\<close>, lines 137 to 155)
  and a caller changes it in several (lines 109 to 134), so a change can fall between two
  reads. The theory shows that it is never missed.
\<close>

section \<open>The loop\<close>

text \<open>
  Where the loop stands, with the local variables it has read so far: \<open>now\<close>,
  \<open>pollingEnabled\<close>, \<open>pollingVersion\<close> and \<open>commandsDue\<close>. \<open>Idle\<close> is the blocking select,
  \<open>Working\<close> everything after line 180.
\<close>

datatype loop_pc =
    Top
  | SawEnabled gotime bool
  | SawVersion gotime bool "64 word"
  | SawCommands gotime bool "64 word" bool
  | Idle
  | Working due

text \<open>Lines 141 to 155 on the local variables.\<close>

definition decide_with :: "gotime \<Rightarrow> bool \<Rightarrow> 64 word \<Rightarrow> bool \<Rightarrow> polling \<Rightarrow> due \<times> polling" where
  "decide_with now enabled version queued p =
     (let fresh = enabled \<and> version \<noteq> observedVersion p
      in (\<lparr>commandsDue = queued,
           configDue = enabled \<and> started p \<and> configDeadline p \<le> now \<or> fresh,
           watchdogDue = started p \<and> watchdogDeadline p \<le> now,
           timeSyncDue = started p \<and> timeSyncDeadline p \<le> now \<or> timeSyncRequests p,
           statusDue = enabled \<and> started p \<and> statusDeadline p \<le> now \<or> fresh\<rparr>,
          p\<lparr>observedVersion := if fresh then version else observedVersion p, timeSyncRequests := False\<rparr>))"

lemma decide_with_eq: "decide_with now (pollingEnabled p) (pollingVersion p) (commands p \<noteq> []) p = decide now p"
  by (simp add: decide_with_def decide_def Let_def)

text \<open>What other goroutines can see of the service.\<close>

definition shared where
  "shared p = (commands p, timeSyncRequests p, wake p, pollingEnabled p, pollingVersion p, observedVersion p, started p)"

text \<open>
  The work between two decisions is taken at its largest: it may receive commands, clear the
  request it is serving, ask for a time sync itself and change everything that only the
  loop sees, in any order and any number of times.
\<close>

inductive loop_step :: "polling \<times> loop_pc \<Rightarrow> polling \<times> loop_pc \<Rightarrow> bool" where
  load_enabled: "loop_step (p, Top) (p, SawEnabled now (pollingEnabled p))"
| load_version: "loop_step (p, SawEnabled now en) (p, SawVersion now en (pollingVersion p))"
| count_commands: "loop_step (p, SawVersion now en v) (p, SawCommands now en v (commands p \<noteq> []))"
| take_request: "decide_with now en v c p = (d, p') \<Longrightarrow>
    loop_step (p, SawCommands now en v c) (p', if workDue d then Working d else Idle)"
| woken: "wake p \<Longrightarrow> loop_step (p, Idle) (p\<lparr>wake := False\<rparr>, Top)"
| timer: "loop_step (p, Idle) (p, Top)"
| receive: "commands p = c # cs \<Longrightarrow> loop_step (p, Working d) (p\<lparr>commands := cs\<rparr>, Working d)"
| clear_request: "loop_step (p, Working d) (p\<lparr>timeSyncRequests := False\<rparr>, Working d)"
| own_request: "loop_step (p, Working d) (RequestTimeSync p, Working d)"
| own_state: "shared p' = shared p \<Longrightarrow> loop_step (p, Working d) (p', Working d)"
| done_working: "loop_step (p, Working d) (p, Top)"

inductive_cases topE: "loop_step (p, Top) s"
inductive_cases saw_enabledE: "loop_step (p, SawEnabled now en) s"
inductive_cases saw_versionE: "loop_step (p, SawVersion now en v) s"
inductive_cases saw_commandsE: "loop_step (p, SawCommands now en v c) s"
inductive_cases idleE: "loop_step (p, Idle) s"
inductive_cases workingE: "loop_step (p, Working d) s"

lemmas loop_elims = topE saw_enabledE saw_versionE saw_commandsE idleE

section \<open>The callers\<close>

text \<open>What a caller has still to do after its first operation.\<close>

datatype micro = MAdd | MSignal

definition do_micro :: "micro \<Rightarrow> polling \<Rightarrow> polling" where
  "do_micro a p = (case a of MAdd \<Rightarrow> p\<lparr>pollingVersion := pollingVersion p + 1\<rparr> | MSignal \<Rightarrow> signalWake p)"

type_synonym callers = "micro list list"

inductive caller_step :: "polling \<times> callers \<Rightarrow> polling \<times> callers \<Rightarrow> bool" where
  swap: "caller_step (p, ts)
    (p\<lparr>pollingEnabled := e\<rparr>, (if e \<and> \<not> pollingEnabled p then [MAdd, MSignal] else [MSignal]) # ts)"
| send: "length (commands p) < pollCommandQueueSize \<Longrightarrow>
    caller_step (p, ts) (p\<lparr>commands := commands p @ [(key, v)]\<rparr>, [MSignal] # ts)"
| ask: "caller_step (p, ts) (p\<lparr>timeSyncRequests := True\<rparr>, [MSignal] # ts)"
| continue: "caller_step (p, us @ (a # as) # vs) (do_micro a p, us @ as # vs)"

type_synonym goroutines = "polling \<times> loop_pc \<times> callers"

inductive service_step :: "goroutines \<Rightarrow> goroutines \<Rightarrow> bool" where
  by_loop: "loop_step (p, pc) (p', pc') \<Longrightarrow> service_step (p, pc, ts) (p', pc', ts)"
| by_caller: "caller_step (p, ts) (p', ts') \<Longrightarrow> service_step (p, pc, ts) (p', pc, ts')"

definition service_start :: "gotime \<Rightarrow> clockSample \<Rightarrow> PollingConfig \<Rightarrow> goroutines" where
  "service_start now sample config = (poll_Start now (SetSink (NewPollingService sample config)), Top, [])"

section \<open>The alarm\<close>

text \<open>The token is in \<open>wake\<close>, or a caller is still going to put it there.\<close>

definition alarm :: "polling \<Rightarrow> callers \<Rightarrow> bool" where
  "alarm p ts \<longleftrightarrow> wake p \<or> (\<exists>t \<in> set ts. MSignal \<in> set t)"

definition work_pending :: "polling \<Rightarrow> bool" where
  "work_pending p \<longleftrightarrow>
     commands p \<noteq> [] \<or> timeSyncRequests p \<or> pollingEnabled p \<and> pollingVersion p \<noteq> observedVersion p"

text \<open>What has changed behind a variable the loop has read has raised the alarm.\<close>

fun covered :: "polling \<Rightarrow> loop_pc \<Rightarrow> callers \<Rightarrow> bool" where
  "covered p (SawEnabled _ en) ts = (pollingEnabled p \<and> \<not> en \<longrightarrow> alarm p ts)"
| "covered p (SawVersion _ en v) ts =
     ((pollingEnabled p \<and> \<not> en \<longrightarrow> alarm p ts) \<and> (pollingVersion p \<noteq> v \<longrightarrow> alarm p ts))"
| "covered p (SawCommands _ en v c) ts =
     ((pollingEnabled p \<and> \<not> en \<longrightarrow> alarm p ts) \<and> (pollingVersion p \<noteq> v \<longrightarrow> alarm p ts) \<and>
      (commands p \<noteq> [] \<and> \<not> c \<longrightarrow> alarm p ts))"
| "covered p Idle ts = (work_pending p \<longrightarrow> alarm p ts)"
| "covered _ _ _ = True"

text \<open>A caller that will bump the version signals after it.\<close>

definition signals_last :: "callers \<Rightarrow> bool" where
  "signals_last ts \<longleftrightarrow> set ts \<subseteq> {[], [MSignal], [MAdd, MSignal]}"

definition safe :: "goroutines \<Rightarrow> bool" where
  "safe s \<longleftrightarrow> (case s of (p, pc, ts) \<Rightarrow>
     covered p pc ts \<and> signals_last ts \<and> length (commands p) \<le> pollCommandQueueSize)"

lemma alarm_simps [simp]:
  "alarm p ([MSignal] # ts)"
  "alarm p ([MAdd, MSignal] # ts)"
  "alarm (signalWake p) ts"
  by (simp_all add: alarm_def signalWake_def)

lemma alarmed_covered: "alarm p ts \<Longrightarrow> covered p pc ts"
  by (cases pc) auto

lemma loop_step_safe:
  assumes "loop_step (p, pc) (p', pc')" and "safe (p, pc, ts)"
  shows "safe (p', pc', ts)"
  using assms
proof (cases rule: loop_step.cases)
  case (take_request now en v c d)
  have "covered p' pc' ts"
  proof (cases "workDue d")
    case False
    with take_request(3) have c: "\<not> c" and fresh: "\<not> (en \<and> v \<noteq> observedVersion p)"
      and p': "p' = p\<lparr>timeSyncRequests := False\<rparr>"
      by (auto simp: decide_with_def Let_def workDue_def)
    from assms(2) take_request(1) have "covered p (SawCommands now en v c) ts" by (simp add: safe_def)
    with False c fresh p' take_request(2) show ?thesis by (auto simp: work_pending_def alarm_def)
  qed (simp add: take_request(2))
  moreover have "commands p' = commands p" using take_request(3) by (auto simp: decide_with_def Let_def)
  ultimately show ?thesis using assms(2) by (simp add: safe_def)
qed (auto simp: safe_def shared_def RequestTimeSync_def signalWake_def)

lemma caller_step_safe:
  assumes "caller_step (p, ts) (p', ts')" and "safe (p, pc, ts)"
  shows "safe (p', pc, ts')"
  using assms
proof (cases rule: caller_step.cases)
  case (continue us a as vs)
  have "signals_last ts'" "a = MAdd \<Longrightarrow> as = [MSignal]"
    using assms(2) continue by (auto simp: safe_def signals_last_def)
  moreover have "covered p' pc ts'"
  proof (cases a)
    case MAdd
    with calculation(2) continue have "alarm p' ts'" by (auto simp: alarm_def)
    then show ?thesis by (rule alarmed_covered)
  next
    case MSignal
    with continue have "alarm p' ts'" by (simp add: do_micro_def)
    then show ?thesis by (rule alarmed_covered)
  qed
  moreover have "commands p' = commands p"
    using continue by (cases a) (simp_all add: do_micro_def signalWake_def)
  ultimately show ?thesis using assms(2) by (simp add: safe_def)
qed (auto simp: safe_def signals_last_def intro!: alarmed_covered)

lemma reachable_safe:
  "service_step\<^sup>*\<^sup>* (service_start now sample config) s \<Longrightarrow> safe s"
proof (induction rule: rtranclp_induct)
  case base
  show ?case by (simp add: safe_def service_start_def signals_last_def poll_Start_def SetSink_def NewPollingService_def)
next
  case (step s t)
  from step(2,3) show ?case
    by (cases rule: service_step.cases) (auto intro: loop_step_safe caller_step_safe)
qed

lemma queue_bounded:
  "service_step\<^sup>*\<^sup>* (service_start now sample config) (p, pc, ts) \<Longrightarrow> length (commands p) \<le> 32"
  by (drule reachable_safe) (simp add: safe_def pollCommandQueueSize_def)

section \<open>The next decision\<close>

text \<open>The loop alone, from the top of \<open>Run\<close> to its decision.\<close>

lemma four_steps:
  "(loop_step ^^ 4) (p, Top) (p', pc') \<longleftrightarrow>
   (\<exists>now d. decide now p = (d, p') \<and> pc' = (if workDue d then Working d else Idle))"
proof
  assume "(loop_step ^^ 4) (p, Top) (p', pc')"
  then show "\<exists>now d. decide now p = (d, p') \<and> pc' = (if workDue d then Working d else Idle)"
    by (auto simp: numeral_eq_Suc decide_with_eq elim!: loop_elims relpowp_Suc_E2) blast+
next
  assume "\<exists>now d. decide now p = (d, p') \<and> pc' = (if workDue d then Working d else Idle)"
  then obtain now d where d: "decide now p = (d, p')" and pc': "pc' = (if workDue d then Working d else Idle)"
    by blast
  let ?e = "pollingEnabled p" and ?v = "pollingVersion p" and ?c = "commands p \<noteq> []"
  note steps = load_enabled [of p now] load_version [of p now ?e] count_commands [of p now ?e ?v]
  have "(loop_step ^^ 1) (p, SawCommands now ?e ?v ?c) (p', pc')"
    unfolding pc' relpowp_1 by (rule take_request) (simp add: decide_with_eq d)
  from relpowp_Suc_I2 [OF steps(1) relpowp_Suc_I2 [OF steps(2) relpowp_Suc_I2 [OF steps(3) this]]]
  show "(loop_step ^^ 4) (p, Top) (p', pc')" by (simp add: numeral_eq_Suc)
qed

lemma pending_work_due: "work_pending p \<Longrightarrow> workDue (fst (decide now p))"
  by (auto simp: work_pending_def decide_def Let_def workDue_def)

lemma five_steps_from_idle:
  assumes "work_pending p" and "(loop_step ^^ 5) (p, Idle) s"
  shows "\<exists>d. workDue d \<and> snd s = Working d"
proof -
  obtain q where q: "loop_step (p, Idle) (q, Top)" "(loop_step ^^ 4) (q, Top) s"
    and wp: "work_pending q"
  proof -
    from assms(2) have "(loop_step ^^ Suc 4) (p, Idle) s" by (simp add: numeral_eq_Suc)
    then obtain t where t: "loop_step (p, Idle) t" "(loop_step ^^ 4) t s" by (rule relpowp_Suc_E2)
    from t(1) assms(1) obtain q where "t = (q, Top)" "work_pending q"
      by (auto elim!: idleE simp: work_pending_def)
    with t that show thesis by blast
  qed
  obtain p' pc' where s: "s = (p', pc')" by (cases s)
  from q(2) [unfolded s four_steps] pending_work_due [OF wp] show ?thesis by (auto simp: s) (metis fst_conv)
qed

section \<open>Properties\<close>

text \<open>C6: in every interleaving of the loop with callers of
  \<open>SetPollingEnabled\<close>, \<open>QueueConfigWrite\<close> and \<open>RequestTimeSync\<close>, when the loop blocks in its
  select while there is work, the token that wakes it is in the channel or a caller is still
  about to put it there.\<close>

theorem no_lost_wakeup:
  assumes "service_step\<^sup>*\<^sup>* (service_start now sample config) (p, Idle, ts)" and "work_pending p"
  shows "wake p \<or> (\<exists>t \<in> set ts. MSignal \<in> set t)"
  using reachable_safe [OF assms(1)] assms(2) by (simp add: safe_def alarm_def)

text \<open>When the callers are done and the loop blocks
  while there is work, it can wake at once, and however it leaves its select, its next five
  steps alone bring it to the work.\<close>

theorem pending_work_is_found:
  assumes "service_step\<^sup>*\<^sup>* (service_start now sample config) (p, Idle, ts)" and "work_pending p"
    and "set ts \<subseteq> {[]}"
  shows "loop_step (p, Idle) (p\<lparr>wake := False\<rparr>, Top) \<and>
    (\<forall>s. (loop_step ^^ 5) (p, Idle) s \<longrightarrow> (\<exists>d. workDue d \<and> snd s = Working d))"
proof -
  have "wake p" using reachable_safe [OF assms(1)] assms(2,3) by (fastforce simp: safe_def alarm_def)
  then show ?thesis using five_steps_from_idle [OF assms(2)] woken by blast
qed

text \<open>Left alone, four steps of the loop
  compute exactly the decision of \<open>runPending\<close>, and the steps of a caller the sequential
  \<open>SetPollingEnabled\<close>, \<open>QueueConfigWrite\<close> and \<open>RequestTimeSync\<close>.\<close>

theorem undisturbed_steps_are_the_calls:
  "((loop_step ^^ 4) (p, Top) (p', pc') =
      (\<exists>now d. decide now p = (d, p') \<and> pc' = (if workDue d then Working d else Idle))) \<and>
   caller_step\<^sup>*\<^sup>* (p, ts) (SetPollingEnabled e p, [] # ts) \<and>
   caller_step\<^sup>*\<^sup>* (p, ts) (RequestTimeSync p, [] # ts) \<and>
   (case QueueConfigWrite key v p of
      (Inl _, q) \<Rightarrow> q = p | (Inr _, q) \<Rightarrow> caller_step\<^sup>*\<^sup>* (p, ts) (q, [] # ts))"
proof -
  have run: "caller_step (q, (a # as) # ts) (do_micro a q, as # ts)" for q a as
    using continue [of q "[]" a as ts] by simp
  have signal: "caller_step\<^sup>*\<^sup>* (q, [MSignal] # ts) (signalWake q, [] # ts)" for q
    using run [of q MSignal "[]"] by (auto simp: do_micro_def)
  have "caller_step\<^sup>*\<^sup>* (p, ts) (SetPollingEnabled e p, [] # ts)"
  proof (cases "e \<and> \<not> pollingEnabled p")
    case True
    let ?q = "p\<lparr>pollingEnabled := e\<rparr>"
    have "caller_step (p, ts) (?q, [MAdd, MSignal] # ts)" using swap [of p ts e] True by simp
    moreover have "caller_step (?q, [MAdd, MSignal] # ts) (?q\<lparr>pollingVersion := pollingVersion ?q + 1\<rparr>, [MSignal] # ts)"
      using run [of ?q MAdd "[MSignal]"] by (simp add: do_micro_def)
    moreover note signal [of "?q\<lparr>pollingVersion := pollingVersion ?q + 1\<rparr>"]
    ultimately have "caller_step\<^sup>*\<^sup>* (p, ts) (signalWake (?q\<lparr>pollingVersion := pollingVersion ?q + 1\<rparr>), [] # ts)"
      by (meson converse_rtranclp_into_rtranclp)
    with True show ?thesis by (simp add: SetPollingEnabled_def Let_def)
  next
    case False
    then have "caller_step (p, ts) (p\<lparr>pollingEnabled := e\<rparr>, [MSignal] # ts)" using swap [of p ts e] by auto
    with signal have "caller_step\<^sup>*\<^sup>* (p, ts) (signalWake (p\<lparr>pollingEnabled := e\<rparr>), [] # ts)"
      by (meson converse_rtranclp_into_rtranclp)
    with False show ?thesis by (auto simp: SetPollingEnabled_def Let_def)
  qed
  moreover have "caller_step\<^sup>*\<^sup>* (p, ts) (RequestTimeSync p, [] # ts)"
    unfolding RequestTimeSync_def by (rule converse_rtranclp_into_rtranclp [OF ask signal])
  moreover have "case QueueConfigWrite key v p of
      (Inl _, q) \<Rightarrow> q = p | (Inr _, q) \<Rightarrow> caller_step\<^sup>*\<^sup>* (p, ts) (q, [] # ts)"
    using converse_rtranclp_into_rtranclp [OF send [of p ts key v] signal] by (simp add: QueueConfigWrite_def)
  ultimately show ?thesis using four_steps by simp
qed

section \<open>An interleaving to try them on\<close>

text \<open>
  Polling is enabled just after the loop has read that it is not, and the caller has not
  signalled when the loop blocks.
\<close>

definition early_start :: goroutines where
  "early_start = service_start 1000 \<lparr>wall = 1000, monotonic = 0, zoneName = [], zoneOffset = 0\<rparr>
     \<lparr>ConfigInterval = 5, StatusInterval = 5\<rparr>"

definition early_bird :: polling where
  "early_bird = (fst early_start)\<lparr>pollingEnabled := True, pollingVersion := 1\<rparr>"

lemma early_start_simps:
  "\<not> pollingEnabled (fst early_start)" "pollingVersion (fst early_start) = 0" "observedVersion (fst early_start) = 0"
  "commands (fst early_start) = []" "\<not> timeSyncRequests (fst early_start)" "\<not> wake (fst early_start)"
  "1000 \<le> watchdogDeadline (fst early_start)" "timeSyncDeadline (fst early_start) = 1000"
  by (simp_all add: early_start_def service_start_def poll_Start_def SetSink_def NewPollingService_def
      clockWatchdogInterval_def second_def)

lemma early_start_eq: "early_start = (fst early_start, Top, [])"
  by (simp add: early_start_def service_start_def)

lemma early_bird_run:
  "service_step\<^sup>*\<^sup>* early_start (early_bird, Idle, [[MSignal]])"
proof -
  let ?p = "fst early_start" and ?q = "(fst early_start)\<lparr>pollingEnabled := True\<rparr>"
  have a1: "loop_step (?p, Top) (?p, SawEnabled 500 False)" using load_enabled [of ?p 500] by (simp add: early_start_simps)
  have a2: "caller_step (?p, []) (?q, [[MAdd, MSignal]])" using swap [of ?p "[]" True] by (simp add: early_start_simps)
  have a3: "loop_step (?q, SawEnabled 500 False) (?q, SawVersion 500 False 0)"
    using load_version [of ?q 500 False] by (simp add: early_start_simps)
  have a4: "loop_step (?q, SawVersion 500 False 0) (?q, SawCommands 500 False 0 False)"
    using count_commands [of ?q 500 False 0] by (simp add: early_start_simps)
  have a5: "loop_step (?q, SawCommands 500 False 0 False) (?q, Idle)"
  proof -
    have "decide_with 500 False 0 False ?q =
        (\<lparr>commandsDue = False, configDue = False, watchdogDue = False, timeSyncDue = False, statusDue = False\<rparr>, ?q)"
      using early_start_simps by (simp add: decide_with_def)
    from take_request [OF this] show ?thesis by (simp add: workDue_def)
  qed
  have a6: "caller_step (?q, [[MAdd, MSignal]]) (early_bird, [[MSignal]])"
    using continue [of ?q "[]" MAdd "[MSignal]" "[]"]
    by (simp add: do_micro_def early_bird_def early_start_simps)
  have "service_step\<^sup>*\<^sup>* (?q, Idle, [[MAdd, MSignal]]) (early_bird, Idle, [[MSignal]])"
    by (rule r_into_rtranclp) (rule by_caller [OF a6])
  note steps = converse_rtranclp_into_rtranclp [OF by_loop [OF a5] this]
  note steps = converse_rtranclp_into_rtranclp [OF by_loop [OF a4] steps]
  note steps = converse_rtranclp_into_rtranclp [OF by_loop [OF a3] steps]
  note steps = converse_rtranclp_into_rtranclp [OF by_caller [OF a2] steps]
  show ?thesis
    by (subst early_start_eq) (rule converse_rtranclp_into_rtranclp [OF by_loop [OF a1] steps])
qed

lemma early_bird_pending: "work_pending early_bird"
  by (simp add: work_pending_def early_bird_def early_start_simps)

theorem no_lost_wakeup_witness:
  "\<not> wake early_bird \<and> work_pending early_bird \<and> (wake early_bird \<or> (\<exists>t \<in> set [[MSignal]]. MSignal \<in> set t))"
  using no_lost_wakeup [OF early_bird_run [unfolded early_start_def] early_bird_pending] early_bird_pending
  by (simp add: early_bird_def early_start_simps)

theorem pending_work_is_found_witness:
  "loop_step (signalWake early_bird, Idle) ((signalWake early_bird)\<lparr>wake := False\<rparr>, Top)"
proof -
  have "service_step (early_bird, Idle, [[MSignal]]) (signalWake early_bird, Idle, [[]])"
    using continue [of early_bird "[]" MSignal "[]" "[]"] by (auto simp: do_micro_def intro: by_caller)
  with early_bird_run have run: "service_step\<^sup>*\<^sup>* early_start (signalWake early_bird, Idle, [[]])"
    by (rule rtranclp.rtrancl_into_rtrancl)
  have "work_pending (signalWake early_bird)"
    using early_bird_pending by (simp add: work_pending_def signalWake_def)
  with pending_work_is_found [OF run [unfolded early_start_def]] show ?thesis by simp
qed

theorem undisturbed_steps_are_the_calls_witness:
  "caller_step\<^sup>*\<^sup>* (early_bird, []) (SetPollingEnabled False early_bird, [[]])"
  using undisturbed_steps_are_the_calls [of early_bird early_bird Top "[]" False "[]" GNil] by simp

end
