(* ===== verification/Number_Limits.thy ===== *)
theory Number_Limits
  imports Inverter
begin

text \<open>
  The limits of the writable numbers (\<open>src/registers.go\<close>, lines 490 to 612): those of the
  register, the battery and the published configuration, the test of a command value
  against them, and what the test guarantees of the write that follows.
\<close>

section \<open>Limits\<close>

record numberLimits =
  lim_Min :: float64
  lim_Max :: float64
  lim_Step :: float64

definition limits :: "rat \<Rightarrow> rat \<Rightarrow> rat \<Rightarrow> numberLimits" where
  "limits low high step = \<lparr>lim_Min = rne low, lim_Max = rne high, lim_Step = rne step\<rparr>"

definition configNumberLimits :: "(string \<times> numberLimits) list" where
  "configNumberLimits =
    [(''UtiOutStart'', limits 0 23 1), (''UtiOutEnd'', limits 0 23 1),
     (''UtiChargeStart'', limits 0 23 1), (''UtiChargeEnd'', limits 0 23 1),
     (''LCDLanguage'', limits 0 1 1), (''MoudleH'', limits 0 1 1),
     (''ComAddress'', limits 1 254 1), (''ResetUserInfo'', limits 0 1 1),
     (''ResetToFactory'', limits 0 1 1), (''MaxChargeAmps'', limits 0 180 1),
     (''BulkChargeVolt'', limits 50 64 (1 / 10)), (''FloatChargeVolt'', limits 50 56 (1 / 10)),
     (''ACChargeAmps'', limits 0 80 1),
     (''LiProtocolType'', limits 0 99 1)]"

definition discoveryNominalMaxRegisters :: "(string \<times> string) list" where
  "discoveryNominalMaxRegisters =
    [(''ACChargeAmps'', ''NomAcChgCurrRaw''),
     (''MaxChargeAmps'', ''ParaMaxChgAmps'')]"

text \<open>Indexing a map with a key it does not have gives nil.\<close>

definition value_at :: "govalues \<Rightarrow> string \<Rightarrow> goval" where
  "value_at m key = (case map_of m key of None \<Rightarrow> GNil | Some v \<Rightarrow> v)"

text \<open>A nil map and an empty one look the same to every reader of the copy.\<close>

definition copyConfigMap :: "govalues \<Rightarrow> govalues" where
  "copyConfigMap config = fold (\<lambda>(key, v) copied. AList.update key v copied) config []"

definition valueWithinNumberLimits :: "goval \<Rightarrow> numberLimits \<Rightarrow> bool" where
  "valueWithinNumberLimits v lims =
     (case scalarAsFloat64 v of
        None \<Rightarrow> False
      | Some number \<Rightarrow>
          fle (fsub (lim_Min lims) (rne (1 / 1000000000))) number \<and>
          fle number (fadd (lim_Max lims) (rne (1 / 1000000000))))"

definition baseNumberLimits :: "string \<Rightarrow> string \<Rightarrow> numberLimits" where
  "baseNumberLimits key battery =
     (if key = ''BatLowtoUti'' \<or> key = ''uwAC2BatVolt'' then
        (if battery = ''Lithium'' then limits 5 100 1
         else if battery \<noteq> [] then limits 20 64 (1 / 10)
         else limits 5 100 (1 / 10))
      else
        (case map_of configNumberLimits key of
           Some lims \<Rightarrow> lims
         | None \<Rightarrow> limits 0 65535 1))"

text \<open>Lines 578 to 589: the published value may widen the limits up to its nominal register.\<close>

definition widen :: "string \<Rightarrow> govalues \<Rightarrow> numberLimits \<Rightarrow> numberLimits" where
  "widen key config lims =
     (case map_of discoveryNominalMaxRegisters key of
        None \<Rightarrow> lims
      | Some nominalKey \<Rightarrow>
          (case (scalarAsFloat64 (value_at config key), scalarAsFloat64 (value_at config nominalKey)) of
             (Some state, Some nominal) \<Rightarrow>
               if fle state nominal then
                 (let lims = (if flt (lim_Max lims) state then lims\<lparr>lim_Max := state\<rparr> else lims)
                  in if flt state (lim_Min lims) then lims\<lparr>lim_Min := state\<rparr> else lims)
               else lims
           | _ \<Rightarrow> lims))"

definition discoveryNumberLimits :: "string \<Rightarrow> govalues \<Rightarrow> string \<Rightarrow> numberLimits" where
  "discoveryNumberLimits key config battery =
     (let lims = widen key config (baseNumberLimits key battery)
      in if key = ''FloatChargeVolt''
         then (let bulk = baseNumberLimits ''BulkChargeVolt'' battery
               in if flt (lim_Max lims) (lim_Max bulk) then lims\<lparr>lim_Max := lim_Max bulk\<rparr> else lims)
         else lims)"

definition validateWritableNumberValue :: "f2i \<Rightarrow> string \<Rightarrow> goval \<Rightarrow> govalues \<Rightarrow> string \<Rightarrow> err + unit" where
  "validateWritableNumberValue oob key v config battery =
     (if \<not> isWritableNumberRegister oob key then Inr ()
      else let lims = discoveryNumberLimits key config battery
        in (case scalarAsFloat64 v of
              None \<Rightarrow> Inl (EMsg (MNumericRequired key))
            | Some number \<Rightarrow>
                if flt number (lim_Min lims) \<or> flt (lim_Max lims) number
                then Inl (EMsg (MOutsideLimits key))
                else Inr ()))"

section \<open>A copy is the map\<close>

lemma copyConfigMap_id:
  assumes "distinct (map fst config)"
  shows "copyConfigMap config = config"
proof -
  have "fold (\<lambda>(key, v) copied. AList.update key v copied) config acc = acc @ config"
    if "distinct (map fst config)" "fst ` set acc \<inter> fst ` set config = {}" for acc
    using that
  proof (induction config arbitrary: acc)
    case (Cons c config)
    obtain k v where c: "c = (k, v)" by (cases c)
    with Cons.prems have "k \<notin> fst ` set acc" by auto
    with c Cons show ?case by (simp add: update_new_key)
  qed simp
  from this [of "[]"] assms show ?thesis by (simp add: copyConfigMap_def)
qed

lemma map_of_copyConfigMap: "map_of (copyConfigMap config) k = map_of (rev config) k"
proof -
  have "map_of (fold (\<lambda>(key, v) copied. AList.update key v copied) config acc) k = map_of (rev config @ acc) k" for acc
    by (induction config arbitrary: acc) (auto simp: update_conv' split: option.splits)
  from this [of "[]"] show ?thesis by (simp add: copyConfigMap_def)
qed

section \<open>The registers the limits apply to\<close>

text \<open>Four of them are published in tenths; their limits start at 5.\<close>

definition tenth_keys :: "string list" where
  "tenth_keys = [''BulkChargeVolt'', ''FloatChargeVolt'', ''BatLowtoUti'', ''uwAC2BatVolt'']"

definition number_row :: "f2i \<Rightarrow> registerDef \<Rightarrow> bool" where
  "number_row oob d \<longleftrightarrow>
     reg_Type d = RegisterUint \<and> reg_Length d = 1 \<and>
     reg_Write d = Some (if reg_Key d \<in> set tenth_keys then scaleWrite oob f10 else intWrite oob)"

definition number_key :: "string \<Rightarrow> bool" where
  "number_key key \<longleftrightarrow> key \<notin> set booleanKeys \<and> map_of selectOptions key = None"

lemma number_rows:
  "list_all (\<lambda>d. number_key (reg_Key d) \<longrightarrow> reg_Write d \<noteq> None \<longrightarrow> reg_Type d \<noteq> RegisterChar \<longrightarrow> number_row oob d)
     (holdingRegisters oob)"
  by (simp add: holdingRegisters_def number_row_def number_key_def tenth_keys_def booleanKeys_def selectOptions_def)

lemma writable_number:
  assumes "isWritableNumberRegister oob key"
  obtains d where "holdingByKey oob key = Some d" and "number_row oob d" and "reg_Key d = key"
proof -
  obtain d where d: "holdingByKey oob key = Some d" "reg_Write d \<noteq> None" "number_key key" "reg_Type d \<noteq> RegisterChar"
    using assms by (auto simp: isWritableNumberRegister_def number_key_def split: option.splits if_splits)
  then have "d \<in> set (holdingRegisters oob)" "reg_Key d = key" by (simp_all add: holdingByKey_mem)
  with d number_rows [of oob] that show thesis by (auto simp: list_all_iff)
qed

section \<open>How wide the limits can be\<close>

definition limits_within :: "rat \<Rightarrow> rat \<Rightarrow> numberLimits \<Rightarrow> bool" where
  "limits_within a b lims \<longleftrightarrow> (\<exists>x y. lim_Min lims = FFin x \<and> lim_Max lims = FFin y \<and> a \<le> x \<and> y \<le> b)"

lemma rne_numeral: "numeral n < (2 ^ 53 :: int) \<Longrightarrow> rne (numeral n) = FFin (numeral n)"
  using rne_of_int [of "numeral n"] by simp

lemma limits_numeral:
  "lim_Min (limits 0 b s) = FFin 0"
  "lim_Min (limits 1 b s) = FFin 1"
  "numeral m < (2 ^ 53 :: int) \<Longrightarrow> lim_Min (limits (numeral m) b s) = FFin (numeral m)"
  "lim_Max (limits a 1 s) = FFin 1"
  "numeral n < (2 ^ 53 :: int) \<Longrightarrow> lim_Max (limits a (numeral n) s) = FFin (numeral n)"
  using rne_of_int [of 1] by (simp_all add: limits_def rne_numeral)

lemma config_limits_within: "list_all (\<lambda>(k, lims). limits_within 0 65535 lims) configNumberLimits"
  by (simp add: configNumberLimits_def limits_within_def limits_numeral)

lemma base_within: "limits_within 0 65535 (baseNumberLimits key battery)"
proof (cases "map_of configNumberLimits key")
  case None
  then show ?thesis by (simp add: baseNumberLimits_def limits_within_def limits_numeral)
next
  case (Some lims)
  then have "limits_within 0 65535 lims"
    using config_limits_within map_of_SomeD by (fastforce simp: list_all_iff)
  with Some show ?thesis by (simp add: baseNumberLimits_def limits_within_def limits_numeral)
qed

lemma base_within_tenths: "key \<in> set tenth_keys \<Longrightarrow> limits_within 5 100 (baseNumberLimits key battery)"
  by (simp add: tenth_keys_def; elim disjE)
    (simp_all add: baseNumberLimits_def configNumberLimits_def limits_within_def limits_numeral)

text \<open>What is published for the registers with a nominal one is a word.\<close>

definition amps_are_words :: "govalues \<Rightarrow> bool" where
  "amps_are_words config \<longleftrightarrow>
     (\<forall>key f. map_of discoveryNominalMaxRegisters key \<noteq> None \<longrightarrow> scalarAsFloat64 (value_at config key) = Some f \<longrightarrow>
        (\<exists>x. f = FFin x \<and> 0 \<le> x \<and> x \<le> 65535))"

lemma widen_within:
  assumes "limits_within 0 65535 lims" and "amps_are_words config"
  shows "limits_within 0 65535 (widen key config lims)"
proof (cases "map_of discoveryNominalMaxRegisters key")
  case None
  with assms(1) show ?thesis by (simp add: widen_def)
next
  case (Some nominalKey)
  show ?thesis
  proof (cases "scalarAsFloat64 (value_at config key)")
    case None
    with Some assms(1) show ?thesis by (simp add: widen_def)
  next
    case state: (Some f)
    with assms(2) Some obtain z where "f = FFin z" "0 \<le> z" "z \<le> 65535"
      unfolding amps_are_words_def by blast
    with Some state assms(1) show ?thesis
      by (auto simp: widen_def limits_within_def Let_def split: option.splits)
  qed
qed

lemma widen_tenths: "key \<in> set tenth_keys \<Longrightarrow> widen key config lims = lims"
  by (auto simp: widen_def tenth_keys_def discoveryNominalMaxRegisters_def)

lemma discovery_within:
  assumes "amps_are_words config"
  shows "limits_within 0 65535 (discoveryNumberLimits key config battery)"
  using widen_within [OF base_within assms, of key key battery] base_within [of "''BulkChargeVolt''" battery]
  by (auto simp: discoveryNumberLimits_def limits_within_def Let_def)

lemma discovery_within_tenths:
  assumes "key \<in> set tenth_keys"
  shows "limits_within 5 100 (discoveryNumberLimits key config battery)"
  using base_within_tenths [OF assms, of battery] base_within_tenths [of "''BulkChargeVolt''" battery] assms
  by (auto simp: discoveryNumberLimits_def limits_within_def Let_def widen_tenths tenth_keys_def)

section \<open>A validated number fits its register\<close>

text \<open>The numbers a command can carry.\<close>

definition command_number :: "goval \<Rightarrow> bool" where
  "command_number v \<longleftrightarrow> (\<exists>f. v = GFloat f \<and> f \<noteq> FNaN) \<or> (\<exists>n. v = GInt64 n \<and> in_int64 n)"

lemma validated:
  assumes "validateWritableNumberValue oob key v config battery = Inr ()" and "isWritableNumberRegister oob key"
    and "command_number v" and "limits_within a b (discoveryNumberLimits key config battery)"
  obtains x where "scalarAsFloat64 v = Some (FFin x)" and "a \<le> x" and "x \<le> b"
proof -
  obtain lo hi where l: "lim_Min (discoveryNumberLimits key config battery) = FFin lo"
    "lim_Max (discoveryNumberLimits key config battery) = FFin hi" "a \<le> lo" "hi \<le> b"
    using assms(4) by (auto simp: limits_within_def)
  obtain f where f: "scalarAsFloat64 v = Some f" "\<not> flt f (FFin lo)" "\<not> flt (FFin hi) f"
    using assms(1,2) l by (auto simp: validateWritableNumberValue_def Let_def split: option.splits if_splits)
  have "f \<noteq> FNaN"
  proof (cases "\<exists>n. v = GInt64 n")
    case True
    then obtain n where n: "v = GInt64 n" "in_int64 n" using assms(3) by (auto simp: command_number_def)
    show ?thesis
    proof
      assume "f = FNaN"
      with f n have "rne (of_int n) = FNaN" by (simp add: float_of_int_def)
      then show False by (auto simp: rne_def Let_def split: if_splits)
    qed
  next
    case False
    with assms(3) f show ?thesis by (auto simp: command_number_def)
  qed
  with f(2,3) obtain x where "f = FFin x" by (cases f) auto
  with f l that show thesis by simp
qed

lemma float_of_int_small:
  assumes "in_int64 n" and "float_of_int n = FFin x" and "0 \<le> x" and "x \<le> 65535"
  shows "x = of_int n \<and> 0 \<le> n \<and> n \<le> 65535"
proof (cases "\<bar>n\<bar> < 2 ^ 53")
  case True
  with float_of_int_exact [OF True] assms show ?thesis by simp
next
  case False
  let ?r = "of_int n :: rat"
  have big: "2 ^ 53 \<le> \<bar>?r\<bar>" using False by (simp flip: of_int_abs)
  have "\<bar>n\<bar> \<le> 2 ^ 63" using assms(1) by (simp add: in_int64_def min_int64_def max_int64_def) linarith
  then have "\<bar>?r\<bar> \<le> 2 ^ 63" by (simp flip: of_int_abs)
  also have "(2 ^ 63 :: rat) = 2 powi 63" by simp
  also have "(2 powi 63 :: rat) < 2 powi 1022" by (simp only: powi2_less_iff)
  finally have hi: "\<bar>?r\<bar> < 2 powi 1022" .
  have "(2 powi (-1022) :: rat) \<le> 2 powi 53" by (intro power_int_increasing) simp_all
  then have lo: "2 powi (-1022) \<le> \<bar>?r\<bar>" using big by simp
  obtain v where "rne ?r = FFin v" "\<bar>v - ?r\<bar> \<le> \<bar>?r\<bar> / 2 ^ 53" using rne_relative_error [OF lo hi] .
  with assms(2) have "\<bar>x - ?r\<bar> \<le> \<bar>?r\<bar> / 2 ^ 53" by (simp add: float_of_int_def)
  with assms(3,4) big have False by (simp add: field_simps abs_if split: if_splits)
  then show ?thesis ..
qed

lemma round_away_between: "of_int a \<le> x \<Longrightarrow> x \<le> of_int b \<Longrightarrow> 0 \<le> a \<Longrightarrow> a \<le> round_away x \<and> round_away x \<le> b"
  by (simp add: round_away_def le_floor_iff floor_le_iff)

lemma int64_of_small: "0 \<le> n \<Longrightarrow> n \<le> 65535 \<Longrightarrow> int64_of_float oob (FFin (of_int n)) = n"
  by (rule int64_of_float_of_int) simp

lemma intWrite_small:
  assumes "command_number v" and "scalarAsFloat64 v = Some (FFin x)" and "0 \<le> x" and "x \<le> 65535"
  shows "intWrite oob v = Inl (EMsg MNotInteger) \<or> (\<exists>n. intWrite oob v = Inr (GInt64 n) \<and> 0 \<le> n \<and> n < 65536)"
  using assms(1)
  unfolding command_number_def
proof (elim disjE exE conjE)
  fix f assume v: "v = GFloat f"
  with assms(2) have f: "f = FFin x" by simp
  let ?n = "round_away x"
  have "0 \<le> ?n" "?n \<le> 65535" using round_away_between [of 0 x 65535] assms(3,4) by simp_all
  then have "int64_of_float oob (FFin (of_int ?n)) = ?n" by (rule int64_of_small)
  with \<open>0 \<le> ?n\<close> \<open>?n \<le> 65535\<close> show ?thesis by (simp add: v f intWrite_def floatAsInt64_def Let_def)
next
  fix n assume v: "v = GInt64 n" and "in_int64 n"
  with assms float_of_int_small [of n x] show ?thesis by (simp add: intWrite_def)
qed

lemma scaleWrite_small:
  assumes "command_number v" and "scalarAsFloat64 v = Some (FFin x)" and "5 \<le> x" and "x \<le> 100"
  shows "\<exists>n. scaleWrite oob f10 v = Inr (GInt64 n) \<and> 0 \<le> n \<and> n < 65536"
proof -
  have f: "asFloat64 v = Inr (FFin x)"
    using assms(1,2) by (auto simp: command_number_def)
  obtain y where y: "rne (x * 10) = FFin y" "\<bar>y - x * 10\<bar> \<le> x * 10 / 2 ^ 53"
    using rne_relative_error_mid [of "x * 10"] assms(3,4) by auto
  let ?n = "round_away y"
  have "x * 10 / 2 ^ 53 \<le> 1" using assms(4) by simp
  with y(2) have "\<bar>y - x * 10\<bar> \<le> 1" by linarith
  then have "0 \<le> y" "y \<le> 1001" using assms(3,4) by linarith+
  then have n: "0 \<le> ?n" "?n \<le> 1001" using round_away_between [of 0 y 1001] by simp_all
  then have "int64_of_float oob (FFin (of_int ?n)) = ?n" by (intro int64_of_small) simp_all
  with f y(1) n show ?thesis by (simp add: scaleWrite_def f10_def)
qed

lemma validated_prepares:
  assumes num: "isWritableNumberRegister oob key" and v: "command_number v" and amps: "amps_are_words config"
    and ok: "validateWritableNumberValue oob key v config battery = Inr ()"
  shows "(\<exists>d vals. prepare_write oob key v = Inr (d, vals)) \<or>
    prepare_write oob key v = Inl (ECommand (EWrap (''invalid value for '' @ key) (EMsg MNotInteger)))"
proof -
  obtain d where d: "holdingByKey oob key = Some d" "number_row oob d" "reg_Key d = key"
    using writable_number [OF num] .
  have fits: "\<exists>vals. encodeRawValue oob (GInt64 n) d = Inr vals" if "0 \<le> n" "n < 65536" for n
    using encode_numeric [of n d oob] d(2) that
    by (simp add: number_row_def numeric_type_def register_range_def in_int64_def min_int64_def max_int64_def)
  show ?thesis
  proof (cases "key \<in> set tenth_keys")
    case True
    obtain x where "scalarAsFloat64 v = Some (FFin x)" "5 \<le> x" "x \<le> 100"
      using validated [OF ok num v discovery_within_tenths [OF True]] .
    from scaleWrite_small [OF v this, of oob] obtain n where
      n: "scaleWrite oob f10 v = Inr (GInt64 n)" "0 \<le> n" "n < 65536" by blast
    from fits [OF n(2,3)] n(1) d True show ?thesis
      by (auto simp: prepare_write_def number_row_def)
  next
    case False
    obtain x where "scalarAsFloat64 v = Some (FFin x)" "0 \<le> x" "x \<le> 65535"
      using validated [OF ok num v discovery_within [OF amps]] .
    from intWrite_small [OF v this, of oob] show ?thesis
    proof (elim disjE exE conjE)
      fix n assume n: "intWrite oob v = Inr (GInt64 n)" "0 \<le> n" "n < 65536"
      from fits [OF n(2,3)] n(1) d False show ?thesis
        by (auto simp: prepare_write_def number_row_def)
    qed (use d False in \<open>simp add: prepare_write_def number_row_def\<close>)
  qed
qed

text \<open>A decoded configuration publishes the registers with a nominal one as words.\<close>

lemma in_int64_word: "0 \<le> n \<Longrightarrow> n \<le> 65535 \<Longrightarrow> in_int64 n"
  by (simp add: in_int64_def min_int64_def max_int64_def)

lemma identity_word:
  assumes "decode_row registers (reg key start 1 RegisterUint identity wr) = Inr v"
  shows "\<exists>n. v = GInt64 n \<and> 0 \<le> n \<and> n \<le> 65535"
proof -
  let ?d = "reg key start 1 RegisterUint identity wr"
  have inside: "\<not> (start < 0 \<or> start + 1 > int (length registers))"
  proof
    assume "start < 0 \<or> start + 1 > int (length registers)"
    then have "decodeRegisterValue registers ?d = Inl (EMsg MOutsideBuffer)"
      by (auto simp: decodeRegisterValue_def)
    with assms show False by (simp add: decode_row_def)
  qed
  then obtain w where w: "take (nat 1) (drop (nat start) registers) = [w]"
    by (cases "drop (nat start) registers") auto
  have range: "0 \<le> uint w" "uint w \<le> 65535" using uint_lt2p [of w] by simp_all
  then have "in_int64 (uint w)" by (rule in_int64_word)
  then have "sint (ucast w :: 64 word) = uint w" unfolding ucast_eq by (rule sint_of_int64)
  with inside w have "decodeRegisterValue registers ?d = Inr (raw_int (uint w))"
    by (simp add: decodeRegisterValue_def Let_def join_words_def)
  with assms have "v = GInt64 (uint w)" by (simp add: decode_row_def identity_def)
  with range show ?thesis by blast
qed

lemma decoded_amps:
  assumes "decodeRegisterTable registers (holdingRegisters oob) = Inr config"
  shows "amps_are_words config"
  unfolding amps_are_words_def
proof (intro allI impI)
  fix key f
  assume key: "map_of discoveryNominalMaxRegisters key \<noteq> None" and f: "scalarAsFloat64 (value_at config key) = Some f"
  obtain start wr where d: "reg key start 1 RegisterUint identity wr \<in> set (holdingRegisters oob)"
    using key by (auto simp: discoveryNominalMaxRegisters_def holdingRegisters_def split: if_splits)
  from decodeRegisterTable_Inr [OF assms holding_keys_distinct] d obtain v where
    v: "decode_row registers (reg key start 1 RegisterUint identity wr) = Inr v" "map_of config key = Some v"
    unfolding decoded_from_def by force
  from identity_word [OF v(1)] obtain n where n: "v = GInt64 n" "0 \<le> n" "n \<le> 65535" by blast
  with v(2) f float_of_int_exact [of n] have "f = FFin (of_int n)" by (simp add: value_at_def)
  moreover have "(0 :: rat) \<le> of_int n" "of_int n \<le> (65535 :: rat)"
    using n by (simp, metis of_int_le_iff of_int_numeral)
  ultimately show "\<exists>x. f = FFin x \<and> 0 \<le> x \<and> x \<le> 65535" by blast
qed

lemma known_amps:
  assumes "config = [] \<or> decodeRegisterTable registers (holdingRegisters oob) = Inr config"
  shows "amps_are_words config"
  using assms
proof
  assume "config = []"
  then show ?thesis by (simp add: amps_are_words_def value_at_def)
qed (rule decoded_amps)

text \<open>C13: a number that passes the limits of a writable number
  register, against any configuration decoded from the inverter and any battery type, is
  then written: it always fits the register, scaled or not; the one refusal left is that of
  a fraction for a register of whole numbers.\<close>

theorem validated_numbers_fit:
  assumes "isWritableNumberRegister oob key" and "command_number v"
    and "config = [] \<or> decodeRegisterTable registers (holdingRegisters oob) = Inr config"
    and "validateWritableNumberValue oob key v config battery = Inr ()"
  shows "(\<exists>d vals. prepare_write oob key v = Inr (d, vals)) \<or>
    prepare_write oob key v = Inl (ECommand (EWrap (''invalid value for '' @ key) (EMsg MNotInteger)))"
  by (rule validated_prepares [OF assms(1,2) known_amps [OF assms(3)] assms(4)])

theorem validated_numbers_fit_witness:
  "\<exists>d vals. prepare_write (\<lambda>_. 0) ''FloatChargeVolt'' (GFloat (FFin (271 / 5))) = Inr (d, vals)"
proof -
  let ?v = "GFloat (FFin (271 / 5))"
  have "isWritableNumberRegister (\<lambda>_. 0) ''FloatChargeVolt''"
    "validateWritableNumberValue (\<lambda>_. 0) ''FloatChargeVolt'' ?v [] ''AGM'' = Inr ()" by code_simp+
  moreover have "command_number ?v" by (simp add: command_number_def)
  ultimately have "(\<exists>d vals. prepare_write (\<lambda>_. 0) ''FloatChargeVolt'' ?v = Inr (d, vals)) \<or>
    prepare_write (\<lambda>_. 0) ''FloatChargeVolt'' ?v =
      Inl (ECommand (EWrap (''invalid value for '' @ ''FloatChargeVolt'') (EMsg MNotInteger)))"
    using validated_numbers_fit [of "\<lambda>_. 0" "''FloatChargeVolt''" ?v "[]" "[]" "''AGM''"] by blast
  moreover have "isl (prepare_write (\<lambda>_. 0) ''FloatChargeVolt'' ?v) = False" by code_simp
  ultimately show ?thesis by auto
qed

end
