(* ===== verification/Mqtt_Values.thy ===== *)
theory Mqtt_Values
  imports Number_Limits
begin

text \<open>
  Values on the wire (\<open>src/mqtt.go\<close>): what the service prints for a published value
  (\<open>mqttValue\<close>, with \<open>strconv.AppendFloat\<close> in its shortest form) and what it reads from the
  payload of a command (\<open>parseMQTTCommandValue\<close>, with \<open>encoding/json\<close> on scalars).
\<close>

section \<open>The shortest decimal of a float\<close>

text \<open>The decimal exponent of a positive \<open>r\<close>: \<open>10 powi decimal_exp r \<le> r < 10 powi (decimal_exp r + 1)\<close>.\<close>

definition decimal_exp :: "rat \<Rightarrow> int" where
  "decimal_exp r =
     (if 1 \<le> r then int (length (show_nat (nat \<lfloor>r\<rfloor>))) - 1
      else - int (length (show_nat (nat (\<lceil>1 / r\<rceil> - 1)))))"

text \<open>
  The decimals of \<open>n\<close> digits next to a positive \<open>r\<close> that read back as \<open>r\<close>, as digits and
  exponent of the first one; the nearer of two.
\<close>

definition digits_of_length :: "rat \<Rightarrow> nat \<Rightarrow> (string \<times> int) option" where
  "digits_of_length r n =
     (let e = decimal_exp r; unit = 10 powi (e - int n + 1); low = \<lfloor>r / unit\<rfloor>;
          reads = (\<lambda>d. rne (of_int d * unit) = FFin r);
          result = (\<lambda>d. if d = 10 ^ n then (''1'', e + 1) else (show_int d, e))
      in if reads low \<and> reads (low + 1) then Some (result (round_half_even (r / unit)))
         else if reads low then Some (result low)
         else if reads (low + 1) then Some (result (low + 1))
         else None)"

text \<open>Seventeen digits always suffice for a binary64 value, so the search stops there.\<close>

fun shortest_of :: "rat \<Rightarrow> nat list \<Rightarrow> string \<times> int" where
  "shortest_of r [] = (''0'', 0)"
| "shortest_of r (n # ns) =
     (case digits_of_length r n of
        None \<Rightarrow> shortest_of r ns
      | Some (ds, e) \<Rightarrow> (ds, e))"

definition shortest :: "rat \<Rightarrow> string \<times> int" where
  "shortest r = shortest_of r [1, 2, 3, 4, 5, 6, 7, 8, 9, 10, 11, 12, 13, 14, 15, 16, 17]"

definition pad_zeros :: "nat \<Rightarrow> string" where
  "pad_zeros n = replicate n (CHR ''0'')"

text \<open>\<open>%e\<close> and \<open>%f\<close> of the digits; the exponent has at least two digits.\<close>

definition format_e :: "string \<Rightarrow> int \<Rightarrow> string" where
  "format_e ds e =
     hd ds # (if tl ds = [] then [] else CHR ''.'' # tl ds) @
     ''e'' @ (if e < 0 then ''-'' else ''+'') @
     (let x = show_nat (nat \<bar>e\<bar>) in pad_zeros (2 - length x) @ x)"

definition format_f :: "string \<Rightarrow> int \<Rightarrow> string" where
  "format_f ds e =
     (let point = nat (e + 1); whole = take point ds @ pad_zeros (point - length ds);
          fraction = pad_zeros (nat (- e - 1)) @ drop point ds
      in (if whole = [] then ''0'' else whole) @ (if fraction = [] then [] else CHR ''.'' # fraction))"

definition format_g :: "float64 \<Rightarrow> string" where
  "format_g f =
     (case f of
        FNaN \<Rightarrow> ''NaN''
      | FInf neg \<Rightarrow> (if neg then ''-Inf'' else ''+Inf'')
      | FFin x \<Rightarrow>
          if x = 0 then ''0''
          else (case shortest \<bar>x\<bar> of (ds, e) \<Rightarrow>
            (if x < 0 then ''-'' else []) @
            (if e < -4 \<or> 6 \<le> e then format_e ds e else format_f ds e)))"


section \<open>Printing\<close>

text \<open>
  \<open>other\<close> is \<open>fmt.Append\<close> for the values the switch does not list and the tables never
  publish; integers and nil print the same everywhere.
\<close>

definition mqttValue :: "(goval \<Rightarrow> string) \<Rightarrow> goval \<Rightarrow> string" where
  "mqttValue other v =
     (case v of
        GString s \<Rightarrow> s
      | GInt64 n \<Rightarrow> show_int n
      | GFloat f \<Rightarrow> format_g f
      | GBool b \<Rightarrow> (if b then ''true'' else ''false'')
      | GInt n \<Rightarrow> show_int n
      | GUint16 w \<Rightarrow> show_int (uint w)
      | GNil \<Rightarrow> ''<nil>''
      | v \<Rightarrow> other v)"

section \<open>Scalars of JSON\<close>

text \<open>The UTF-8 encoding of a code point.\<close>

definition encodeRune :: "nat \<Rightarrow> string" where
  "encodeRune r =
     map char_of
       (if r < 128 then [r]
        else if r < 2048 then [192 + r div 64, 128 + r mod 64]
        else if r < 65536 then [224 + r div 4096, 128 + r div 64 mod 64, 128 + r mod 64]
        else [240 + r div 262144, 128 + r div 4096 mod 64, 128 + r div 64 mod 64, 128 + r mod 64])"

definition hex4 :: "string \<Rightarrow> nat option" where
  "hex4 s =
     (let ds = take 4 s
      in if length ds = 4 \<and> list_all (\<lambda>c. is_digit c \<or> is_hex_letter c) ds
         then Some (fold (\<lambda>c n. 16 * n + digit_val c) ds 0)
         else None)"

text \<open>The code point of a high surrogate and the escape after it, when that is a low one.\<close>

definition surrogate_pair :: "nat \<Rightarrow> string \<Rightarrow> nat option" where
  "surrogate_pair high s =
     (if high < 56320 \<and> take 2 s = [CHR 0x5C, CHR ''u''] then
        (case hex4 (drop 2 s) of
           None \<Rightarrow> None
         | Some low \<Rightarrow>
             if 56320 \<le> low \<and> low < 57344
             then Some ((high - 55296) * 1024 + (low - 56320) + 65536) else None)
      else None)"

definition json_escapes :: "(char \<times> char) list" where
  "json_escapes =
     [(CHR 0x22, CHR 0x22), (CHR 0x5C, CHR 0x5C), (CHR ''/'', CHR ''/''), (CHR ''b'', CHR 0x08),
      (CHR ''f'', CHR 0x0C), (CHR ''n'', CHR 0x0A), (CHR ''r'', CHR 0x0D), (CHR ''t'', CHR 0x09)]"

text \<open>
  The rest of a JSON string after its opening quote, which must end with the input. Bytes
  that encode no rune become replacement characters one by one.
\<close>

function json_chars :: "string \<Rightarrow> string option" where
  "json_chars s =
     (case s of
        [] \<Rightarrow> None
      | c # t \<Rightarrow>
          if c = CHR 0x22 then (if t = [] then Some [] else None)
          else if c = CHR 0x5C then
            (case t of
               [] \<Rightarrow> None
             | x # u \<Rightarrow>
                 if x = CHR ''u'' then
                   (case hex4 u of
                      None \<Rightarrow> None
                    | Some r \<Rightarrow>
                        if 55296 \<le> r \<and> r < 57344 then
                          (case surrogate_pair r (drop 4 u) of
                             Some code \<Rightarrow> map_option ((@) (encodeRune code)) (json_chars (drop 10 u))
                           | None \<Rightarrow> map_option ((@) replacement) (json_chars (drop 4 u)))
                        else map_option ((@) (encodeRune r)) (json_chars (drop 4 u)))
                 else
                   (case map_of json_escapes x of
                      None \<Rightarrow> None
                    | Some y \<Rightarrow> map_option ((#) y) (json_chars u)))
          else if of_char c < (32 :: nat) then None
          else if rune_width s = 0 then map_option ((@) replacement) (json_chars t)
          else map_option ((@) (take (rune_width s) s)) (json_chars (drop (rune_width s) s)))"
  by pat_completeness auto
termination
  by (relation "measure length") (auto simp del: rune_width.simps)

declare json_chars.simps [simp del]

text \<open>The grammar of JSON numbers.\<close>

definition drop_digits :: "string \<Rightarrow> string" where
  "drop_digits s = dropWhile is_digit s"

definition starts_with_digit :: "string \<Rightarrow> bool" where
  "starts_with_digit s \<longleftrightarrow> s \<noteq> [] \<and> is_digit (hd s)"

definition json_exponent :: "string \<Rightarrow> bool" where
  "json_exponent s \<longleftrightarrow>
     s = [] \<or> lower_ascii (hd s) = CHR ''e'' \<and>
       (let t = drop_sign (tl s) in starts_with_digit t \<and> drop_digits t = [])"

definition json_number :: "string \<Rightarrow> bool" where
  "json_number s \<longleftrightarrow>
     (let t = (if s \<noteq> [] \<and> hd s = CHR ''-'' then tl s else s)
      in starts_with_digit t \<and>
         (let u = (if hd t = CHR ''0'' then tl t else drop_digits t)
          in if u \<noteq> [] \<and> hd u = CHR ''.''
             then starts_with_digit (tl u) \<and> json_exponent (drop_digits (tl u))
             else json_exponent u))"

definition json_space :: "char \<Rightarrow> bool" where
  "json_space c \<longleftrightarrow> c \<in> {CHR '' '', CHR 0x09, CHR 0x0A, CHR 0x0D}"

text \<open>
  \<open>json.Unmarshal\<close> into an \<open>any\<close>, as far as the caller looks: the string, number or bool
  the payload is; None for every other document and for no document at all.
\<close>

definition json_scalar :: "string \<Rightarrow> goval option" where
  "json_scalar payload =
     (let s = rev (dropWhile json_space (rev (dropWhile json_space payload)))
      in if s = ''true'' then Some (GBool True)
         else if s = ''false'' then Some (GBool False)
         else if json_number s then
           (case parseFloat s of Inl _ \<Rightarrow> None | Inr f \<Rightarrow> Some (GFloat f))
         else if s \<noteq> [] \<and> hd s = CHR 0x22 then map_option GString (json_chars (tl s))
         else None)"

section \<open>Command payloads\<close>

definition parseMQTTCommandValue :: "f2i \<Rightarrow> string \<Rightarrow> err + goval" where
  "parseMQTTCommandValue oob payload =
     (if equalFold payload ''true'' \<or> equalFold payload ''on'' then Inr (GBool True)
      else if equalFold payload ''false'' \<or> equalFold payload ''off'' then Inr (GBool False)
      else (case json_scalar payload of Some v \<Rightarrow> Inr v | None \<Rightarrow> finiteScalar oob payload))"

lemma parseFloat_NaN: "parseFloat s = Inr FNaN \<Longrightarrow> map lower_ascii s = ''nan''"
proof -
  assume p: "parseFloat s = Inr FNaN"
  show ?thesis
  proof (cases "special_float s")
    case (Some f)
    with p have "special_float s = Some FNaN" by (simp add: parseFloat_def)
    then show ?thesis by (auto simp: special_float_def Let_def split: if_splits)
  next
    case None
    with p obtain v where "rne v = FNaN" by (auto simp: parseFloat_def split: option.splits if_splits)
    then show ?thesis by (auto simp: rne_def Let_def split: if_splits)
  qed
qed

lemma json_number_not_nan:
  assumes "json_number s"
  shows "map lower_ascii s \<noteq> ''nan''"
proof
  assume n: "map lower_ascii s = ''nan''"
  then have s: "s \<noteq> []" "lower_ascii (hd s) = CHR ''n''" by auto
  have "is_digit (hd s) \<or> hd s = CHR ''-''"
    using assms s(1) by (auto simp: json_number_def starts_with_digit_def Let_def split: if_splits)
  with s(2) show False
    by (auto simp: lower_ascii_def is_upper_def is_digit_def less_eq_char_def split: if_splits)
qed

lemma json_number_parses: "json_number s \<Longrightarrow> parseFloat s = Inr f \<Longrightarrow> f \<noteq> FNaN"
  using parseFloat_NaN json_number_not_nan by blast

text \<open>A command carries a bool, a text, or a number that is not a NaN.\<close>

lemma parsed_command:
  assumes "parseMQTTCommandValue oob payload = Inr v"
  shows "(\<exists>b. v = GBool b) \<or> (\<exists>s. v = GString s) \<or> command_number v"
proof (cases "json_scalar payload")
  case None
  with assms show ?thesis
    by (auto simp: parseMQTTCommandValue_def finiteScalar_def command_number_def Let_def split: if_splits sum.splits)
next
  case (Some w)
  then have "(\<exists>b. w = GBool b) \<or> (\<exists>s. w = GString s) \<or> command_number w"
    by (auto simp: json_scalar_def command_number_def Let_def
        dest: json_number_parses split: if_splits sum.splits)
  with assms Some show ?thesis by (auto simp: parseMQTTCommandValue_def split: if_splits)
qed

end
