(* ===== verification/Topics.thy ===== *)
theory Topics
  imports Registers
begin

text \<open>
  Names derived from register keys (\<open>src/mqtt.go\<close>, lines 737 to 788): the slug of a key in
  topics and object identifiers, and its name for people. A key is ASCII text, as every key
  of the two tables is, so its runes are its bytes.
\<close>

section \<open>Words of a camel-case key\<close>

text \<open>
  The test both functions make at an upper-case letter: the end of a word before it. A
  missing neighbour is the zero rune, which is neither upper, lower nor digit.
\<close>

definition word_starts :: "char \<Rightarrow> char \<Rightarrow> char \<Rightarrow> bool" where
  "word_starts previous current next \<longleftrightarrow>
     is_upper current \<and>
     (is_lower previous \<or> is_digit previous \<or> is_upper previous \<and> is_lower next)"

definition next_rune :: "string \<Rightarrow> char" where
  "next_rune s = (case s of [] \<Rightarrow> CHR 0x00 | c # _ \<Rightarrow> c)"

text \<open>The loop of \<open>slug\<close>; \<open>previous\<close> is None at index 0.\<close>

fun slug_loop :: "char option \<Rightarrow> string \<Rightarrow> string" where
  "slug_loop previous [] = []"
| "slug_loop previous (c # s) =
     (case previous of
        None \<Rightarrow> []
      | Some p \<Rightarrow> if word_starts p c (next_rune s) then ''_'' else []) @
     lower_ascii c # slug_loop (Some c) s"

text \<open>\<open>[^a-zA-Z0-9]+\<close> replaced by one underscore; \<open>separating\<close> while inside such a run.\<close>

definition is_alnum :: "char \<Rightarrow> bool" where
  "is_alnum c \<longleftrightarrow> is_upper c \<or> is_lower c \<or> is_digit c"

fun replace_separators :: "bool \<Rightarrow> string \<Rightarrow> string" where
  "replace_separators separating [] = []"
| "replace_separators separating (c # s) =
     (if is_alnum c then c # replace_separators False s
      else if separating then replace_separators True s
      else CHR ''_'' # replace_separators True s)"

definition slug :: "string \<Rightarrow> string" where
  "slug s = trimByte (CHR ''_'') (replace_separators False (slug_loop None s))"

definition valueTopic :: "string \<Rightarrow> string \<Rightarrow> string \<Rightarrow> string" where
  "valueTopic base namespace key = base @ ''/'' @ namespace @ ''/'' @ slug key @ ''/state''"

text \<open>The loop of \<open>friendlyName\<close>: the finished words and the current one.\<close>

fun name_loop :: "string list \<Rightarrow> string \<Rightarrow> char \<Rightarrow> string \<Rightarrow> string list" where
  "name_loop wrds current previous [] = (if current = [] then wrds else wrds @ [current])"
| "name_loop wrds current previous (c # s) =
     (if current \<noteq> [] \<and> word_starts previous c (next_rune s)
      then name_loop (wrds @ [current]) [c] c s
      else name_loop wrds (current @ [c]) c s)"

fun join_with :: "string \<Rightarrow> string list \<Rightarrow> string" where
  "join_with sep [] = []"
| "join_with sep [w] = w"
| "join_with sep (w # ws) = w @ sep @ join_with sep ws"

definition friendlyName :: "string \<Rightarrow> string" where
  "friendlyName s = join_with '' '' (name_loop [] [] (CHR 0x00) s)"

section \<open>What a slug looks like\<close>

definition slug_char :: "char \<Rightarrow> bool" where
  "slug_char c \<longleftrightarrow> is_lower c \<or> is_digit c \<or> c = CHR ''_''"

lemma lower_ascii_upper:
  "is_upper c \<Longrightarrow> is_lower (lower_ascii c)"
  by (cases c rule: char.exhaust) (auto simp: is_upper_def is_lower_def lower_ascii_def less_eq_char_def)

lemma not_upper_lower_ascii: "\<not> is_upper (lower_ascii c)"
  using lower_ascii_upper [of c]
  by (cases "is_upper c") (auto simp: lower_ascii_def is_upper_def is_lower_def less_eq_char_def)

lemma not_upper_underscore: "\<not> is_upper (CHR ''_'')"
  by (simp add: is_upper_def less_eq_char_def)

lemma slug_loop_no_upper: "c \<in> set (slug_loop previous s) \<Longrightarrow> \<not> is_upper c"
  by (induction previous s rule: slug_loop.induct)
    (auto simp: not_upper_lower_ascii not_upper_underscore split: option.splits if_splits)

lemma replace_separators_chars:
  "c \<in> set (replace_separators separating s) \<Longrightarrow> c = CHR ''_'' \<or> is_alnum c \<and> c \<in> set s"
  by (induction separating s rule: replace_separators.induct) (auto split: if_splits)

lemma set_trimByte: "set (trimByte c s) \<subseteq> set s"
  by (auto simp: trimByte_def dest!: set_dropWhileD)

lemma slug_chars: "c \<in> set (slug s) \<Longrightarrow> slug_char c"
  using set_trimByte [of "CHR ''_''"] replace_separators_chars [of c False] slug_loop_no_upper [of c None s]
  unfolding slug_def slug_char_def is_alnum_def by blast

lemma slug_no_slash: "CHR ''/'' \<notin> set (slug s)"
  using slug_chars [of "CHR ''/''" s] by (auto simp: slug_char_def is_lower_def is_digit_def less_eq_char_def)

section \<open>The slugs of the tables\<close>

text \<open>A slug keeps the letters and digits of its key, up to case.\<close>

definition squash :: "string \<Rightarrow> string" where
  "squash s = map lower_ascii (filter is_alnum s)"

lemma underscore_not_alnum: "\<not> is_alnum (CHR ''_'')"
  by (simp add: is_alnum_def is_upper_def is_lower_def is_digit_def less_eq_char_def)

lemma is_alnum_lower: "is_alnum (lower_ascii c) = is_alnum c"
  using lower_ascii_upper [of c] by (cases "is_upper c") (auto simp: is_alnum_def lower_ascii_def)

lemma lower_ascii_keep: "\<not> is_upper c \<Longrightarrow> lower_ascii c = c"
  by (simp add: lower_ascii_def)

lemma filter_slug_loop: "filter is_alnum (slug_loop previous s) = map lower_ascii (filter is_alnum s)"
  by (induction previous s rule: slug_loop.induct)
    (auto simp: underscore_not_alnum is_alnum_lower split: option.splits)

lemma filter_replace_separators: "filter is_alnum (replace_separators separating s) = filter is_alnum s"
  by (induction separating s rule: replace_separators.induct) (simp_all add: underscore_not_alnum)

lemma filter_dropWhile: "(\<And>x. Q x \<Longrightarrow> \<not> P x) \<Longrightarrow> filter P (dropWhile Q xs) = filter P xs"
  by (induction xs) auto

lemma filter_trimByte: "\<not> P c \<Longrightarrow> filter P (trimByte c s) = filter P s"
  by (simp add: trimByte_def filter_dropWhile [of "\<lambda>x. x = c" P] flip: rev_filter)

lemma squash_slug: "squash (slug s) = squash s"
  by (simp add: squash_def slug_def filter_trimByte underscore_not_alnum filter_replace_separators filter_slug_loop
      lower_ascii_keep not_upper_lower_ascii)

lemma slug_inj: "squash s \<noteq> squash t \<Longrightarrow> slug s \<noteq> slug t"
  by (metis squash_slug)

lemma lower_table:
  "lower_ascii (CHR ''1'') = CHR ''1''"
  "lower_ascii (CHR ''2'') = CHR ''2''"
  "lower_ascii (CHR ''A'') = CHR ''a''"
  "lower_ascii (CHR ''B'') = CHR ''b''"
  "lower_ascii (CHR ''C'') = CHR ''c''"
  "lower_ascii (CHR ''D'') = CHR ''d''"
  "lower_ascii (CHR ''E'') = CHR ''e''"
  "lower_ascii (CHR ''F'') = CHR ''f''"
  "lower_ascii (CHR ''G'') = CHR ''g''"
  "lower_ascii (CHR ''H'') = CHR ''h''"
  "lower_ascii (CHR ''I'') = CHR ''i''"
  "lower_ascii (CHR ''L'') = CHR ''l''"
  "lower_ascii (CHR ''M'') = CHR ''m''"
  "lower_ascii (CHR ''N'') = CHR ''n''"
  "lower_ascii (CHR ''O'') = CHR ''o''"
  "lower_ascii (CHR ''P'') = CHR ''p''"
  "lower_ascii (CHR ''R'') = CHR ''r''"
  "lower_ascii (CHR ''S'') = CHR ''s''"
  "lower_ascii (CHR ''T'') = CHR ''t''"
  "lower_ascii (CHR ''U'') = CHR ''u''"
  "lower_ascii (CHR ''V'') = CHR ''v''"
  "lower_ascii (CHR ''W'') = CHR ''w''"
  "lower_ascii (CHR ''a'') = CHR ''a''"
  "lower_ascii (CHR ''b'') = CHR ''b''"
  "lower_ascii (CHR ''c'') = CHR ''c''"
  "lower_ascii (CHR ''d'') = CHR ''d''"
  "lower_ascii (CHR ''e'') = CHR ''e''"
  "lower_ascii (CHR ''f'') = CHR ''f''"
  "lower_ascii (CHR ''g'') = CHR ''g''"
  "lower_ascii (CHR ''h'') = CHR ''h''"
  "lower_ascii (CHR ''i'') = CHR ''i''"
  "lower_ascii (CHR ''j'') = CHR ''j''"
  "lower_ascii (CHR ''k'') = CHR ''k''"
  "lower_ascii (CHR ''l'') = CHR ''l''"
  "lower_ascii (CHR ''m'') = CHR ''m''"
  "lower_ascii (CHR ''n'') = CHR ''n''"
  "lower_ascii (CHR ''o'') = CHR ''o''"
  "lower_ascii (CHR ''p'') = CHR ''p''"
  "lower_ascii (CHR ''q'') = CHR ''q''"
  "lower_ascii (CHR ''r'') = CHR ''r''"
  "lower_ascii (CHR ''s'') = CHR ''s''"
  "lower_ascii (CHR ''t'') = CHR ''t''"
  "lower_ascii (CHR ''u'') = CHR ''u''"
  "lower_ascii (CHR ''v'') = CHR ''v''"
  "lower_ascii (CHR ''w'') = CHR ''w''"
  "lower_ascii (CHR ''x'') = CHR ''x''"
  "lower_ascii (CHR ''y'') = CHR ''y''"
  "lower_ascii (CHR ''z'') = CHR ''z''"
  by code_simp+

lemma alnum_table: "list_all is_alnum ''12ABCDEFGHILMNOPRSTUVWabcdefghijklmnopqrstuvwxyz''"
  by code_simp

lemmas squash_simps = squash_def lower_table underscore_not_alnum alnum_table [simplified]

definition input_squashed :: "string list" where
  "input_squashed =
    [''systemstatus'', ''pv1volt'', ''pv2volt'', ''pv1watt'', ''pv2watt'', ''pv1amps'',
     ''pv2amps'', ''outputwatt'', ''outputva'', ''acchrwatt'', ''acchrva'', ''batteryvolt'',
     ''batterysoc'', ''busvolt'', ''gridvolt'', ''linefreq'', ''outputacvolt'', ''outputacfreq'',
     ''outputdcvolt'', ''invtempc'', ''dcdctempc'', ''loadpercent'', ''batteryportvolt'',
     ''batterybusvolt'', ''worktimetotalseconds'', ''buck1tempc'', ''buck2tempc'', ''outputamps'',
     ''invamps'', ''acinputwatt'', ''acinputva'', ''faultbit'', ''warningbit'', ''warningbithigh'',
     ''warningvalue'', ''devicetypecode'', ''exporttogridtodaykwh'', ''exporttogridtotalkwh'',
     ''pv1energytodaykwh'', ''pv1energytotalkwh'', ''pv2energytodaykwh'', ''pv2energytotalkwh'',
     ''acchargeenergytodaykwh'', ''acchargeenergytotalkwh'', ''batterydischargeenergytodaykwh'',
     ''batterydischargeenergytotalkwh'', ''acdischargeenergytodaykwh'',
     ''acdischargeenergytotalkwh'', ''acchargebatteryamps'', ''acdischargewatt'',
     ''acdischargeva'', ''batterydischargewatt'', ''batterydischargeva'', ''batterywatt'',
     ''slaveexistcount'', ''mpptfanspeedpercent'', ''invfanspeedpercent'', ''totalchargeamps'',
     ''totaldischargeamps'', ''opdischargeenergytodaykwh'', ''opdischargeenergytotalkwh'']"

definition holding_squashed :: "string list" where
  "holding_squashed =
    [''onoff'', ''outputconfig'', ''chargeconfig'', ''utioutstart'', ''utioutend'',
     ''utichargestart'', ''utichargeend'', ''pvmodel'', ''acinmodel'', ''fwversion'',
     ''fwversion2'', ''lcdlanguage'', ''gridvadj'', ''invvadj'', ''outputvolttype'',
     ''outputfreqtype'', ''overloadrestart'', ''overtemprestart'', ''buzzerenable'',
     ''serialnumber'', ''moudleh'', ''moudlel'', ''comaddress'', ''flashstart'', ''resetuserinfo'',
     ''resettofactory'', ''maxchargeamps'', ''bulkchargevolt'', ''floatchargevolt'',
     ''batlowtouti'', ''acchargeamps'', ''batterytype'', ''agingmode'', ''functionmask'',
     ''safetytype'', ''dtc'', ''holdingchipselect'', ''uwacvhighl'', ''uwacvlowl'',
     ''uwacfreqhighl'', ''uwacfreqlowl'', ''holdingvar1setting'', ''debugmodeenable'',
     ''controlfwbuildno2'', ''controlfwbuildno1'', ''comfwbuildno2'', ''comfwbuildno1'',
     ''modbusversion'', ''scccommode'', ''ratewatt'', ''rateva'', ''comboardver'',
     ''uwbatpiecenum'', ''wbatlowcutoff'', ''maxgeneratorchargeamps'', ''nomgridvraw'',
     ''nomgridfreqraw'', ''nombatvraw'', ''nompvcurrraw'', ''nomacchgcurrraw'', ''nomopvraw'',
     ''nomopfreqraw'', ''nomoppowraw'', ''uwac2batvolt'', ''bypenable'', ''powsavingenable'',
     ''spowbalenable'', ''clrenergytoday'', ''clrenergyall'', ''burnintestenable'',
     ''manualstartenable'', ''scilosschkenable'', ''blightenable'', ''paramaxchgamps'',
     ''liprotocoltype'', ''audioalarmenable'']"

lemma input_squashed: "map (squash \<circ> reg_Key) (inputRegisters oob) = input_squashed"
  by (simp add: inputRegisters_def input_squashed_def squash_simps)

lemma holding_squashed: "map (squash \<circ> reg_Key) (holdingRegisters oob) = holding_squashed"
  by (simp add: holdingRegisters_def holding_squashed_def squash_simps)

lemma distinct_input_squashed: "distinct input_squashed"
  by (simp add: input_squashed_def)

lemma distinct_holding_squashed: "distinct holding_squashed"
  by (simp add: holding_squashed_def)

lemma disjoint_squashed: "set input_squashed \<inter> set holding_squashed = {}"
  by (simp add: input_squashed_def holding_squashed_def)

lemma no_sync_squashed: "''synctime'' \<notin> set input_squashed \<union> set holding_squashed"
  by (simp add: input_squashed_def holding_squashed_def)

lemma object_slugs_distinct:
  "distinct (''sync_time'' # map (slug \<circ> reg_Key) (inputRegisters oob) @ map (slug \<circ> reg_Key) (holdingRegisters oob))"
proof -
  have "squash ''sync_time'' = ''synctime''" by (simp add: squash_simps)
  then have "map squash (''sync_time'' # map (slug \<circ> reg_Key) (inputRegisters oob) @ map (slug \<circ> reg_Key) (holdingRegisters oob)) =
      ''synctime'' # input_squashed @ holding_squashed"
    using input_squashed [of oob] holding_squashed [of oob] by (simp add: comp_def squash_slug)
  moreover have "distinct (''synctime'' # input_squashed @ holding_squashed)"
    using distinct_input_squashed distinct_holding_squashed disjoint_squashed no_sync_squashed by simp
  ultimately show ?thesis by (metis distinct_map)
qed

lemma holding_slug_inj:
  assumes "d \<in> set (holdingRegisters oob)" and "e \<in> set (holdingRegisters oob)"
    and "slug (reg_Key d) = slug (reg_Key e)"
  shows "d = e"
proof -
  have "distinct (map (slug \<circ> reg_Key) (holdingRegisters oob))" using object_slugs_distinct by simp
  then have "inj_on (slug \<circ> reg_Key) (set (holdingRegisters oob))" by (simp add: distinct_map)
  with assms show ?thesis by (auto simp: inj_on_def)
qed

text \<open>The slugs of the 61 status registers, the 76 configuration
  registers and the time sync button are pairwise different, so no two of them share a
  topic or an object identifier.\<close>

theorem names_never_collide:
  "distinct (''sync_time'' # map (slug \<circ> reg_Key) (inputRegisters oob) @ map (slug \<circ> reg_Key) (holdingRegisters oob))"
  by (rule object_slugs_distinct)

end
