(* ===== verification/Mqtt_State.thy ===== *)
theory Mqtt_State
  imports Mqtt_Values Topics Polling
begin

text \<open>
  The state of the MQTT service (\<open>src/mqtt.go\<close>, lines 31 to 142), the interface through which
  it commands the polling service (\<open>src/polling.go\<close>, lines 31 to 35), and what it does with
  a message it receives (lines 291 to 323).
\<close>

section \<open>Configuration\<close>

record MQTTConfig =
  mq_Host :: string
  mq_Port :: int
  mq_Username :: string
  mq_Password :: string
  mq_TLSEnabled :: bool
  mq_TLSCAFile :: string
  mq_TLSCertFile :: string
  mq_TLSKeyFile :: string
  mq_TLSServerName :: string
  mq_ClientID :: string
  mq_Keepalive :: duration
  mq_WillDelay :: duration
  mq_OperationTimeout :: duration
  mq_DisconnectTimeout :: duration
  mq_TopicPrefix :: string
  mq_HADiscoveryPrefix :: string
  mq_HADeviceID :: string
  mq_HADeviceName :: string

text \<open>
  What the service asks of the MQTT library when it connects: the fields of its client
  configuration that come from the program's own.
\<close>

record client_config =
  cc_scheme :: string
  cc_host :: string
  cc_KeepAlive :: "16 word"
  cc_SessionExpiryInterval :: "32 word"
  cc_WillDelayInterval :: "32 word"
  cc_WillTopic :: string
  cc_ClientID :: string
  cc_ConnectUsername :: string
  cc_ConnectPassword :: string

section \<open>Messages\<close>

text \<open>
  A document that is published is kept as the tree that \<open>json.Marshal\<close> encodes. The arrays of
  the program are arrays of strings.
\<close>

datatype json =
    JText string
  | JInt int
  | JNumber float64
  | JBool bool
  | JTexts "string list"
  | JObject "(string \<times> json) list"

datatype payload = Bytes string | Document json

record publication =
  pub_topic :: string
  pub_payload :: payload
  pub_retain :: bool

section \<open>State\<close>

text \<open>
  \<open>'c\<close> is the MQTT library's client. Maps are association lists, the channel of one token a
  bool. The field \<open>requests\<close> has no counterpart in the code: it lists the calls of the
  client's \<open>Publish\<close>, oldest first. The mutex \<open>mu\<close> makes each step on the fields atomic.
\<close>

record 'c mqtt =
  mqtt_config :: MQTTConfig
  mqtt_client :: "'c option"
  clientConfig :: client_config
  connected :: bool
  initialConfigPublished :: bool
  initialStatusPublished :: bool
  discoveryPending :: bool
  onlinePublished :: bool
  batteryTypeKnown :: string
  lastPublishedConfig :: govalues
  pendingStatus :: govalues
  pendingConfig :: govalues
  statusDirty :: bool
  configDirty :: bool
  updatesPending :: bool
  slugToConfigKey :: "(string \<times> string) list"
  base :: string
  availability :: string
  timeSyncCommand :: string
  configPrefix :: string
  configFilter :: string
  statusTopics :: "(string \<times> string) list"
  configTopics :: "(string \<times> string) list"
  updateWake :: bool
  connectionID :: "64 word"
  requests :: "('c \<times> publication) list"

text \<open>\<open>d / time.Second\<close>: both are positive or the quotient is cut towards zero.\<close>

definition whole_seconds :: "duration \<Rightarrow> int" where
  "whole_seconds d = sgn d * (\<bar>d\<bar> div second)"

definition client_config_of :: "string \<Rightarrow> MQTTConfig \<Rightarrow> client_config" where
  "client_config_of willTopic config =
     (let willDelay = (word_of_int (whole_seconds (mq_WillDelay config)) :: 32 word);
          sessionExpiry = max 60 (willDelay + 1)
      in \<lparr>cc_scheme = (if mq_TLSEnabled config then ''tls'' else ''mqtt''),
          cc_host = mq_Host config @ '':'' @ show_int (mq_Port config),
          cc_KeepAlive = word_of_int (whole_seconds (mq_Keepalive config)),
          cc_SessionExpiryInterval = sessionExpiry, cc_WillDelayInterval = willDelay,
          cc_WillTopic = willTopic, cc_ClientID = mq_ClientID config,
          cc_ConnectUsername = mq_Username config, cc_ConnectPassword = mq_Password config\<rparr>)"

definition status_topics :: "f2i \<Rightarrow> string \<Rightarrow> (string \<times> string) list" where
  "status_topics oob prefixed =
     fold (\<lambda>d m. AList.update (reg_Key d) (valueTopic prefixed ''status'' (reg_Key d)) m) (inputRegisters oob) []"

definition slug_to_config_key :: "f2i \<Rightarrow> (string \<times> string) list" where
  "slug_to_config_key oob = fold (\<lambda>d m. AList.update (slug (reg_Key d)) (reg_Key d) m) (holdingRegisters oob) []"

definition config_topics :: "f2i \<Rightarrow> string \<Rightarrow> (string \<times> string) list" where
  "config_topics oob prefixed =
     fold (\<lambda>d m. AList.update (reg_Key d) (prefixed @ ''/config/'' @ slug (reg_Key d) @ ''/state'') m) (holdingRegisters oob) []"

definition NewMQTTService :: "f2i \<Rightarrow> MQTTConfig \<Rightarrow> 'c mqtt" where
  "NewMQTTService oob config =
     (let prefixed = trimByte (CHR ''/'') (mq_TopicPrefix config); prefix = prefixed @ ''/config/'';
          avail = prefixed @ ''/availability''
      in \<lparr>mqtt_config = config, mqtt_client = None, clientConfig = client_config_of avail config,
          connected = False, initialConfigPublished = False, initialStatusPublished = False,
          discoveryPending = False, onlinePublished = False, batteryTypeKnown = [], lastPublishedConfig = [],
          pendingStatus = [], pendingConfig = [], statusDirty = False, configDirty = False,
          updatesPending = False, slugToConfigKey = slug_to_config_key oob, base = prefixed,
          availability = avail, timeSyncCommand = prefixed @ ''/time_sync/set'',
          configPrefix = prefix, configFilter = prefix @ ''+/set'',
          statusTopics = status_topics oob prefixed, configTopics = config_topics oob prefixed,
          updateWake = False, connectionID = 0, requests = []\<rparr>)"

section \<open>The command service\<close>

record 's command_service =
  cs_QueueConfigWrite :: "string \<Rightarrow> goval \<Rightarrow> 's \<Rightarrow> (err + unit) \<times> 's"
  cs_SetPollingEnabled :: "bool \<Rightarrow> 's \<Rightarrow> 's"
  cs_RequestTimeSync :: "'s \<Rightarrow> 's"

definition polling_commands :: "polling command_service" where
  "polling_commands =
     \<lparr>cs_QueueConfigWrite = QueueConfigWrite, cs_SetPollingEnabled = SetPollingEnabled,
      cs_RequestTimeSync = RequestTimeSync\<rparr>"

section \<open>Messages received\<close>

text \<open>
  The outcome of a handler: None is a panic, which a slice expression out of range raises
  (lines 307 and 298 to 323).
\<close>

definition handleCommand ::
    "f2i \<Rightarrow> 's command_service \<Rightarrow> 'c mqtt \<Rightarrow> string \<Rightarrow> string \<Rightarrow> 's \<Rightarrow> (err + unit) option \<times> 's" where
  "handleCommand oob cs m topic payload s =
     (if topic = timeSyncCommand m then (Some (Inr ()), cs_RequestTimeSync cs s)
      else if \<not> hasPrefix topic (configPrefix m) \<or> \<not> hasSuffix topic ''/set'' then (Some (Inr ()), s)
      else if length topic < length (configPrefix m) + 4 then (None, s)
      else
        (let middle = take (length topic - 4 - length (configPrefix m)) (drop (length (configPrefix m)) topic);
             key = (case map_of (slugToConfigKey m) middle of None \<Rightarrow> [] | Some k \<Rightarrow> k)
         in if key = [] then (Some (Inl (EMsg MUnknownConfigKey)), s)
            else
              (case parseMQTTCommandValue oob payload of
                 Inl e \<Rightarrow> (Some (Inl e), s)
               | Inr v \<Rightarrow>
                   (case validateWritableNumberValue oob key v (lastPublishedConfig m) (batteryTypeKnown m) of
                      Inl e \<Rightarrow> (Some (Inl e), s)
                    | Inr _ \<Rightarrow> (case cs_QueueConfigWrite cs key v s of (r, s') \<Rightarrow> (Some r, s'))))))"

text \<open>An error of the handler is logged.\<close>

definition onMessage ::
    "f2i \<Rightarrow> 's command_service \<Rightarrow> 'c mqtt \<Rightarrow> string \<Rightarrow> string \<Rightarrow> 's \<Rightarrow> (err + unit) option \<times> 's" where
  "onMessage oob cs m topic body s = handleCommand oob cs m topic (trimSpace body) s"

section \<open>Lookups\<close>

lemma map_of_fold_update:
  assumes "distinct (map k ds)"
  shows "map_of (fold (\<lambda>d m. AList.update (k d) (v d) m) ds acc) x =
    (case find (\<lambda>d. k d = x) ds of None \<Rightarrow> map_of acc x | Some d \<Rightarrow> Some (v d))"
  using assms
proof (induction ds arbitrary: acc)
  case (Cons d ds)
  then have "find (\<lambda>e. k e = k d) ds = None" by (simp add: find_map_key)
  with Cons show ?case by (auto simp: update_conv' split: option.splits)
qed simp

lemma slug_lookup:
  assumes "d \<in> set (holdingRegisters oob)"
  shows "map_of (slug_to_config_key oob) (slug (reg_Key d)) = Some (reg_Key d)"
proof -
  have distinct: "distinct (map (\<lambda>d. slug (reg_Key d)) (holdingRegisters oob))"
    using object_slugs_distinct [of oob] by (simp add: comp_def)
  have "map_of (slug_to_config_key oob) (slug (reg_Key d)) =
      (case find (\<lambda>e. slug (reg_Key e) = slug (reg_Key d)) (holdingRegisters oob) of
         None \<Rightarrow> map_of [] (slug (reg_Key d)) | Some d \<Rightarrow> Some (reg_Key d))"
    unfolding slug_to_config_key_def by (rule map_of_fold_update [OF distinct])
  with find_distinct_key [OF distinct assms] show ?thesis by simp
qed

lemma slug_lookup_only:
  assumes "map_of (slug_to_config_key oob) x = Some key"
  shows "\<exists>d \<in> set (holdingRegisters oob). reg_Key d = key \<and> slug key = x"
proof -
  have distinct: "distinct (map (\<lambda>d. slug (reg_Key d)) (holdingRegisters oob))"
    using object_slugs_distinct [of oob] by (simp add: comp_def)
  have "map_of (slug_to_config_key oob) x =
      (case find (\<lambda>e. slug (reg_Key e) = x) (holdingRegisters oob) of None \<Rightarrow> map_of [] x | Some d \<Rightarrow> Some (reg_Key d))"
    unfolding slug_to_config_key_def by (rule map_of_fold_update [OF distinct])
  with assms show ?thesis by (auto split: option.splits dest: find_key_in)
qed

lemma config_topic_lookup:
  assumes "d \<in> set (holdingRegisters oob)"
  shows "map_of (config_topics oob b) (reg_Key d) = Some (b @ ''/config/'' @ slug (reg_Key d) @ ''/state'')"
  using map_of_fold_update [OF holding_keys_distinct, of "\<lambda>d. b @ ''/config/'' @ slug (reg_Key d) @ ''/state''" oob "[]"]
    find_distinct_key [OF holding_keys_distinct assms]
  by (simp add: config_topics_def)

lemma status_topic_lookup:
  assumes "d \<in> set (inputRegisters oob)"
  shows "map_of (status_topics oob b) (reg_Key d) = Some (valueTopic b ''status'' (reg_Key d))"
  using map_of_fold_update [OF input_keys_distinct, of "\<lambda>d. valueTopic b ''status'' (reg_Key d)" oob "[]"]
    find_distinct_key [OF input_keys_distinct assms]
  by (simp add: status_topics_def)

lemma keys_not_empty: "[] \<notin> reg_Key ` set (holdingRegisters oob)"
  by (simp add: holdingRegisters_def)

end
