(* ===== verification/Discovery.thy ===== *)
theory Discovery
  imports Mqtt_State
begin

text \<open>
  Home Assistant discovery (\<open>src/mqtt.go\<close>, lines 526 to 688 and 790 to 845, and
  \<open>entityMetadata\<close> of \<open>src/registers.go\<close>): the document that announces every register as an
  entity, with its topics, its kind and its limits.
\<close>

section \<open>Metadata\<close>

type_synonym fields = "(string \<times> json) list"

definition icon :: "string \<Rightarrow> string \<times> json" where
  "icon name = (''icon'', JText (''mdi:'' @ name))"

definition entityMetadata :: "(string \<times> fields) list" where
  "entityMetadata =
    [(''SystemStatus'', [icon ''solar-power'']),
     (''FaultBit'', [icon ''alert-circle-outline'']),
     (''WarningBit'', [icon ''alert-outline'']),
     (''WarningBitHigh'', [icon ''alert-outline'']),
     (''WarningValue'', [icon ''alert-outline'']),
     (''DeviceTypeCode'', [icon ''identifier'']),
     (''WorkTimeTotalSeconds'', [icon ''timer-outline'']),
     (''OutputConfig'', [icon ''transmission-tower-export'']),
     (''ChargeConfig'', [icon ''battery-charging'']),
     (''UtiOutStart'', [icon ''clock-start'', (''unit_of_measurement'', JText ''h'')]),
     (''UtiOutEnd'', [icon ''clock-end'', (''unit_of_measurement'', JText ''h'')]),
     (''UtiChargeStart'', [icon ''battery-clock'', (''unit_of_measurement'', JText ''h'')]),
     (''UtiChargeEnd'', [icon ''battery-clock'', (''unit_of_measurement'', JText ''h'')]),
     (''PVModel'', [icon ''solar-panel'']), (''ACInModel'', [icon ''transmission-tower-import'']),
     (''FWVersion'', [icon ''chip'']), (''FWVersion2'', [icon ''chip'']),
     (''LCDLanguage'', [icon ''translate'']), (''SerialNumber'', [icon ''barcode'']),
     (''MoudleH'', [icon ''chip'']), (''MoudleL'', [icon ''chip'']),
     (''ComAddress'', [icon ''serial-port'']), (''FlashStart'', [icon ''flash'']),
     (''ResetUserInfo'', [icon ''account-sync-outline'']), (''ResetToFactory'', [icon ''factory'']),
     (''BatteryType'', [icon ''car-battery'']), (''AgingMode'', [icon ''timer-sand'']),
     (''FunctionMask'', [icon ''bitwise'']), (''SafetyType'', [icon ''shield-check-outline'']),
     (''DTC'', [icon ''alert-decagram-outline'']),
     (''ControlFWBuildNo2'', [icon ''chip'']), (''ControlFWBuildNo1'', [icon ''chip'']),
     (''ComFWBuildNo2'', [icon ''chip'']), (''ComFWBuildNo1'', [icon ''chip'']),
     (''ModbusVersion'', [icon ''protocol'']), (''SCCComMode'', [icon ''connection'']),
     (''ComboardVer'', [icon ''chip'']), (''uwBatPieceNum'', [icon ''battery-multiple'']),
     (''uwAC2BatVolt'', [(''name'', JText ''uw AC2 Bat'')]), (''LiProtocolType'', [icon ''protocol''])]"

definition merge :: "fields \<Rightarrow> fields \<Rightarrow> fields" where
  "merge destination source = fold (\<lambda>(key, v) m. AList.update key v m) source destination"

definition metadata_of :: "string \<Rightarrow> fields" where
  "metadata_of key = (case map_of entityMetadata key of None \<Rightarrow> [] | Some m \<Rightarrow> m)"

definition measure :: "string \<Rightarrow> string \<Rightarrow> string \<Rightarrow> fields" where
  "measure device_class name unit =
     [(''device_class'', JText device_class), icon name, (''unit_of_measurement'', JText unit)]"

text \<open>The first switch of \<open>sensorMetadata\<close>; the degree sign is written in UTF-8.\<close>

definition unit_fields :: "string \<Rightarrow> fields" where
  "unit_fields lower =
     (if hasSuffix lower ''seconds'' \<or>
         contains lower ''time'' \<and> (contains lower ''volt'' \<or> contains lower ''freq'')
      then measure ''duration'' ''timer-outline'' ''s''
      else if hasSuffix lower ''kwh''
      then measure ''energy'' ''lightning-bolt'' ''kWh'' @ [(''state_class'', JText ''total_increasing'')]
      else if hasSuffix lower ''kw'' then measure ''power'' ''flash'' ''kW''
      else if contains lower ''percent'' \<or> hasSuffix lower ''soc''
      then [icon ''percent-outline'', (''unit_of_measurement'', JText ''%'')]
      else if contains lower ''temp'' \<and> hasSuffix lower ''c''
      then measure ''temperature'' ''thermometer'' [CHR 0xC2, CHR 0xB0, CHR ''C'']
      else if contains lower ''watt'' then measure ''power'' ''flash'' ''W''
      else if contains lower ''volt'' then measure ''voltage'' ''sine-wave'' ''V''
      else if hasSuffix lower ''va'' then measure ''apparent_power'' ''flash-triangle-outline'' ''VA''
      else if contains lower ''amps'' then measure ''current'' ''current-ac'' ''A''
      else if contains lower ''freq'' then measure ''frequency'' ''sine-wave'' ''Hz''
      else [])"

definition default_icon :: "string \<Rightarrow> fields" where
  "default_icon lower =
     (if contains lower ''fan'' then [icon ''fan'']
      else if contains lower ''battery'' \<or> hasPrefix lower ''bat'' then [icon ''battery'']
      else if contains lower ''pv'' then [icon ''solar-panel'']
      else if contains lower ''grid'' \<or> contains lower ''uti'' then [icon ''transmission-tower'']
      else if contains lower ''output'' then [icon ''power-plug-outline'']
      else if contains lower ''buzzer'' \<or> contains lower ''alarm'' then [icon ''bell-ring-outline'']
      else if contains lower ''restart'' \<or> contains lower ''reset'' then [icon ''restart'']
      else if contains lower ''enable'' then [icon ''toggle-switch-outline'']
      else [])"

definition sensorMetadata :: "string \<Rightarrow> fields" where
  "sensorMetadata key =
     (let lower = map lower_ascii key;
          metadata = merge (merge [] (metadata_of key)) (unit_fields lower);
          metadata = (if map_of metadata ''icon'' = None then merge metadata (default_icon lower) else metadata)
      in if map_of metadata ''unit_of_measurement'' \<noteq> None \<and> map_of metadata ''state_class'' = None \<and>
            map_of metadata ''device_class'' \<noteq> Some (JText ''duration'')
         then AList.update ''state_class'' (JText ''measurement'') metadata
         else metadata)"

section \<open>Entities\<close>

definition componentBase :: "MQTTConfig \<Rightarrow> string \<Rightarrow> string \<Rightarrow> fields" where
  "componentBase config objectID name =
     [(''name'', JText name), (''object_id'', JText objectID),
      (''unique_id'', JText (mq_HADeviceID config @ ''_'' @ objectID))]"

definition deviceComponent :: "string \<Rightarrow> fields \<Rightarrow> fields" where
  "deviceComponent platform payload = AList.update ''platform'' (JText platform) payload"

definition isBooleanRegister :: "string \<Rightarrow> bool" where
  "isBooleanRegister key \<longleftrightarrow> key = ''DebugModeEnable'' \<or> key \<in> set booleanKeys"

definition service_numberLimits :: "'c mqtt \<Rightarrow> string \<Rightarrow> numberLimits" where
  "service_numberLimits m key = discoveryNumberLimits key (lastPublishedConfig m) (batteryTypeKnown m)"

definition batteryUnitMetadata :: "string \<Rightarrow> fields" where
  "batteryUnitMetadata battery =
     (if battery = [] then []
      else if battery = ''Lithium'' then
        [icon ''percent-outline'', (''unit_of_measurement'', JText ''%''), (''state_class'', JText ''measurement'')]
      else
        [(''device_class'', JText ''voltage''), icon ''sine-wave'',
         (''unit_of_measurement'', JText ''V''), (''state_class'', JText ''measurement'')])"

definition put :: "string \<Rightarrow> json \<Rightarrow> fields \<Rightarrow> fields" where
  "put key v payload = AList.update key v payload"

text \<open>
  A topic of a map that lacks the key is the empty string. The component of a register is
  its platform and its payload.
\<close>

definition topic_of :: "(string \<times> string) list \<Rightarrow> string \<Rightarrow> string" where
  "topic_of topics key = (case map_of topics key of None \<Rightarrow> [] | Some t \<Rightarrow> t)"

definition on_off_payload :: "fields \<Rightarrow> fields" where
  "on_off_payload payload =
     put ''payload_off'' (JText ''false'') (put ''payload_on'' (JText ''true'') payload)"

definition switch_payload :: "fields \<Rightarrow> fields" where
  "switch_payload payload =
     put ''optimistic'' (JBool True)
       (put ''state_off'' (JText ''false'') (put ''state_on'' (JText ''true'') payload))"

text \<open>Lines 620 to 631.\<close>

definition number_payload :: "'c mqtt \<Rightarrow> string \<Rightarrow> fields \<Rightarrow> fields" where
  "number_payload m key payload =
     (let lims = service_numberLimits m key;
          payload = put ''step'' (JNumber (lim_Step lims)) (put ''max'' (JNumber (lim_Max lims))
            (put ''min'' (JNumber (lim_Min lims)) (merge payload (sensorMetadata key))));
          payload = (if key = ''BatLowtoUti'' \<or> key = ''uwAC2BatVolt''
            then merge (AList.delete ''state_class'' (AList.delete ''unit_of_measurement''
              (AList.delete ''device_class'' payload))) (batteryUnitMetadata (batteryTypeKnown m))
            else payload)
      in put ''optimistic'' (JBool True) (put ''mode'' (JText ''box'') payload))"

text \<open>Lines 569 to 581.\<close>

definition config_base :: "'c mqtt \<Rightarrow> registerDef \<Rightarrow> fields" where
  "config_base m d =
     (let key = reg_Key d; objectID = mq_HADeviceID (mqtt_config m) @ ''_'' @ slug key;
          name = (case map_of (metadata_of key) ''name'' of Some (JText n) \<Rightarrow> n | _ \<Rightarrow> friendlyName key);
          payload = put ''state_topic'' (JText (topic_of (configTopics m) key))
            (componentBase (mqtt_config m) objectID name)
      in if reg_Write d \<noteq> None
         then put ''qos'' (JInt 1) (put ''retain'' (JBool False)
           (put ''command_topic'' (JText (base m @ ''/config/'' @ slug key @ ''/set'')) payload))
         else payload)"

definition configDiscovery :: "'c mqtt \<Rightarrow> registerDef \<Rightarrow> string \<times> fields" where
  "configDiscovery m d =
     (let key = reg_Key d; payload = config_base m d
      in if isBooleanRegister key then
           (let payload = put ''icon'' (JText ''mdi:toggle-switch-outline'') (on_off_payload payload)
            in if reg_Write d = None then (''binary_sensor'', payload) else (''switch'', switch_payload payload))
         else if reg_Write d = None then (''sensor'', merge payload (sensorMetadata key))
         else
           (case map_of selectOptions key of
              Some options \<Rightarrow>
                (''select'', put ''optimistic'' (JBool True)
                  (put ''options'' (JTexts options) (merge payload (sensorMetadata key))))
            | None \<Rightarrow>
                if key \<in> set booleanKeys
                then (''switch'', switch_payload (on_off_payload (merge payload (sensorMetadata key))))
                else if reg_Type d = RegisterChar
                then (''text'', put ''optimistic'' (JBool True) (merge payload (sensorMetadata key)))
                else (''number'', number_payload m key payload)))"

section \<open>The document\<close>

definition status_component :: "'c mqtt \<Rightarrow> registerDef \<Rightarrow> string \<times> fields" where
  "status_component m d =
     (let objectID = mq_HADeviceID (mqtt_config m) @ ''_'' @ slug (reg_Key d);
          payload = componentBase (mqtt_config m) objectID (friendlyName (reg_Key d));
          payload = put ''state_topic'' (JText (topic_of (statusTopics m) (reg_Key d))) payload
      in (objectID, deviceComponent ''sensor'' (merge payload (sensorMetadata (reg_Key d)))))"

text \<open>The object identifier is read back from the payload with a type assertion.\<close>

definition config_component :: "'c mqtt \<Rightarrow> registerDef \<Rightarrow> string \<times> fields" where
  "config_component m d =
     (case configDiscovery m d of
        (platform, payload) \<Rightarrow>
          ((case map_of payload ''object_id'' of Some (JText i) \<Rightarrow> i | _ \<Rightarrow> []), deviceComponent platform payload))"

definition sync_component :: "'c mqtt \<Rightarrow> string \<times> fields" where
  "sync_component m =
     (let objectID = mq_HADeviceID (mqtt_config m) @ ''_sync_time''
      in (objectID, deviceComponent ''button''
           (put ''icon'' (JText ''mdi:clock-sync-outline'') (put ''retain'' (JBool False) (put ''qos'' (JInt 1)
             (put ''payload_press'' (JText ''sync'') (put ''command_topic'' (JText (timeSyncCommand m))
               (componentBase (mqtt_config m) objectID ''Sync Time''))))))))"

definition discovery_components :: "f2i \<Rightarrow> 'c mqtt \<Rightarrow> (string \<times> fields) list" where
  "discovery_components oob m =
     fold (\<lambda>(objectID, payload) components. AList.update objectID payload components)
       (map (status_component m) (inputRegisters oob) @ map (config_component m) (holdingRegisters oob) @
        [sync_component m]) []"

definition discovery_document :: "f2i \<Rightarrow> 'c mqtt \<Rightarrow> json" where
  "discovery_document oob m =
     (let config = mqtt_config m
      in JObject
        [(''availability_topic'', JText (availability m)),
         (''device'', JObject
           [(''identifiers'', JTexts [mq_HADeviceID config]), (''name'', JText (mq_HADeviceName config)),
            (''manufacturer'', JText ''Growatt''), (''model'', JText ''SPF 5000 ES'')]),
         (''origin'', JObject
           [(''name'', JText ''spf5000es-server''),
            (''support_url'', JText ''https://github.com/rany2/spf5000es-server'')]),
         (''components'', JObject (map (\<lambda>(i, p). (i, JObject p)) (discovery_components oob m)))])"

text \<open>\<open>json.Marshal\<close> fails on a float that is no number.\<close>

fun marshals :: "json \<Rightarrow> bool" where
  "marshals (JNumber f) = (\<not> is_nan f \<and> \<not> is_inf f)"
| "marshals (JObject fs) = list_all (\<lambda>(_, v). marshals v) fs"
| "marshals _ = True"

end
