(* ===== verification/Discovery_Properties.thy ===== *)
theory Discovery_Properties
  imports Discovery
begin

text \<open>
  What the discovery document promises and the service keeps: every register is announced
  once, the command topic announced for a register is routed to it, and the limits announced
  for a number are the ones its commands are held to.
\<close>

section \<open>Fields\<close>

lemma map_of_merge: "map_of (merge d s) k = (case map_of (rev s) k of None \<Rightarrow> map_of d k | Some v \<Rightarrow> Some v)"
proof (induction s arbitrary: d)
  case (Cons x s)
  obtain key v where x: "x = (key, v)" by (cases x)
  have "merge d (x # s) = merge (AList.update key v d) s" by (simp add: merge_def x)
  with Cons show ?case by (auto simp: x update_conv' map_add_def split: option.splits)
qed (simp add: merge_def)

lemma merge_other: "k \<notin> fst ` set s \<Longrightarrow> map_of (merge d s) k = map_of d k"
  by (simp add: map_of_merge map_of_eq_None_iff split: option.splits) (metis map_of_SomeD set_rev image_eqI fst_conv)

lemma set_merge: "fst ` set (merge d s) \<subseteq> fst ` set d \<union> fst ` set s"
proof (induction s arbitrary: d)
  case (Cons x s)
  obtain key v where x: "x = (key, v)" by (cases x)
  have "merge d (x # s) = merge (AList.update key v d) s" by (simp add: merge_def x)
  with Cons [of "AList.update key v d"] show ?case by (auto simp: x AList.dom_update)
qed (simp add: merge_def)

lemma put_simps [simp]: "map_of (put key v d) k = (if k = key then Some v else map_of d k)"
  by (simp add: put_def update_conv')

definition meta_keys :: "string set" where
  "meta_keys = {''device_class'', ''icon'', ''unit_of_measurement'', ''state_class'', ''name''}"

lemma metadata_keys: "fst ` set (metadata_of key) \<subseteq> meta_keys"
proof -
  have "list_all (\<lambda>(_, fs). fst ` set fs \<subseteq> meta_keys) entityMetadata"
    by (simp add: entityMetadata_def meta_keys_def icon_def)
  then have "fst ` set fs \<subseteq> meta_keys" if "map_of entityMetadata key = Some fs" for fs
    using map_of_SomeD [OF that] by (fastforce simp: list_all_iff)
  then show ?thesis by (cases "map_of entityMetadata key") (simp_all add: metadata_of_def)
qed

lemma unit_keys: "fst ` set (unit_fields lower) \<subseteq> meta_keys"
  by (auto simp: unit_fields_def measure_def icon_def meta_keys_def)

lemma icon_keys: "fst ` set (default_icon lower) \<subseteq> meta_keys"
  by (auto simp: default_icon_def icon_def meta_keys_def split: if_splits)

lemma merge_meta: "fst ` set d \<subseteq> meta_keys \<Longrightarrow> fst ` set s \<subseteq> meta_keys \<Longrightarrow> fst ` set (merge d s) \<subseteq> meta_keys"
  by (rule subset_trans [OF set_merge]) (rule Un_least)

lemma update_meta: "fst ` set d \<subseteq> meta_keys \<Longrightarrow> fst ` set (AList.update ''state_class'' v d) \<subseteq> meta_keys"
proof -
  have "''state_class'' \<in> meta_keys" by (simp add: meta_keys_def)
  moreover assume "fst ` set d \<subseteq> meta_keys"
  ultimately show ?thesis by (simp only: AList.dom_update Un_subset_iff insert_subset empty_subsetI simp_thms)
qed

lemma with_icon_meta:
  "fst ` set d \<subseteq> meta_keys \<Longrightarrow>
   fst ` set (if map_of d ''icon'' = None then merge d (default_icon lower) else d) \<subseteq> meta_keys"
  using merge_meta [OF _ icon_keys] by (cases "map_of d ''icon''") simp_all

lemma with_class_meta:
  "fst ` set d \<subseteq> meta_keys \<Longrightarrow> fst ` set (if c then AList.update ''state_class'' v d else d) \<subseteq> meta_keys"
  using update_meta by (cases c) (simp_all only: if_True if_False)

lemma sensor_keys: "fst ` set (sensorMetadata key) \<subseteq> meta_keys"
proof -
  have "fst ` set ([] :: fields) \<subseteq> meta_keys" by simp
  from merge_meta [OF merge_meta [OF this metadata_keys] unit_keys]
  show ?thesis unfolding sensorMetadata_def Let_def
    by (rule with_class_meta [OF with_icon_meta])
qed

lemma merge_sensor: "k \<notin> meta_keys \<Longrightarrow> map_of (merge d (sensorMetadata key)) k = map_of d k"
  using sensor_keys [of key] by (intro merge_other) blast

lemma merge_battery: "k \<notin> meta_keys \<Longrightarrow> map_of (merge d (batteryUnitMetadata battery)) k = map_of d k"
  by (intro merge_other) (auto simp: batteryUnitMetadata_def icon_def meta_keys_def)

text \<open>What a platform adds to the base of a register leaves its own fields alone.\<close>

definition base_keys :: "string set" where
  "base_keys = {''object_id'', ''unique_id'', ''state_topic'', ''command_topic'', ''retain'', ''qos''}"

lemma base_not_meta: "k \<in> base_keys \<Longrightarrow> k \<notin> meta_keys"
  by (auto simp: base_keys_def meta_keys_def)

lemma number_keeps_base:
  assumes "k \<in> base_keys"
  shows "map_of (number_payload m key payload) k = map_of payload k"
proof -
  have "k \<noteq> ''optimistic'' \<and> k \<noteq> ''mode'' \<and> k \<noteq> ''min'' \<and> k \<noteq> ''max'' \<and> k \<noteq> ''step'' \<and>
      k \<noteq> ''device_class'' \<and> k \<noteq> ''unit_of_measurement'' \<and> k \<noteq> ''state_class''"
    using assms by (auto simp: base_keys_def)
  with base_not_meta [OF assms] show ?thesis
    by (simp add: number_payload_def Let_def merge_battery merge_sensor delete_conv')
qed

lemma configDiscovery_keeps_base:
  assumes "k \<in> base_keys"
  shows "map_of (snd (configDiscovery m d)) k = map_of (config_base m d) k"
proof -
  have "k \<noteq> ''optimistic'' \<and> k \<noteq> ''options'' \<and> k \<noteq> ''payload_on'' \<and> k \<noteq> ''payload_off'' \<and>
      k \<noteq> ''state_on'' \<and> k \<noteq> ''state_off'' \<and> k \<noteq> ''icon''"
    using assms by (auto simp: base_keys_def)
  with base_not_meta [OF assms] show ?thesis
    by (simp add: number_keeps_base [OF assms] configDiscovery_def Let_def switch_payload_def on_off_payload_def merge_sensor split: option.splits)
qed

lemma config_base_fields:
  "map_of (config_base m d) ''object_id'' = Some (JText (mq_HADeviceID (mqtt_config m) @ ''_'' @ slug (reg_Key d)))"
  "map_of (config_base m d) ''command_topic'' =
     (if reg_Write d = None then None else Some (JText (base m @ ''/config/'' @ slug (reg_Key d) @ ''/set'')))"
  "map_of (config_base m d) ''retain'' = (if reg_Write d = None then None else Some (JBool False))"
  "map_of (config_base m d) ''qos'' = (if reg_Write d = None then None else Some (JInt 1))"
  "map_of (config_base m d) ''state_topic'' = Some (JText (topic_of (configTopics m) (reg_Key d)))"
  by (simp_all add: config_base_def Let_def componentBase_def)

lemma config_component_id:
  "fst (config_component m d) = mq_HADeviceID (mqtt_config m) @ ''_'' @ slug (reg_Key d)"
proof -
  obtain platform payload where c: "configDiscovery m d = (platform, payload)" by fastforce
  have "map_of payload ''object_id'' = map_of (config_base m d) ''object_id''"
    using configDiscovery_keeps_base [of "''object_id''" m d] by (simp add: c base_keys_def)
  then show ?thesis by (simp add: config_component_def c config_base_fields)
qed

section \<open>Every register is announced\<close>

lemma fold_update_distinct:
  "distinct (map fst xs) \<Longrightarrow> fst ` set acc \<inter> fst ` set xs = {} \<Longrightarrow>
   fold (\<lambda>(k, v) m. AList.update k v m) xs acc = acc @ xs"
proof (induction xs arbitrary: acc)
  case (Cons x xs)
  obtain k v where x: "x = (k, v)" by (cases x)
  with Cons.prems have "k \<notin> fst ` set acc" by auto
  with x Cons show ?case by (simp add: update_new_key)
qed simp

lemma components_all:
  "discovery_components oob m =
   map (status_component m) (inputRegisters oob) @ map (config_component m) (holdingRegisters oob) @ [sync_component m]"
proof -
  let ?dev = "mq_HADeviceID (mqtt_config m) @ ''_''"
  let ?all = "map (status_component m) (inputRegisters oob) @ map (config_component m) (holdingRegisters oob) @ [sync_component m]"
  have ids: "map fst ?all = map ((@) ?dev)
      (map (slug \<circ> reg_Key) (inputRegisters oob) @ map (slug \<circ> reg_Key) (holdingRegisters oob) @ [''sync_time''])"
    by (simp add: status_component_def Let_def comp_def config_component_id sync_component_def)
  have "distinct (map (slug \<circ> reg_Key) (inputRegisters oob) @ map (slug \<circ> reg_Key) (holdingRegisters oob) @ [''sync_time''])"
    using object_slugs_distinct [of oob] by (simp only: distinct_append distinct.simps set_append set_simps) blast
  then have "distinct (map fst ?all)" unfolding ids by (simp only: distinct_map) (simp add: inj_on_def)
  from fold_update_distinct [OF this, of "[]"] show ?thesis by (simp add: discovery_components_def)
qed

section \<open>Commands are routed\<close>

text \<open>The names a service derives from its configuration, which none of its operations changes.\<close>

definition named :: "f2i \<Rightarrow> 'c mqtt \<Rightarrow> bool" where
  "named oob m \<longleftrightarrow>
     slugToConfigKey m = slug_to_config_key oob \<and> configPrefix m = base m @ ''/config/'' \<and>
     timeSyncCommand m = base m @ ''/time_sync/set'' \<and> configFilter m = base m @ ''/config/+/set'' \<and>
     statusTopics m = status_topics oob (base m) \<and> configTopics m = config_topics oob (base m) \<and>
     availability m = base m @ ''/availability''"

lemma named_New: "named oob (NewMQTTService oob config)"
  by (simp add: named_def NewMQTTService_def Let_def)

lemma hasPrefix_append [simp]: "hasPrefix (p @ s) p"
  by (simp add: hasPrefix_def)

lemma hasSuffix_append [simp]: "hasSuffix (s @ p) p"
  by (simp add: hasSuffix_def)

lemma hasSuffix_set: "hasSuffix (p @ x @ ''/set'') ''/set''"
  using hasSuffix_append [of "p @ x" "''/set''"] by simp

text \<open>What the handler does with a topic between its prefix and its suffix.\<close>

lemma handleCommand_config:
  assumes "named oob m"
  shows "handleCommand oob cs m (base m @ ''/config/'' @ x @ ''/set'') payload s =
    (let key = (case map_of (slugToConfigKey m) x of None \<Rightarrow> [] | Some k \<Rightarrow> k)
     in if key = [] then (Some (Inl (EMsg MUnknownConfigKey)), s)
        else
          (case parseMQTTCommandValue oob payload of
             Inl e \<Rightarrow> (Some (Inl e), s)
           | Inr v \<Rightarrow>
               (case validateWritableNumberValue oob key v (lastPublishedConfig m) (batteryTypeKnown m) of
                  Inl e \<Rightarrow> (Some (Inl e), s)
                | Inr _ \<Rightarrow> (case cs_QueueConfigWrite cs key v s of (r, s') \<Rightarrow> (Some r, s')))))"
proof -
  let ?t = "base m @ ''/config/'' @ x @ ''/set''"
  have "?t \<noteq> timeSyncCommand m" using assms by (simp add: named_def)
  moreover have "hasPrefix ?t (configPrefix m)"
    using assms hasPrefix_append [of "base m @ ''/config/''" "x @ ''/set''"] by (simp add: named_def)
  moreover have "hasSuffix ?t ''/set''" using hasSuffix_set [of "base m @ ''/config/''" x] by simp
  moreover have "length ?t = length (configPrefix m) + length x + 4" using assms by (simp add: named_def)
  moreover have "drop (length (configPrefix m)) ?t = x @ ''/set''" using assms by (simp add: named_def)
  ultimately show ?thesis by (simp add: handleCommand_def)
qed

lemma handleCommand_routes:
  assumes "named oob m" and "d \<in> set (holdingRegisters oob)"
  shows "handleCommand oob cs m (base m @ ''/config/'' @ slug (reg_Key d) @ ''/set'') payload s =
    (case parseMQTTCommandValue oob payload of
       Inl e \<Rightarrow> (Some (Inl e), s)
     | Inr v \<Rightarrow>
         (case validateWritableNumberValue oob (reg_Key d) v (lastPublishedConfig m) (batteryTypeKnown m) of
            Inl e \<Rightarrow> (Some (Inl e), s)
          | Inr _ \<Rightarrow> (case cs_QueueConfigWrite cs (reg_Key d) v s of (r, s') \<Rightarrow> (Some r, s'))))"
proof -
  have "map_of (slugToConfigKey m) (slug (reg_Key d)) = Some (reg_Key d)"
    using assms slug_lookup by (simp add: named_def)
  moreover have "reg_Key d \<noteq> []" using assms(2) keys_not_empty [of oob] by force
  ultimately show ?thesis unfolding handleCommand_config [OF assms(1)] by (simp add: Let_def)
qed

section \<open>Numbers\<close>

lemma number_fields:
  assumes "configDiscovery m d = (''number'', payload)"
  shows "map_of payload ''min'' = Some (JNumber (lim_Min (service_numberLimits m (reg_Key d))))"
    and "map_of payload ''max'' = Some (JNumber (lim_Max (service_numberLimits m (reg_Key d))))"
    and "\<not> isBooleanRegister (reg_Key d)" and "reg_Write d \<noteq> None"
    and "map_of selectOptions (reg_Key d) = None" and "reg_Type d \<noteq> RegisterChar"
proof -
  have n: "payload = number_payload m (reg_Key d) (config_base m d) \<and> \<not> isBooleanRegister (reg_Key d) \<and>
      reg_Write d \<noteq> None \<and> map_of selectOptions (reg_Key d) = None \<and> reg_Type d \<noteq> RegisterChar"
    using assms by (auto simp: configDiscovery_def Let_def split: if_splits option.splits)
  then show "\<not> isBooleanRegister (reg_Key d)" "reg_Write d \<noteq> None"
    "map_of selectOptions (reg_Key d) = None" "reg_Type d \<noteq> RegisterChar" by blast+
  have "''min'' \<notin> meta_keys" "''max'' \<notin> meta_keys" by (simp_all add: meta_keys_def)
  with n show "map_of payload ''min'' = Some (JNumber (lim_Min (service_numberLimits m (reg_Key d))))"
    "map_of payload ''max'' = Some (JNumber (lim_Max (service_numberLimits m (reg_Key d))))"
    by (simp_all add: number_payload_def Let_def merge_battery delete_conv')
qed

section \<open>Properties\<close>

text \<open>C24: the document has one component for each
  register of the two tables and one for the time sync button, under different
  identifiers: none overwrites another.\<close>

theorem every_register_is_announced:
  "discovery_components oob m =
     map (status_component m) (inputRegisters oob) @ map (config_component m) (holdingRegisters oob) @ [sync_component m] \<and>
   length (discovery_components oob m) = 138"
  using components_all [of oob m] by (simp add: inputRegisters_def holdingRegisters_def)

text \<open>C23: the command topic announced for a
  register is one the message handler routes to that very register: the payload is parsed,
  checked against the register's limits and queued for it. It is announced exactly for the
  writable registers, at QoS 1 and never retained.\<close>

theorem announced_commands_are_routed:
  assumes "named oob m" and "d \<in> set (holdingRegisters oob)"
    and "map_of (snd (configDiscovery m d)) ''command_topic'' = Some (JText topic)"
  shows "reg_Write d \<noteq> None \<and>
    map_of (snd (configDiscovery m d)) ''qos'' = Some (JInt 1) \<and>
    map_of (snd (configDiscovery m d)) ''retain'' = Some (JBool False) \<and>
    handleCommand oob cs m topic payload s =
      (case parseMQTTCommandValue oob payload of
         Inl e \<Rightarrow> (Some (Inl e), s)
       | Inr v \<Rightarrow>
           (case validateWritableNumberValue oob (reg_Key d) v (lastPublishedConfig m) (batteryTypeKnown m) of
              Inl e \<Rightarrow> (Some (Inl e), s)
            | Inr _ \<Rightarrow> (case cs_QueueConfigWrite cs (reg_Key d) v s of (r, s') \<Rightarrow> (Some r, s'))))"
proof -
  have k: "map_of (snd (configDiscovery m d)) k = map_of (config_base m d) k"
    if "k \<in> {''command_topic'', ''qos'', ''retain''}" for k
    using that by (intro configDiscovery_keeps_base) (auto simp: base_keys_def)
  have w: "reg_Write d \<noteq> None" and t: "topic = base m @ ''/config/'' @ slug (reg_Key d) @ ''/set''"
    using assms(3) k [of "''command_topic''"] config_base_fields(2) [of m d] by (auto split: if_splits)
  show ?thesis
    using w k [of "''qos''"] k [of "''retain''"] config_base_fields(3,4) [of m d]
      handleCommand_routes [OF assms(1,2)]
    by (simp add: t)
qed

text \<open>A configuration to try them on.\<close>

definition sample_config :: MQTTConfig where
  "sample_config =
     \<lparr>mq_Host = ''localhost'', mq_Port = 1883, mq_Username = [], mq_Password = [], mq_TLSEnabled = False,
      mq_TLSCAFile = [], mq_TLSCertFile = [], mq_TLSKeyFile = [], mq_TLSServerName = [], mq_ClientID = ''spf'',
      mq_Keepalive = 60 * second, mq_WillDelay = 300 * second, mq_OperationTimeout = 10 * second,
      mq_DisconnectTimeout = 5 * second, mq_TopicPrefix = ''spf'', mq_HADiscoveryPrefix = ''homeassistant'',
      mq_HADeviceID = ''spf'', mq_HADeviceName = ''Growatt''\<rparr>"

abbreviation sample_service :: "unit mqtt" where
  "sample_service \<equiv> NewMQTTService (\<lambda>_. 0) sample_config"

theorem announced_commands_are_routed_witness:
  "handleCommand (\<lambda>_. 0) polling_commands sample_service
     (base sample_service @ ''/config/'' @ slug ''BuzzerEnable'' @ ''/set'') ''ON''
     (NewPollingService \<lparr>wall = 0, monotonic = 0, zoneName = [], zoneOffset = 0\<rparr> \<lparr>ConfigInterval = 1, StatusInterval = 1\<rparr>) =
   (case QueueConfigWrite ''BuzzerEnable'' (GBool True)
     (NewPollingService \<lparr>wall = 0, monotonic = 0, zoneName = [], zoneOffset = 0\<rparr> \<lparr>ConfigInterval = 1, StatusInterval = 1\<rparr>) of
      (r, p') \<Rightarrow> (Some r, p'))"
  (is "handleCommand _ _ _ _ _ ?p = _")
proof -
  let ?m = sample_service and ?d = "reg ''BuzzerEnable'' 22 1 RegisterUint (asBool (\<lambda>_. 0)) (Some boolWrite)"
  have d: "?d \<in> set (holdingRegisters (\<lambda>_. 0))" by (simp add: holdingRegisters_def)
  have "map_of (snd (configDiscovery ?m ?d)) ''command_topic'' =
      Some (JText (base ?m @ ''/config/'' @ slug ''BuzzerEnable'' @ ''/set''))"
    using configDiscovery_keeps_base [of "''command_topic''" ?m ?d] config_base_fields(2) [of ?m ?d]
    by (simp add: base_keys_def)
  from announced_commands_are_routed [OF named_New d this, of polling_commands "''ON''" ?p]
  have h: "handleCommand (\<lambda>_. 0) polling_commands ?m (base ?m @ ''/config/'' @ slug ''BuzzerEnable'' @ ''/set'') ''ON'' ?p =
      (case parseMQTTCommandValue (\<lambda>_. 0) ''ON'' of
         Inl e \<Rightarrow> (Some (Inl e), ?p)
       | Inr v \<Rightarrow>
           (case validateWritableNumberValue (\<lambda>_. 0) ''BuzzerEnable'' v (lastPublishedConfig ?m) (batteryTypeKnown ?m) of
              Inl e \<Rightarrow> (Some (Inl e), ?p)
            | Inr _ \<Rightarrow> (case cs_QueueConfigWrite polling_commands ''BuzzerEnable'' v ?p of (r, s') \<Rightarrow> (Some r, s'))))"
    unfolding reg_sel by blast
  have "parseMQTTCommandValue (\<lambda>_. 0) ''ON'' = Inr (GBool True)" by code_simp
  moreover have "\<not> isWritableNumberRegister (\<lambda>_. 0) ''BuzzerEnable''" by code_simp
  ultimately show ?thesis using h by (simp add: validateWritableNumberValue_def polling_commands_def)
qed

text \<open>The minimum and maximum announced for a
  number are the ones its commands are held to at that moment: a numeric command value
  passes the check exactly when it lies between them.\<close>

theorem announced_limits_are_enforced:
  assumes "d \<in> set (holdingRegisters oob)" and "configDiscovery m d = (''number'', payload)"
    and "scalarAsFloat64 v = Some number"
  shows "\<exists>low high. map_of payload ''min'' = Some (JNumber low) \<and> map_of payload ''max'' = Some (JNumber high) \<and>
    (validateWritableNumberValue oob (reg_Key d) v (lastPublishedConfig m) (batteryTypeKnown m) = Inr () \<longleftrightarrow>
       \<not> flt number low \<and> \<not> flt high number)"
proof -
  note n = number_fields [OF assms(2)]
  have "holdingByKey oob (reg_Key d) = Some d" using assms(1) by (simp add: holdingByKey_mem)
  with n have "isWritableNumberRegister oob (reg_Key d)"
    by (simp add: isWritableNumberRegister_def isBooleanRegister_def)
  with n assms(3) show ?thesis
    by (auto simp: validateWritableNumberValue_def service_numberLimits_def Let_def)
qed

theorem announced_limits_are_enforced_witness:
  "\<exists>low high.
     map_of (snd (configDiscovery sample_service (reg ''ComAddress'' 30 1 RegisterUint identity (Some (intWrite (\<lambda>_. 0)))))) ''min'' =
       Some (JNumber low) \<and>
     map_of (snd (configDiscovery sample_service (reg ''ComAddress'' 30 1 RegisterUint identity (Some (intWrite (\<lambda>_. 0)))))) ''max'' =
       Some (JNumber high) \<and>
     (validateWritableNumberValue (\<lambda>_. 0) ''ComAddress'' (GInt64 7) [] [] = Inr () \<longleftrightarrow>
       \<not> flt (float_of_int 7) low \<and> \<not> flt high (float_of_int 7))"
proof -
  let ?m = sample_service
  let ?d = "reg ''ComAddress'' 30 1 RegisterUint identity (Some (intWrite (\<lambda>_. 0)))"
  have d: "?d \<in> set (holdingRegisters (\<lambda>_. 0))" by (simp add: holdingRegisters_def)
  have c: "configDiscovery ?m ?d = (''number'', snd (configDiscovery ?m ?d))"
    by (simp add: configDiscovery_def isBooleanRegister_def booleanKeys_def selectOptions_def Let_def)
  have n: "scalarAsFloat64 (GInt64 7) = Some (float_of_int 7)" by simp
  have "lastPublishedConfig ?m = []" "batteryTypeKnown ?m = []"
    by (simp_all add: NewMQTTService_def Let_def)
  with announced_limits_are_enforced [OF d c n] show ?thesis by simp
qed

end
