(* ===== verification/Entities.thy ===== *)
theory Entities
  imports Discovery_Properties
begin

text \<open>
  The entity a configuration register is announced as fits the values it publishes and the
  commands it takes: the tables of \<open>src/registers.go\<close> agree with each other.
\<close>

section \<open>What a read transform publishes\<close>

definition bools :: "readValueFunc \<Rightarrow> bool" where
  "bools f \<longleftrightarrow> (\<forall>raw v. f raw = Inr v \<longrightarrow> (\<exists>b. v = GBool b))"

definition texts_of :: "string list \<Rightarrow> readValueFunc \<Rightarrow> bool" where
  "texts_of opts f \<longleftrightarrow> (\<forall>raw v. f raw = Inr v \<longrightarrow> (\<exists>s \<in> set opts. v = GString s))"

definition numbers :: "readValueFunc \<Rightarrow> bool" where
  "numbers f \<longleftrightarrow> (\<forall>raw v. \<not> raw_isText raw \<longrightarrow> f raw = Inr v \<longrightarrow> (\<exists>x. scalarAsFloat64 v = Some x))"

definition texts :: "readValueFunc \<Rightarrow> bool" where
  "texts f \<longleftrightarrow> (\<forall>raw v. raw_isText raw \<longrightarrow> f raw = Inr v \<longrightarrow> (\<exists>s. v = GString s))"

lemma kind_dests:
  "bools f \<Longrightarrow> f raw = Inr v \<Longrightarrow> \<exists>b. v = GBool b"
  "texts_of opts f \<Longrightarrow> f raw = Inr v \<Longrightarrow> \<exists>s \<in> set opts. v = GString s"
  "numbers f \<Longrightarrow> f raw = Inr v \<Longrightarrow> \<not> raw_isText raw \<Longrightarrow> \<exists>x. scalarAsFloat64 v = Some x"
  "texts f \<Longrightarrow> f raw = Inr v \<Longrightarrow> raw_isText raw \<Longrightarrow> \<exists>s. v = GString s"
  unfolding bools_def texts_of_def numbers_def texts_def by blast+

lemma bools_asBool: "bools (asBool oob)"
  by (auto simp: bools_def asBool_def)

lemma enumRead_member:
  assumes "enumRead oob vals raw = Inr v"
  shows "v \<in> snd ` set vals"
proof -
  obtain n where "map_of vals n = Some v" using assms by (auto simp: enumRead_def split: option.splits)
  then have "(n, v) \<in> set vals" by (rule map_of_SomeD)
  then show ?thesis by (rule rev_image_eqI) simp
qed

lemma bools_enumRead: "list_all (\<lambda>(_, v). \<exists>b. v = GBool b) vals \<Longrightarrow> bools (enumRead oob vals)"
  unfolding bools_def list_all_iff using enumRead_member by fastforce

lemma texts_enumRead: "list_all (\<lambda>(_, v). \<exists>s \<in> set opts. v = GString s) vals \<Longrightarrow> texts_of opts (enumRead oob vals)"
  unfolding texts_of_def list_all_iff using enumRead_member by fastforce

lemma identity_kinds: "numbers identity" "texts identity"
  by (simp_all add: numbers_def texts_def identity_def raw_value_def)

lemma numbers_scaled: "numbers (scaled divisor)"
  by (auto simp: numbers_def scaled_def)

text \<open>An option is written as the number that reads back as it.\<close>

definition option_kept :: "registerDef \<Rightarrow> string \<Rightarrow> bool" where
  "option_kept d opt \<longleftrightarrow>
     (case reg_Write d of
        None \<Rightarrow> False
      | Some wr \<Rightarrow>
          (case wr (GString opt) of
             Inr (GInt64 n) \<Rightarrow> 0 \<le> n \<and> n < 65536 \<and> reg_Read d (raw_int n) = Inr (GString opt)
           | _ \<Rightarrow> False))"

definition row_suits :: "registerDef \<Rightarrow> bool" where
  "row_suits d \<longleftrightarrow>
     (let key = reg_Key d
      in if isBooleanRegister key then bools (reg_Read d)
         else if reg_Write d = None then True
         else
           (case map_of selectOptions key of
              Some opts \<Rightarrow> reg_Type d = RegisterUint \<and> reg_Length d = 1 \<and> texts_of opts (reg_Read d) \<and> list_all (option_kept d) opts
            | None \<Rightarrow> if reg_Type d = RegisterChar then texts (reg_Read d) else numbers (reg_Read d)))"

text \<open>An enumeration and the options announced for it.\<close>

definition enum_fits :: "(int \<times> goval) list \<Rightarrow> string list \<Rightarrow> bool" where
  "enum_fits vals opts \<longleftrightarrow>
     list_all (\<lambda>(_, v). case v of GString s \<Rightarrow> s \<in> set opts | _ \<Rightarrow> False) vals \<and>
     list_all (\<lambda>opt. case map_of (reverseEnum vals) opt of
         None \<Rightarrow> False
       | Some n \<Rightarrow> 0 \<le> n \<and> n < 65536 \<and> map_of vals n = Some (GString opt)) opts"

lemma enums_fit [simp]:
  "enum_fits outputConfig [''SBU'', ''SOL'', ''UTI'', ''SUB'']"
  "enum_fits chargeConfig [''PV First'', ''PV&UTI'', ''PV Only'']"
  "enum_fits pvModel [''Independent'', ''Parallel'']"
  "enum_fits acInModel [''APL'', ''UPS'', ''GEN'']"
  "enum_fits outputVoltType [''208VAC'', ''230VAC'', ''240VAC'', ''220VAC'', ''100VAC'', ''110VAC'', ''120VAC'']"
  "enum_fits outputFreqType [''50Hz'', ''60Hz'']"
  "enum_fits overLoadRestart [''Yes'', ''No'', ''Switch to UTI'']"
  "enum_fits batteryType [''AGM'', ''FLD'', ''USE'', ''Lithium'', ''USE2'']"
  "enum_fits agingMode [''Normal'', ''Aging'']"
  "enum_fits safetyType [''Standard'', ''ETL'', ''AS4777'', ''CQC'', ''VDE4105'']"
  by code_simp+

lemma enum_row:
  assumes "enum_fits vals opts" and "map_of selectOptions key = Some opts" and "\<not> isBooleanRegister key"
  shows "row_suits (reg key start 1 RegisterUint (enumRead oob vals) (Some (enumWrite (reverseEnum vals))))"
proof -
  have "list_all (\<lambda>(_, v). \<exists>s \<in> set opts. v = GString s) vals"
    using assms(1) by (auto simp: enum_fits_def list_all_iff split: goval.splits)
  moreover have "option_kept (reg key start 1 RegisterUint (enumRead oob vals) (Some (enumWrite (reverseEnum vals)))) opt"
    if "opt \<in> set opts" for opt
    using assms(1) that
    by (auto simp: enum_fits_def list_all_iff option_kept_def enumWrite_def enumRead_def raw_asInt64_def raw_int_def split: option.splits)
  ultimately show ?thesis
    using assms(2,3) by (simp add: row_suits_def texts_enumRead list_all_iff)
qed

lemma option_row:
  "(case map_of selectOptions key of None \<Rightarrow> False | Some opts \<Rightarrow> enum_fits vals opts) \<Longrightarrow> \<not> isBooleanRegister key \<Longrightarrow>
   row_suits (reg key start 1 RegisterUint (enumRead oob vals) (Some (enumWrite (reverseEnum vals))))"
  using enum_row by (cases "map_of selectOptions key") auto

lemma boolean_row:
  "isBooleanRegister key \<Longrightarrow> bools f \<Longrightarrow> row_suits (reg key start l ty f wr)"
  by (simp add: row_suits_def)

lemma plain_row:
  "\<not> isBooleanRegister key \<Longrightarrow> map_of selectOptions key = None \<Longrightarrow>
   (wr \<noteq> None \<longrightarrow> (if ty = RegisterChar then texts f else numbers f)) \<Longrightarrow> row_suits (reg key start l ty f wr)"
  by (simp add: row_suits_def)

lemma read_only_row: "\<not> isBooleanRegister key \<Longrightarrow> row_suits (reg key start l ty f None)"
  by (simp add: row_suits_def)

lemma overTemp_bools: "bools (enumRead oob overTempRestart)"
  by (rule bools_enumRead) (auto simp: overTempRestart_def)

lemma holding_rows_suit: "list_all row_suits (holdingRegisters oob)"
  by (simp add: holdingRegisters_def option_row boolean_row plain_row read_only_row selectOptions_def isBooleanRegister_def
      booleanKeys_def bools_asBool overTemp_bools identity_kinds numbers_scaled)

section \<open>The platform of a register\<close>

datatype entity = Toggle | Sensor | Select "string list" | Text | Number

definition entity_of :: "registerDef \<Rightarrow> entity" where
  "entity_of d =
     (if isBooleanRegister (reg_Key d) then Toggle
      else if reg_Write d = None then Sensor
      else
        (case map_of selectOptions (reg_Key d) of
           Some opts \<Rightarrow> Select opts
         | None \<Rightarrow> if reg_Type d = RegisterChar then Text else Number))"

fun platform_fits :: "entity \<Rightarrow> string \<Rightarrow> fields \<Rightarrow> bool" where
  "platform_fits Toggle platform _ = (platform \<in> {''switch'', ''binary_sensor''})"
| "platform_fits Sensor platform _ = (platform = ''sensor'')"
| "platform_fits (Select opts) platform payload = (platform = ''select'' \<and> map_of payload ''options'' = Some (JTexts opts))"
| "platform_fits Text platform _ = (platform = ''text'')"
| "platform_fits Number platform _ = (platform = ''number'')"

lemma discovery_platform: "configDiscovery m d = (platform, payload) \<Longrightarrow> platform_fits (entity_of d) platform payload"
  by (auto simp: configDiscovery_def entity_of_def isBooleanRegister_def Let_def split: if_splits option.splits)

lemma decoded_raw:
  "decodeRegisterValue registers d = Inr raw \<Longrightarrow> raw_isText raw \<longleftrightarrow> reg_Type d = RegisterChar"
  by (cases "reg_Type d") (auto simp: decodeRegisterValue_def raw_int_def raw_string_def Let_def split: if_splits)

lemma decoded_kind:
  assumes "decode_row registers d = Inr v"
  obtains raw where "reg_Read d raw = Inr v" and "raw_isText raw \<longleftrightarrow> reg_Type d = RegisterChar"
  using assms decoded_raw by (auto simp: decode_row_def)

lemma option_written:
  assumes "holdingByKey oob (reg_Key d) = Some d" and "reg_Type d = RegisterUint" and "reg_Length d = 1"
    and "option_kept d opt"
  shows "\<exists>vals. prepare_write oob (reg_Key d) (GString opt) = Inr (d, vals) \<and>
    decode_row vals (d\<lparr>reg_Start := 0\<rparr>) = Inr (GString opt)"
proof -
  obtain wr n where wr: "reg_Write d = Some wr" "wr (GString opt) = Inr (GInt64 n)" and n: "0 \<le> n" "n < 65536"
    and rd: "reg_Read d (raw_int n) = Inr (GString opt)"
    using assms(4) by (auto simp: option_kept_def split: option.splits sum.splits goval.splits)
  have n64: "in_int64 n" using n by (simp add: in_int64_def min_int64_def max_int64_def)
  have enc: "encodeRawValue oob (GInt64 n) d = Inr (split_words 1 (word_of_int n))"
    using encode_numeric [OF n64, of d oob] assms(2,3) n by (simp add: numeric_type_def register_range_def)
  have "decodeRegisterValue (split_words 1 (word_of_int n)) (d\<lparr>reg_Start := 0\<rparr>) = Inr (raw_int n)"
    by (rule decode_encode_numeric [OF n64 _ _ _ enc]) (simp_all add: assms numeric_type_def)
  then have "decode_row (split_words 1 (word_of_int n)) (d\<lparr>reg_Start := 0\<rparr>) = Inr (GString opt)"
    by (simp add: decode_row_def rd)
  then show ?thesis using wr enc assms(1) by (simp add: prepare_write_def)
qed

lemma row_suits_cases:
  assumes "row_suits d"
  shows "case entity_of d of
      Toggle \<Rightarrow> bools (reg_Read d)
    | Sensor \<Rightarrow> True
    | Select opts \<Rightarrow> reg_Type d = RegisterUint \<and> reg_Length d = 1 \<and> texts_of opts (reg_Read d) \<and> list_all (option_kept d) opts
    | Text \<Rightarrow> reg_Type d = RegisterChar \<and> texts (reg_Read d)
    | Number \<Rightarrow> reg_Type d \<noteq> RegisterChar \<and> numbers (reg_Read d)"
  using assms by (auto simp: row_suits_def entity_of_def Let_def split: if_splits option.splits)

section \<open>Property\<close>

text \<open>C11: what a configuration register publishes is a state its
  entity has: a switch or binary sensor gets \<open>true\<close> or \<open>false\<close>, a select one of its announced
  options, a number a number and a text a string. Every option of a select is accepted as a
  command and what is written for it reads back as the same option.\<close>

theorem entities_suit_their_registers:
  assumes "d \<in> set (holdingRegisters oob)" and "configDiscovery m d = (platform, payload)"
  shows "(decode_row registers d = Inr v \<longrightarrow>
      (platform \<in> {''switch'', ''binary_sensor''} \<longrightarrow> mqttValue other v \<in> {''true'', ''false''}) \<and>
      (platform = ''select'' \<longrightarrow> (\<exists>opts s. map_of payload ''options'' = Some (JTexts opts) \<and> s \<in> set opts \<and> mqttValue other v = s)) \<and>
      (platform = ''number'' \<longrightarrow> (\<exists>x. scalarAsFloat64 v = Some x)) \<and>
      (platform = ''text'' \<longrightarrow> (\<exists>s. v = GString s))) \<and>
    (platform = ''select'' \<and> map_of payload ''options'' = Some (JTexts opts) \<and> opt \<in> set opts \<longrightarrow>
      (\<exists>vals. prepare_write oob (reg_Key d) (GString opt) = Inr (d, vals) \<and>
        decode_row vals (d\<lparr>reg_Start := 0\<rparr>) = Inr (GString opt)))"
proof -
  have "row_suits d" using holding_rows_suit [of oob] assms(1) by (simp add: list_all_iff)
  note suits = row_suits_cases [OF this]
  note fits = discovery_platform [OF assms(2)]
  have "(platform \<in> {''switch'', ''binary_sensor''} \<longrightarrow> mqttValue other v \<in> {''true'', ''false''}) \<and>
      (platform = ''select'' \<longrightarrow> (\<exists>opts s. map_of payload ''options'' = Some (JTexts opts) \<and> s \<in> set opts \<and> mqttValue other v = s)) \<and>
      (platform = ''number'' \<longrightarrow> (\<exists>x. scalarAsFloat64 v = Some x)) \<and> (platform = ''text'' \<longrightarrow> (\<exists>s. v = GString s))"
    if "decode_row registers d = Inr v"
  proof -
    from decoded_kind [OF that] obtain raw where "reg_Read d raw = Inr v" "raw_isText raw \<longleftrightarrow> reg_Type d = RegisterChar" .
    note raw = this and kinds = kind_dests [where f = "reg_Read d" and raw = raw and v = v]
    show ?thesis
    proof (cases "entity_of d")
      case Toggle
      with suits raw kinds(1) obtain b where "v = GBool b" by auto
      with fits Toggle show ?thesis by (auto simp: mqttValue_def)
    next
      case (Select opts)
      with suits raw kinds(2) obtain s where "v = GString s" "s \<in> set opts" by auto
      with fits Select show ?thesis by (simp add: mqttValue_def)
    next
      case Text
      with suits raw kinds(4) obtain s where "v = GString s" by auto
      with fits Text show ?thesis by simp
    next
      case Number
      with suits raw kinds(3) obtain x where "scalarAsFloat64 v = Some x" by auto
      with fits Number show ?thesis by simp
    next
      case Sensor
      with fits show ?thesis by simp
    qed
  qed
  moreover have "\<exists>vals. prepare_write oob (reg_Key d) (GString opt) = Inr (d, vals) \<and>
      decode_row vals (d\<lparr>reg_Start := 0\<rparr>) = Inr (GString opt)"
    if "platform = ''select'' \<and> map_of payload ''options'' = Some (JTexts opts) \<and> opt \<in> set opts"
  proof -
    have "entity_of d = Select opts" using fits that by (cases "entity_of d") simp_all
    with suits that show ?thesis
      by (intro option_written) (simp_all add: holdingByKey_mem assms(1) list_all_iff)
  qed
  ultimately show ?thesis by (rule conjI [OF impI impI])
qed

theorem entities_suit_their_registers_witness:
  "\<exists>vals. prepare_write (\<lambda>_. 0) ''BatteryType'' (GString ''Lithium'') =
      Inr (reg ''BatteryType'' 39 1 RegisterUint (enumRead (\<lambda>_. 0) batteryType) (Some (enumWrite (reverseEnum batteryType))), vals)"
proof -
  let ?d = "reg ''BatteryType'' 39 1 RegisterUint (enumRead (\<lambda>_. 0) batteryType) (Some (enumWrite (reverseEnum batteryType)))"
  have d: "?d \<in> set (holdingRegisters (\<lambda>_. 0))" by (simp add: holdingRegisters_def)
  have "fst (configDiscovery sample_service ?d) = ''select''"
    "map_of (snd (configDiscovery sample_service ?d)) ''options'' = Some (JTexts [''AGM'', ''FLD'', ''USE'', ''Lithium'', ''USE2''])"
    by (simp_all add: configDiscovery_def isBooleanRegister_def booleanKeys_def selectOptions_def Let_def)
  moreover from this have c: "configDiscovery sample_service ?d = (''select'', snd (configDiscovery sample_service ?d))"
    by (simp add: prod_eq_iff)
  ultimately have "''select'' = ''select'' \<and>
      map_of (snd (configDiscovery sample_service ?d)) ''options'' = Some (JTexts [''AGM'', ''FLD'', ''USE'', ''Lithium'', ''USE2'']) \<and>
      ''Lithium'' \<in> set [''AGM'', ''FLD'', ''USE'', ''Lithium'', ''USE2'']"
    by simp
  from entities_suit_their_registers [OF d c, THEN conjunct2, THEN mp, OF this] show ?thesis
    unfolding reg_sel by (elim exE conjE) (rule exI)
qed

end
