(* ===== verification/Mqtt_Service.thy ===== *)
theory Mqtt_Service
  imports Discovery
begin

text \<open>
  The operations of the MQTT service (\<open>src/mqtt.go\<close>, lines 144 to 289, 342 to 561 and 682 to
  712): connecting and subscribing, the updates it is handed, and the publisher that sends
  them.
\<close>

section \<open>Publishing\<close>

text \<open>A failed \<open>Publish\<close> is only logged, so a request is all a call leaves behind.\<close>

definition publish :: "string \<Rightarrow> payload \<Rightarrow> bool \<Rightarrow> 'c mqtt \<Rightarrow> 'c mqtt" where
  "publish topic payload retain m =
     (case mqtt_client m of
        None \<Rightarrow> m
      | Some c \<Rightarrow> m\<lparr>requests := requests m @ [(c, \<lparr>pub_topic = topic, pub_payload = payload, pub_retain = retain\<rparr>)]\<rparr>)"

definition publish_topic :: "(string \<times> string) list \<Rightarrow> string \<Rightarrow> string \<Rightarrow> string \<Rightarrow> string" where
  "publish_topic topics prefixed namespace key =
     (let topic = topic_of topics key in if topic = [] then valueTopic prefixed namespace key else topic)"

definition publishStatus :: "(goval \<Rightarrow> string) \<Rightarrow> govalues \<Rightarrow> 'c mqtt \<Rightarrow> 'c mqtt" where
  "publishStatus other status m =
     fold (\<lambda>(key, v) m. publish (publish_topic (statusTopics m) (base m) ''status'' key)
       (Bytes (mqttValue other v)) True m) status m"

definition updateBatteryType :: "string \<Rightarrow> 'c mqtt \<Rightarrow> 'c mqtt" where
  "updateBatteryType battery m =
     (if battery = [] \<or> battery = batteryTypeKnown m then m
      else m\<lparr>batteryTypeKnown := battery, discoveryPending := True\<rparr>)"

definition publishConfig :: "(goval \<Rightarrow> string) \<Rightarrow> govalues \<Rightarrow> 'c mqtt \<Rightarrow> 'c mqtt" where
  "publishConfig other config m =
     (let m = fold (\<lambda>(key, v) m. publish (publish_topic (configTopics m) (base m) ''config'' key)
            (Bytes (mqttValue other v)) True m) config m;
          m = (case map_of config ''BatteryType'' of Some (GString battery) \<Rightarrow> updateBatteryType battery m | _ \<Rightarrow> m)
      in m\<lparr>lastPublishedConfig := copyConfigMap config\<rparr>)"

definition publishDiscoveryPayload :: "string \<Rightarrow> string \<Rightarrow> json option \<Rightarrow> 'c mqtt \<Rightarrow> 'c mqtt" where
  "publishDiscoveryPayload component objectID payload m =
     (let topic = mq_HADiscoveryPrefix (mqtt_config m) @ ''/'' @ component @ ''/'' @ objectID @ ''/config''
      in case payload of
           None \<Rightarrow> publish topic (Bytes []) True m
         | Some document \<Rightarrow> if marshals document then publish topic (Document document) True m else m)"

definition publishDeviceDiscovery :: "f2i \<Rightarrow> 'c mqtt \<Rightarrow> 'c mqtt" where
  "publishDeviceDiscovery oob m =
     publishDiscoveryPayload ''device'' (mq_HADeviceID (mqtt_config m)) (Some (discovery_document oob m)) m"

section \<open>Updates\<close>

definition signalUpdatePublisher :: "'c mqtt \<Rightarrow> 'c mqtt" where
  "signalUpdatePublisher m = m\<lparr>updateWake := True\<rparr>"

text \<open>What \<open>StatusUpdated\<close>, \<open>ConfigUpdated\<close> and \<open>requestUpdatePublish\<close> do under the mutex.\<close>

definition note_status :: "govalues \<Rightarrow> 'c mqtt \<Rightarrow> 'c mqtt" where
  "note_status status m = m\<lparr>pendingStatus := status, statusDirty := True, updatesPending := True\<rparr>"

definition note_config :: "govalues \<Rightarrow> 'c mqtt \<Rightarrow> 'c mqtt" where
  "note_config config m = m\<lparr>pendingConfig := config, configDirty := True, updatesPending := True\<rparr>"

definition note_updates :: "'c mqtt \<Rightarrow> 'c mqtt" where
  "note_updates m = m\<lparr>updatesPending := True\<rparr>"

definition StatusUpdated :: "govalues \<Rightarrow> 'c mqtt \<Rightarrow> 'c mqtt" where
  "StatusUpdated status m = signalUpdatePublisher (note_status status m)"

definition ConfigUpdated :: "govalues \<Rightarrow> 'c mqtt \<Rightarrow> 'c mqtt" where
  "ConfigUpdated config m = signalUpdatePublisher (note_config config m)"

definition requestUpdatePublish :: "'c mqtt \<Rightarrow> 'c mqtt" where
  "requestUpdatePublish m = signalUpdatePublisher (note_updates m)"

definition InverterAvailabilityChanged :: "bool \<Rightarrow> 'c mqtt \<Rightarrow> 'c mqtt" where
  "InverterAvailabilityChanged available m =
     (let m' = m\<lparr>onlinePublished := available \<and> connected m\<rparr>
      in if \<not> connected m then m'
         else publish (availability m) (Bytes (if available then ''online'' else ''offline'')) True m')"

section \<open>The publisher\<close>

text \<open>
  \<open>publishReadyAfterInitialState\<close>: its step under the mutex, which says whether discovery and
  the online message are due (None: neither, return early), and what it then publishes.
\<close>

definition ready_step :: "64 word \<Rightarrow> bool \<Rightarrow> bool \<Rightarrow> 'c mqtt \<Rightarrow> (bool \<times> bool) option \<times> 'c mqtt" where
  "ready_step connection configPublished statusPublished m =
     (if \<not> connected m \<or> connection \<noteq> connectionID m then (None, m)
      else
        (let m = m\<lparr>initialConfigPublished := initialConfigPublished m \<or> configPublished,
                   initialStatusPublished := initialStatusPublished m \<or> statusPublished\<rparr>
         in if \<not> initialConfigPublished m \<or> \<not> initialStatusPublished m then (None, m)
            else (Some (discoveryPending m, \<not> onlinePublished m),
                  m\<lparr>discoveryPending := False, onlinePublished := True\<rparr>)))"

definition announce :: "f2i \<Rightarrow> bool \<Rightarrow> bool \<Rightarrow> 'c mqtt \<Rightarrow> 'c mqtt" where
  "announce oob publishDiscovery publishOnline m =
     (let m = (if publishDiscovery then publishDeviceDiscovery oob m else m)
      in if publishOnline then publish (availability m) (Bytes ''online'') True m else m)"

definition publishReadyAfterInitialState :: "f2i \<Rightarrow> 64 word \<Rightarrow> bool \<Rightarrow> bool \<Rightarrow> 'c mqtt \<Rightarrow> 'c mqtt" where
  "publishReadyAfterInitialState oob connection configPublished statusPublished m =
     (case ready_step connection configPublished statusPublished m of
        (None, m') \<Rightarrow> m'
      | (Some (discovery, online), m') \<Rightarrow> announce oob discovery online m')"

text \<open>
  \<open>publishUpdates\<close>: its step under the mutex takes what is pending with the identity of the
  connection, or re-arms the update when there is no connection.
\<close>

record taken =
  tk_connection :: "64 word"
  tk_status :: "govalues option"
  tk_config :: "govalues option"

definition take_step :: "'c mqtt \<Rightarrow> taken option \<times> 'c mqtt" where
  "take_step m =
     (if \<not> connected m then
        (None, if statusDirty m \<or> configDirty m then m\<lparr>updatesPending := True\<rparr> else m)
      else
        (Some \<lparr>tk_connection = connectionID m,
               tk_status = (if statusDirty m then Some (pendingStatus m) else None),
               tk_config = (if configDirty m then Some (pendingConfig m) else None)\<rparr>,
         m\<lparr>pendingStatus := [], pendingConfig := [], statusDirty := False, configDirty := False\<rparr>))"

definition send_taken :: "(goval \<Rightarrow> string) \<Rightarrow> taken \<Rightarrow> 'c mqtt \<Rightarrow> 'c mqtt" where
  "send_taken other t m =
     (let m = (case tk_status t of None \<Rightarrow> m | Some status \<Rightarrow> publishStatus other status m)
      in case tk_config t of None \<Rightarrow> m | Some config \<Rightarrow> publishConfig other config m)"

definition publishUpdates :: "f2i \<Rightarrow> (goval \<Rightarrow> string) \<Rightarrow> 'c mqtt \<Rightarrow> 'c mqtt" where
  "publishUpdates oob other m =
     (case take_step m of
        (None, m') \<Rightarrow> m'
      | (Some t, m') \<Rightarrow>
          publishReadyAfterInitialState oob (tk_connection t) (tk_config t \<noteq> None) (tk_status t \<noteq> None)
            (send_taken other t m'))"

text \<open>\<open>runPending\<close>: its step under the mutex decides whether to publish.\<close>

definition decide_step :: "'c mqtt \<Rightarrow> bool \<times> 'c mqtt" where
  "decide_step m =
     (let shouldPublish = updatesPending m \<or> statusDirty m \<or> configDirty m
      in (shouldPublish, if shouldPublish then m\<lparr>updatesPending := False\<rparr> else m))"

definition mqtt_runPending :: "f2i \<Rightarrow> (goval \<Rightarrow> string) \<Rightarrow> 'c mqtt \<Rightarrow> bool \<times> 'c mqtt" where
  "mqtt_runPending oob other m =
     (case decide_step m of
        (True, m') \<Rightarrow> (True, publishUpdates oob other m')
      | (False, m') \<Rightarrow> (False, m'))"

text \<open>
  \<open>Run\<close> for at most \<open>n\<close> turns: None when it is still going. \<open>select\<close> is the wait for the
  context or the token: it returns the error of the context, or None and what other
  goroutines have made of the service by then, its token taken.
\<close>

fun mqtt_Run ::
    "nat \<Rightarrow> f2i \<Rightarrow> (goval \<Rightarrow> string) \<Rightarrow> ('c mqtt \<Rightarrow> 'w \<Rightarrow> ctx_cause option \<times> 'c mqtt \<times> 'w) \<Rightarrow>
     'c mqtt \<times> 'w \<Rightarrow> err option \<times> 'c mqtt \<times> 'w" where
  "mqtt_Run 0 oob other select s = (None, s)"
| "mqtt_Run (Suc n) oob other select (m, w) =
     (case mqtt_runPending oob other m of
        (True, m') \<Rightarrow> mqtt_Run n oob other select (m', w)
      | (False, m') \<Rightarrow>
          (case select m' w of
             (Some c, s) \<Rightarrow> (Some (ECtx c), s)
           | (None, s) \<Rightarrow> mqtt_Run n oob other select s))"

section \<open>The connection\<close>

text \<open>The library's callback for a new connection, before it starts \<open>onConnect\<close>.\<close>

definition connection_up :: "'c mqtt \<Rightarrow> 64 word \<times> 'c mqtt" where
  "connection_up m =
     (let m' = m\<lparr>connectionID := connectionID m + 1\<rparr> in (connectionID m', m'))"

definition onConnectionLost :: "'s command_service \<Rightarrow> 'c mqtt \<times> 's \<Rightarrow> 'c mqtt \<times> 's" where
  "onConnectionLost cs ms =
     (case ms of (m, s) \<Rightarrow>
       (m\<lparr>connectionID := connectionID m + 1, connected := False, initialConfigPublished := False,
          initialStatusPublished := False, onlinePublished := False\<rparr>,
        cs_SetPollingEnabled cs False s))"

text \<open>The two steps of \<open>onConnect\<close> under the mutex: lines 224 to 230 and 238 to 248.\<close>

definition adopt_client :: "'c \<Rightarrow> 64 word \<Rightarrow> 'c mqtt \<Rightarrow> bool \<times> 'c mqtt" where
  "adopt_client c connection m =
     (if connection \<noteq> connectionID m then (False, m) else (True, m\<lparr>mqtt_client := Some c\<rparr>))"

definition finish_connect :: "'s command_service \<Rightarrow> 64 word \<Rightarrow> 'c mqtt \<times> 's \<Rightarrow> bool \<times> 'c mqtt \<times> 's" where
  "finish_connect cs connection ms =
     (case ms of (m, s) \<Rightarrow>
       if connection \<noteq> connectionID m then (False, m, s)
       else (True,
         m\<lparr>connected := True, initialConfigPublished := False, initialStatusPublished := False,
           onlinePublished := False\<rparr>,
         cs_SetPollingEnabled cs True s))"

definition mqttSubscribeInitialBackoff :: duration where "mqttSubscribeInitialBackoff = second"
definition mqttSubscribeMaxBackoff :: duration where "mqttSubscribeMaxBackoff = 30 * second"

definition subscriptions :: "'c mqtt \<Rightarrow> (string \<times> nat) list" where
  "subscriptions m = [(configFilter m, 1), (timeSyncCommand m, 1)]"

text \<open>
  The loop of \<open>subscribeCommands\<close>, for at most \<open>n\<close> attempts; None when it is still trying.
  \<open>'x\<close> is everything that can change while it subscribes or sleeps, the service included:
  \<open>current\<close> reads the identity of the connection.
\<close>

fun subscribe_loop ::
    "nat \<Rightarrow> ('x \<Rightarrow> 64 word) \<Rightarrow> ('x, unit) io \<Rightarrow> (duration \<Rightarrow> ('x, unit) io) \<Rightarrow> 64 word \<Rightarrow> duration \<Rightarrow> 'x \<Rightarrow>
     ((err + unit) \<times> 'x) option" where
  "subscribe_loop 0 current subscribe sleep connection delay x = None"
| "subscribe_loop (Suc n) current subscribe sleep connection delay x =
     (if connection \<noteq> current x then Some (Inl (EMsg MConnectionChanged), x)
      else
        (case subscribe x of
           (Inr _, x') \<Rightarrow> Some (Inr (), x')
         | (Inl _, x') \<Rightarrow>
             (case sleep delay x' of
                (Inl e, x'') \<Rightarrow> Some (Inl e, x'')
              | (Inr _, x'') \<Rightarrow>
                  subscribe_loop n current subscribe sleep connection
                    (min (wrap64 (delay * 2)) mqttSubscribeMaxBackoff) x'')))"

definition subscribeCommands ::
    "nat \<Rightarrow> ('x \<Rightarrow> 64 word) \<Rightarrow> ('x, unit) io \<Rightarrow> (duration \<Rightarrow> ('x, unit) io) \<Rightarrow> 64 word \<Rightarrow> 'x \<Rightarrow>
     ((err + unit) \<times> 'x) option" where
  "subscribeCommands n current subscribe sleep connection x =
     subscribe_loop n current subscribe sleep connection mqttSubscribeInitialBackoff x"

text \<open>
  \<open>onConnect\<close>, with the state of the service, of the command service and of the world:
  \<open>subscribe\<close> and \<open>sleep\<close> may let other goroutines change all three.
\<close>

definition onConnect ::
    "nat \<Rightarrow> 's command_service \<Rightarrow> ('c \<Rightarrow> (string \<times> nat) list \<Rightarrow> ('c mqtt \<times> 's \<times> 'w, unit) io) \<Rightarrow>
     (duration \<Rightarrow> ('c mqtt \<times> 's \<times> 'w, unit) io) \<Rightarrow> 'c \<Rightarrow> 64 word \<Rightarrow> 'c mqtt \<times> 's \<times> 'w \<Rightarrow>
     ('c mqtt \<times> 's \<times> 'w) option" where
  "onConnect n cs subscribe sleep c connection x =
     (case x of (m, s, w) \<Rightarrow>
       (case adopt_client c connection m of
        (False, m') \<Rightarrow> Some (m', s, w)
      | (True, m') \<Rightarrow>
          (case subscribeCommands n (\<lambda>(m, _). connectionID m) (subscribe c (subscriptions m')) sleep connection
              (m', s, w) of
             None \<Rightarrow> None
           | Some (Inl _, x') \<Rightarrow> Some x'
           | Some (Inr _, m1, s1, w1) \<Rightarrow>
               (case finish_connect cs connection (m1, s1) of
                  (False, m2, s2) \<Rightarrow> Some (m2, s2, w1)
                | (True, m2, s2) \<Rightarrow> Some (requestUpdatePublish m2, s2, w1)))))"

text \<open>
  \<open>mqttTLSConfig\<close>: what it asks of the file system and of the TLS libraries. \<open>'r\<close> are their
  certificate pools, \<open>'k\<close> their key pairs; appending returns None when it found no
  certificate.
\<close>

record ('w, 'r, 'k) tls_files =
  tf_ReadFile :: "string \<Rightarrow> ('w, string) ext"
  tf_SystemCertPool :: "('w, 'r option) ext"
  tf_NewCertPool :: 'r
  tf_AppendCertsFromPEM :: "'r \<Rightarrow> string \<Rightarrow> 'r option"
  tf_LoadX509KeyPair :: "string \<Rightarrow> string \<Rightarrow> ('w, 'k) ext"

record ('r, 'k) tls_config =
  tls_ServerName :: string
  tls_RootCAs :: "'r option"
  tls_Certificates :: "'k list"

definition root_cas :: "('w, 'r, 'k) tls_files \<Rightarrow> string \<Rightarrow> ('w, 'r option) io" where
  "root_cas files ca w =
     (if ca = [] then (Inr None, w)
      else
        (case tf_ReadFile files ca w of
           (Inl e, w1) \<Rightarrow> (Inl (EWrap ''read MQTT TLS CA file'' (EExt e)), w1)
         | (Inr contents, w1) \<Rightarrow>
             (case tf_SystemCertPool files w1 of
                (q, w2) \<Rightarrow>
                  let pool = (case q of Inr (Some r) \<Rightarrow> r | _ \<Rightarrow> tf_NewCertPool files)
                  in (case tf_AppendCertsFromPEM files pool contents of
                        None \<Rightarrow> (Inl (EMsg (MConfig ''MQTT.TLS_CA_FILE'' ''contains no valid PEM certificates'')), w2)
                      | Some roots \<Rightarrow> (Inr (Some roots), w2)))))"

definition client_certificates :: "('w, 'r, 'k) tls_files \<Rightarrow> string \<Rightarrow> string \<Rightarrow> ('w, 'k list) io" where
  "client_certificates files cert key w =
     (if cert = [] then (Inr [], w)
      else
        (case tf_LoadX509KeyPair files cert key w of
           (Inl e, w1) \<Rightarrow> (Inl (EWrap ''load MQTT TLS client certificate'' (EExt e)), w1)
         | (Inr certificate, w1) \<Rightarrow> (Inr [certificate], w1)))"

definition mqttTLSConfig :: "('w, 'r, 'k) tls_files \<Rightarrow> MQTTConfig \<Rightarrow> ('w, ('r, 'k) tls_config) io" where
  "mqttTLSConfig files config w =
     on_ok (root_cas files (mq_TLSCAFile config) w)
       (\<lambda>roots w1. on_ok (client_certificates files (mq_TLSCertFile config) (mq_TLSKeyFile config) w1)
         (\<lambda>certs w2. (Inr \<lparr>tls_ServerName = mq_TLSServerName config, tls_RootCAs = roots, tls_Certificates = certs\<rparr>, w2)))"

text \<open>\<open>Start\<close> and \<open>Stop\<close>: \<open>new_connection\<close> and \<open>disconnect\<close> are the MQTT library's.\<close>

definition mqtt_Start ::
    "('w, 'r, 'k) tls_files \<Rightarrow> (client_config \<Rightarrow> ('r, 'k) tls_config option \<Rightarrow> ('w, 'c) ext) \<Rightarrow> ('c mqtt \<times> 'w, unit) io" where
  "mqtt_Start files new_connection mw =
     (case mw of (m, w) \<Rightarrow>
       (case (if mq_TLSEnabled (mqtt_config m)
              then on_ok (mqttTLSConfig files (mqtt_config m) w) (\<lambda>tls w1. (Inr (Some tls), w1))
              else (Inr None, w)) of
          (Inl e, w1) \<Rightarrow> (Inl e, m, w1)
        | (Inr tls, w1) \<Rightarrow>
            (case new_connection (clientConfig m) tls w1 of
               (Inl e, w2) \<Rightarrow> (Inl (EWrap ''start MQTT client'' (EExt e)), m, w2)
             | (Inr c, w2) \<Rightarrow> (Inr (), m\<lparr>mqtt_client := Some c\<rparr>, w2))))"

definition mqtt_Stop :: "('c \<Rightarrow> 'w \<Rightarrow> 'w) \<Rightarrow> 'c mqtt \<times> 'w \<Rightarrow> 'c mqtt \<times> 'w" where
  "mqtt_Stop disconnect mw =
     (case mw of (m, w) \<Rightarrow> (case mqtt_client m of None \<Rightarrow> (m, w) | Some c \<Rightarrow> (m, disconnect c w)))"

end
