(* ===== verification/Mqtt_Properties.thy ===== *)
theory Mqtt_Properties
  imports Discovery_Properties Mqtt_Service
begin

text \<open>
  The MQTT service as sequential functions: what a turn of the publisher sends, what it does
  without a connection, and which messages the handler can be given.
\<close>

section \<open>What a turn sends\<close>

definition value_message :: "(goval \<Rightarrow> string) \<Rightarrow> string \<Rightarrow> string \<Rightarrow> string \<times> goval \<Rightarrow> publication" where
  "value_message other prefixed namespace kv =
     \<lparr>pub_topic = valueTopic prefixed namespace (fst kv), pub_payload = Bytes (mqttValue other (snd kv)), pub_retain = True\<rparr>"

lemma publish_topic_named:
  assumes "named oob m"
  shows "publish_topic (statusTopics m) (base m) ''status'' key = valueTopic (base m) ''status'' key"
    and "publish_topic (configTopics m) (base m) ''config'' key = valueTopic (base m) ''config'' key"
proof -
  have "topic_of (status_topics oob b) key \<in> {[], valueTopic b ''status'' key}" for b
    by (auto simp: status_topics_def map_of_fold_update [OF input_keys_distinct] topic_of_def
        dest: find_key_in split: option.splits)
  then show "publish_topic (statusTopics m) (base m) ''status'' key = valueTopic (base m) ''status'' key"
    using assms by (auto simp: publish_topic_def named_def Let_def)
  have "topic_of (config_topics oob b) key \<in> {[], valueTopic b ''config'' key}" for b
    by (auto simp: config_topics_def map_of_fold_update [OF holding_keys_distinct] topic_of_def valueTopic_def
        dest: find_key_in split: option.splits)
  then show "publish_topic (configTopics m) (base m) ''config'' key = valueTopic (base m) ''config'' key"
    using assms by (auto simp: publish_topic_def named_def Let_def)
qed

text \<open>Publishing appends to the requests and changes nothing else.\<close>

lemma publish_connected: "mqtt_client m = Some c \<Longrightarrow>
    publish topic payload retain m =
    m\<lparr>requests := requests m @ [(c, \<lparr>pub_topic = topic, pub_payload = payload, pub_retain = retain\<rparr>)]\<rparr>"
  by (simp add: publish_def)

lemma named_requests [simp]: "named oob (m\<lparr>requests := r\<rparr>) = named oob m"
  by (simp add: named_def)

lemma publish_values:
  assumes "named oob m" and "mqtt_client m = Some c"
  shows "fold (\<lambda>(key, v) m. publish (publish_topic (statusTopics m) (base m) ''status'' key) (Bytes (mqttValue other v)) True m) vs m =
      m\<lparr>requests := requests m @ map (Pair c \<circ> value_message other (base m) ''status'') vs\<rparr>"
    and "fold (\<lambda>(key, v) m. publish (publish_topic (configTopics m) (base m) ''config'' key) (Bytes (mqttValue other v)) True m) vs m =
      m\<lparr>requests := requests m @ map (Pair c \<circ> value_message other (base m) ''config'') vs\<rparr>"
proof -
  have "fold (\<lambda>(key, v) m. publish (publish_topic (statusTopics m) (base m) ''status'' key) (Bytes (mqttValue other v)) True m) vs (m\<lparr>requests := r\<rparr>) =
      m\<lparr>requests := r @ map (Pair c \<circ> value_message other (base m) ''status'') vs\<rparr>" for r
    by (induction vs arbitrary: r)
      (auto simp: publish_connected assms publish_topic_named(1) [OF assms(1)] value_message_def)
  from this [of "requests m"] show "fold (\<lambda>(key, v) m. publish (publish_topic (statusTopics m) (base m) ''status'' key) (Bytes (mqttValue other v)) True m) vs m =
      m\<lparr>requests := requests m @ map (Pair c \<circ> value_message other (base m) ''status'') vs\<rparr>" by simp
  have "fold (\<lambda>(key, v) m. publish (publish_topic (configTopics m) (base m) ''config'' key) (Bytes (mqttValue other v)) True m) vs (m\<lparr>requests := r\<rparr>) =
      m\<lparr>requests := r @ map (Pair c \<circ> value_message other (base m) ''config'') vs\<rparr>" for r
    by (induction vs arbitrary: r)
      (auto simp: publish_connected assms publish_topic_named(2) [OF assms(1)] value_message_def)
  from this [of "requests m"] show "fold (\<lambda>(key, v) m. publish (publish_topic (configTopics m) (base m) ''config'' key) (Bytes (mqttValue other v)) True m) vs m =
      m\<lparr>requests := requests m @ map (Pair c \<circ> value_message other (base m) ''config'') vs\<rparr>" by simp
qed

lemma publishStatus_connected:
  "named oob m \<Longrightarrow> mqtt_client m = Some c \<Longrightarrow>
   publishStatus other status m =
   m\<lparr>requests := requests m @ map (Pair c \<circ> value_message other (base m) ''status'') status\<rparr>"
  unfolding publishStatus_def by (rule publish_values(1))

text \<open>The battery type a configuration tells the service.\<close>

definition told_battery :: "govalues \<Rightarrow> string \<Rightarrow> string" where
  "told_battery config known =
     (case map_of config ''BatteryType'' of Some (GString battery) \<Rightarrow> if battery = [] then known else battery | _ \<Rightarrow> known)"

lemma publishConfig_connected:
  assumes "named oob m" and "mqtt_client m = Some c"
  shows "publishConfig other config m =
    m\<lparr>requests := requests m @ map (Pair c \<circ> value_message other (base m) ''config'') config,
      batteryTypeKnown := told_battery config (batteryTypeKnown m),
      discoveryPending := discoveryPending m \<or> told_battery config (batteryTypeKnown m) \<noteq> batteryTypeKnown m,
      lastPublishedConfig := copyConfigMap config\<rparr>"
  unfolding publishConfig_def Let_def publish_values(2) [OF assms]
  by (auto simp: updateBatteryType_def told_battery_def split: option.splits goval.splits)


text \<open>The document depends on what the service knows, not on what it has sent.\<close>

definition knows_same :: "'c mqtt \<Rightarrow> 'd mqtt \<Rightarrow> bool" where
  "knows_same m m' \<longleftrightarrow>
     mqtt_config m = mqtt_config m' \<and> base m = base m' \<and> availability m = availability m' \<and>
     statusTopics m = statusTopics m' \<and> configTopics m = configTopics m' \<and>
     timeSyncCommand m = timeSyncCommand m' \<and> lastPublishedConfig m = lastPublishedConfig m' \<and>
     batteryTypeKnown m = batteryTypeKnown m'"

lemma same_document:
  assumes "knows_same m m'"
  shows "discovery_document oob m = discovery_document oob m'"
proof -
  have same: "mqtt_config m = mqtt_config m'" "base m = base m'" "availability m = availability m'"
    "statusTopics m = statusTopics m'" "configTopics m = configTopics m'" "timeSyncCommand m = timeSyncCommand m'"
    "lastPublishedConfig m = lastPublishedConfig m'" "batteryTypeKnown m = batteryTypeKnown m'"
    using assms by (simp_all add: knows_same_def)
  have number: "number_payload m = number_payload m'"
    by (intro ext) (simp only: number_payload_def service_numberLimits_def same)
  have base: "config_base m = config_base m'"
    by (intro ext) (simp only: config_base_def same)
  have "configDiscovery m = configDiscovery m'"
    by (intro ext) (simp only: configDiscovery_def number base)
  then have components: "config_component m = config_component m'" "status_component m = status_component m'"
    "sync_component m = sync_component m'"
    by (auto simp: config_component_def status_component_def sync_component_def same)
  show ?thesis by (simp only: discovery_document_def discovery_components_def components same)
qed

text \<open>The messages a turn ends with.\<close>

definition discovery_message :: "f2i \<Rightarrow> 'c mqtt \<Rightarrow> publication list" where
  "discovery_message oob m =
     (if marshals (discovery_document oob m)
      then [\<lparr>pub_topic = mq_HADiscoveryPrefix (mqtt_config m) @ ''/device/'' @ mq_HADeviceID (mqtt_config m) @ ''/config'',
             pub_payload = Document (discovery_document oob m), pub_retain = True\<rparr>]
      else [])"

definition availability_message :: "'c mqtt \<Rightarrow> bool \<Rightarrow> publication" where
  "availability_message m available =
     \<lparr>pub_topic = availability m, pub_payload = Bytes (if available then ''online'' else ''offline''), pub_retain = True\<rparr>"

lemma discovery_message_requests [simp]:
  "discovery_message oob (m\<lparr>requests := r\<rparr>) = discovery_message oob m"
proof -
  have "knows_same (m\<lparr>requests := r\<rparr>) m" by (simp add: knows_same_def)
  from same_document [OF this, of oob] show ?thesis by (simp add: discovery_message_def)
qed

lemma announce_connected:
  assumes "mqtt_client m = Some c"
  shows "announce oob discovery online m =
    m\<lparr>requests := requests m @ map (Pair c)
      ((if discovery then discovery_message oob m else []) @ (if online then [availability_message m True] else []))\<rparr>"
  using assms
  by (auto simp: announce_def publishDeviceDiscovery_def publishDiscoveryPayload_def publish_connected
      discovery_message_def availability_message_def Let_def)

text \<open>A turn with a connection and something to send, in the code's own order.\<close>

lemma connected_turn:
  fixes m :: "'c mqtt"
  assumes "named oob m" and "connected m" and "mqtt_client m = Some c"
    and "updatesPending m \<or> statusDirty m \<or> configDirty m"
  defines "status \<equiv> if statusDirty m then pendingStatus m else []"
    and "config \<equiv> if configDirty m then pendingConfig m else []"
    and "known \<equiv> if configDirty m then told_battery (pendingConfig m) (batteryTypeKnown m) else batteryTypeKnown m"
    and "initialC \<equiv> initialConfigPublished m \<or> configDirty m"
    and "initialS \<equiv> initialStatusPublished m \<or> statusDirty m"
  defines "pending \<equiv> discoveryPending m \<or> known \<noteq> batteryTypeKnown m"
  defines "after \<equiv> m\<lparr>updatesPending := False, pendingStatus := [], pendingConfig := [], statusDirty := False,
      configDirty := False, batteryTypeKnown := known,
      lastPublishedConfig := (if configDirty m then copyConfigMap (pendingConfig m) else lastPublishedConfig m),
      initialConfigPublished := initialC, initialStatusPublished := initialS,
      discoveryPending := pending \<and> \<not> (initialC \<and> initialS),
      onlinePublished := onlinePublished m \<or> initialC \<and> initialS\<rparr>"
  shows "mqtt_runPending oob other m =
    (True, after\<lparr>requests := requests m @ map (Pair c)
      (map (value_message other (base m) ''status'') status @ map (value_message other (base m) ''config'') config @
       (if initialC \<and> initialS \<and> pending then discovery_message oob after else []) @
       (if initialC \<and> initialS \<and> \<not> onlinePublished m then [availability_message m True] else []))\<rparr>)"
proof -
  define m1 where "m1 = m\<lparr>updatesPending := False, pendingStatus := [], pendingConfig := [], statusDirty := False, configDirty := False\<rparr>"
  define t where "t = \<lparr>tk_connection = connectionID m, tk_status = (if statusDirty m then Some (pendingStatus m) else None),
      tk_config = (if configDirty m then Some (pendingConfig m) else None)\<rparr>"
  define m2 where "m2 = m1\<lparr>requests := requests m @ map (Pair c)
      (map (value_message other (base m) ''status'') status @ map (value_message other (base m) ''config'') config),
      batteryTypeKnown := known, discoveryPending := pending,
      lastPublishedConfig := (if configDirty m then copyConfigMap (pendingConfig m) else lastPublishedConfig m)\<rparr>"
  have take: "take_step (m\<lparr>updatesPending := False\<rparr>) = (Some t, m1)"
    by (simp add: take_step_def t_def m1_def assms(2))
  have named1: "named oob m1" "named oob (m1\<lparr>requests := r\<rparr>)" and client1: "mqtt_client m1 = Some c" for r
    using assms(1,3) by (simp_all add: m1_def named_def)
  have m1: "base m1 = base m" "requests m1 = requests m" "batteryTypeKnown m1 = batteryTypeKnown m"
      "discoveryPending m1 = discoveryPending m" "lastPublishedConfig m1 = lastPublishedConfig m"
    by (simp_all add: m1_def)
  note sends = publishStatus_connected [OF named1(1) client1] publishConfig_connected [OF named1(1) client1]
    publishConfig_connected [OF named1(2)] m1 client1
  have sent: "send_taken other t m1 = m2"
    by (cases "statusDirty m"; cases "configDirty m")
      (simp_all add: send_taken_def t_def sends m2_def status_def config_def known_def pending_def comp_def,
       (simp_all add: m1_def)?)
  have ready: "ready_step (connectionID m) (configDirty m) (statusDirty m) m2 =
      (if initialC \<and> initialS then Some (pending, \<not> onlinePublished m) else None,
       after\<lparr>requests := requests m2\<rparr>)"
    using assms(2) by (auto simp: ready_step_def m2_def m1_def after_def initialC_def initialS_def)
  have "mqtt_runPending oob other m =
      (True, publishReadyAfterInitialState oob (connectionID m) (configDirty m) (statusDirty m) m2)"
    using assms(4)
    by (auto simp: mqtt_runPending_def decide_step_def publishUpdates_def take sent) (auto simp: t_def)
  moreover have "requests m2 = requests m @ map (Pair c)
      (map (value_message other (base m) ''status'') status @ map (value_message other (base m) ''config'') config)"
    by (simp add: m2_def)
  moreover have "mqtt_client after = Some c" "availability after = availability m"
    using assms(3) by (simp_all add: after_def)
  ultimately show ?thesis
    by (auto simp: publishReadyAfterInitialState_def ready announce_connected availability_message_def)
qed


section \<open>Topics the handler cannot slice\<close>

lemma hasPrefixD: "hasPrefix s p \<Longrightarrow> \<exists>r. s = p @ r"
  by (rule exI [of _ "drop (length p) s"]) (metis append_take_drop_id hasPrefix_def)

lemma hasSuffixD: "hasSuffix s p \<Longrightarrow> \<exists>r. s = r @ p"
  by (rule exI [of _ "take (length s - length p) s"]) (metis append_take_drop_id hasSuffix_def)

lemma overlapping_suffix:
  assumes "p @ ''/config/'' @ r = q @ ''/set''" and "length r < 4"
  shows "r = ''set''"
proof -
  have "rev (p @ ''/config/'' @ r) = rev (q @ ''/set'')" using assms(1) by simp
  then have "rev r @ ''/gifnoc/'' @ rev p = ''tes/'' @ rev q" by simp
  moreover have "length (rev r) < 4" using assms(2) by simp
  ultimately have "rev r = ''tes''"
    by (cases "rev r"; cases "tl (rev r)"; cases "tl (tl (rev r))"; cases "tl (tl (tl (rev r)))") auto
  then show ?thesis by (simp add: rev_swap)
qed

section \<open>Properties\<close>

text \<open>C9: with a connection, a turn of the publisher
  sends every pending status value and then every pending configuration value, retained, on
  the topic announced for its register, then the discovery document when it is due and
  \<open>online\<close> when both first readings have been sent and it was not said before; nothing is
  left pending.\<close>

theorem a_turn_publishes_what_is_pending:
  assumes "named oob m" and "connected m" and "mqtt_client m = Some c"
    and "updatesPending m \<or> statusDirty m \<or> configDirty m"
  shows "\<exists>m'. mqtt_runPending oob other m = (True, m') \<and>
    requests m' = requests m @ map (Pair c)
      (map (value_message other (base m) ''status'') (if statusDirty m then pendingStatus m else []) @
       map (value_message other (base m) ''config'') (if configDirty m then pendingConfig m else []) @
       (if (initialConfigPublished m \<or> configDirty m) \<and> (initialStatusPublished m \<or> statusDirty m) \<and>
           (discoveryPending m \<or> batteryTypeKnown m' \<noteq> batteryTypeKnown m)
        then discovery_message oob m' else []) @
       (if (initialConfigPublished m \<or> configDirty m) \<and> (initialStatusPublished m \<or> statusDirty m) \<and>
           \<not> onlinePublished m
        then [availability_message m True] else [])) \<and>
    batteryTypeKnown m' = (if configDirty m then told_battery (pendingConfig m) (batteryTypeKnown m) else batteryTypeKnown m) \<and>
    lastPublishedConfig m' = (if configDirty m then copyConfigMap (pendingConfig m) else lastPublishedConfig m) \<and>
    \<not> updatesPending m' \<and> \<not> statusDirty m' \<and> \<not> configDirty m'"
  unfolding connected_turn [OF assms]
  by (intro exI conjI, rule refl) simp_all

text \<open>A service that is connected and has a configuration and a status to send.\<close>

definition connected_service :: "unit mqtt" where
  "connected_service =
     (ConfigUpdated [(''BatteryType'', GString ''Lithium'')] (StatusUpdated [(''PV1Volt'', GInt64 120)] sample_service))
       \<lparr>connected := True, mqtt_client := Some ()\<rparr>"

lemma connected_service_simps:
  "named (\<lambda>_. 0) connected_service" "connected connected_service" "mqtt_client connected_service = Some ()"
  "statusDirty connected_service" "configDirty connected_service" "requests connected_service = []"
  "updatesPending connected_service" "base connected_service = ''spf''" "\<not> onlinePublished connected_service"
  "pendingStatus connected_service = [(''PV1Volt'', GInt64 120)]"
  "pendingConfig connected_service = [(''BatteryType'', GString ''Lithium'')]"
  "batteryTypeKnown connected_service = []" "\<not> initialConfigPublished connected_service"
  by (simp_all add: connected_service_def ConfigUpdated_def StatusUpdated_def note_config_def note_status_def
      signalUpdatePublisher_def named_def NewMQTTService_def Let_def sample_config_def trimByte_def)

theorem a_turn_publishes_what_is_pending_witness:
  "\<exists>m'. mqtt_runPending (\<lambda>_. 0) (\<lambda>_. []) connected_service = (True, m') \<and>
    requests m' = map (Pair ())
      ([value_message (\<lambda>_. []) ''spf'' ''status'' (''PV1Volt'', GInt64 120),
        value_message (\<lambda>_. []) ''spf'' ''config'' (''BatteryType'', GString ''Lithium'')] @
       discovery_message (\<lambda>_. 0) m' @ [availability_message connected_service True]) \<and>
    batteryTypeKnown m' = ''Lithium''"
  using a_turn_publishes_what_is_pending [of "\<lambda>_. 0" connected_service "()" "\<lambda>_. []"]
  by (auto simp: connected_service_simps told_battery_def)

text \<open>The service after a reading that was handed over without a connection.\<close>

definition late_service :: "'s command_service \<Rightarrow> govalues \<Rightarrow> 'c mqtt \<times> 's \<Rightarrow> 'c mqtt" where
  "late_service cs status ms = StatusUpdated status (fst (onConnectionLost cs ms))"

lemma late_turn:
  "mqtt_runPending oob other (late_service cs status (m, s)) = (True, late_service cs status (m, s))"
  by (simp add: late_service_def mqtt_runPending_def decide_step_def publishUpdates_def take_step_def
      StatusUpdated_def note_status_def signalUpdatePublisher_def onConnectionLost_def)

lemma late_run:
  "mqtt_Run n oob other select (late_service cs status (m, s), w) = (None, late_service cs status (m, s), w)"
  by (induction n) (simp_all add: late_turn)

text \<open>C19: a reading that was under way when the connection was
  lost is handed over after it, and from then on every turn of the publisher does work that
  changes nothing: until another goroutine connects again, \<open>Run\<close> never reaches the select in
  which it would wait, and would see that its context is cancelled.\<close>

theorem a_late_reading_spins:
  "let late = StatusUpdated status (fst (onConnectionLost cs (m, s)))
   in mqtt_runPending oob other late = (True, late) \<and> mqtt_Run n oob other select (late, w) = (None, late, w)"
  using late_turn [of oob other cs status m s] late_run [of n oob other select cs status m s w]
  by (simp add: late_service_def Let_def)

text \<open>C20: when the inverter becomes unavailable while the publisher
  still has an update to send, \<open>offline\<close> is published first and the turn of the publisher that
  follows publishes \<open>online\<close> after it.\<close>

theorem offline_is_overtaken:
  assumes "named oob m" and "connected m" and "mqtt_client m = Some c"
    and "initialConfigPublished m" and "initialStatusPublished m" and "updatesPending m"
  shows "\<exists>m'. mqtt_runPending oob other (InverterAvailabilityChanged False m) = (True, m') \<and>
    (c, availability_message m False) \<in> set (requests m') \<and>
    requests m' \<noteq> [] \<and> last (requests m') = (c, availability_message m True)"
proof -
  let ?m = "InverterAvailabilityChanged False m"
  have m: "?m = m\<lparr>onlinePublished := False, requests := requests m @ [(c, availability_message m False)]\<rparr>"
    using assms(2,3) by (simp add: InverterAvailabilityChanged_def publish_def availability_message_def Let_def)
  then have "named oob ?m" "connected ?m" "mqtt_client ?m = Some c" "updatesPending ?m \<or> statusDirty ?m \<or> configDirty ?m"
    using assms by (simp_all add: named_def)
  from connected_turn [OF this] show ?thesis
    using assms(4-6) by (simp add: m availability_message_def)
qed

theorem offline_is_overtaken_witness:
  "\<exists>m'. mqtt_runPending (\<lambda>_. 0) (\<lambda>_. [])
      (InverterAvailabilityChanged False
        (connected_service\<lparr>initialConfigPublished := True, initialStatusPublished := True\<rparr>)) = (True, m') \<and>
    last (requests m') = ((), availability_message connected_service True)"
proof -
  let ?m = "connected_service\<lparr>initialConfigPublished := True, initialStatusPublished := True\<rparr>"
  have "named (\<lambda>_. 0) ?m" using connected_service_simps(1) by (simp add: named_def)
  moreover have "availability_message ?m True = availability_message connected_service True"
    by (simp add: availability_message_def)
  ultimately show ?thesis
    using offline_is_overtaken [of "\<lambda>_. 0" ?m "()" "\<lambda>_. []"] connected_service_simps by auto
qed

text \<open>C40: whatever arrives, the handler returns, but for the one topic
  that has its prefix and its suffix overlap. That topic is a level short of the filter the
  service subscribes to; with any name in place of the wildcard, even the empty one, the
  handler returns.\<close>

theorem one_topic_panics:
  assumes "named oob m"
  shows "(fst (handleCommand oob cs m topic payload s) = None \<longleftrightarrow> topic = base m @ ''/config/set'') \<and>
    fst (handleCommand oob cs m (base m @ ''/config/'' @ x @ ''/set'') payload s) \<noteq> None"
proof
  have panics: "fst (handleCommand oob cs m topic payload s) = None \<longleftrightarrow>
      topic \<noteq> timeSyncCommand m \<and> hasPrefix topic (configPrefix m) \<and> hasSuffix topic ''/set'' \<and>
      length topic < length (configPrefix m) + 4"
    by (auto simp: handleCommand_def Let_def split: sum.splits prod.splits)
  show "fst (handleCommand oob cs m topic payload s) = None \<longleftrightarrow> topic = base m @ ''/config/set''"
  proof
    assume "fst (handleCommand oob cs m topic payload s) = None"
    with panics have parts: "hasPrefix topic (configPrefix m)" "hasSuffix topic ''/set''"
      "length topic < length (configPrefix m) + 4" by blast+
    from hasPrefixD [OF parts(1)] obtain r where "topic = configPrefix m @ r" ..
    with assms have r: "topic = base m @ ''/config/'' @ r" by (simp add: named_def)
    from hasSuffixD [OF parts(2)] obtain q where q: "topic = q @ ''/set''" ..
    have "length r < 4" using assms parts(3) by (simp add: r named_def)
    with overlapping_suffix [of "base m" r q] r q have "r = ''set''" by simp
    with r show "topic = base m @ ''/config/set''" by simp
  next
    assume t: "topic = base m @ ''/config/set''"
    have "hasPrefix topic (configPrefix m)" using hasPrefix_append [of "base m @ ''/config/''" "''set''"] assms
      by (simp add: t named_def)
    moreover have "hasSuffix topic ''/set''" using hasSuffix_append [of "base m @ ''/config''" "''/set''"] by (simp add: t)
    moreover have "topic \<noteq> timeSyncCommand m \<and> length topic < length (configPrefix m) + 4"
      using assms by (simp add: t named_def)
    ultimately show "fst (handleCommand oob cs m topic payload s) = None" by (simp only: panics simp_thms)
  qed
  show "fst (handleCommand oob cs m (base m @ ''/config/'' @ x @ ''/set'') payload s) \<noteq> None"
    unfolding handleCommand_config [OF assms] by (auto simp: Let_def split: sum.splits prod.splits option.splits)
qed

theorem one_topic_panics_witness:
  "fst (handleCommand (\<lambda>_. 0) polling_commands sample_service (base sample_service @ ''/config/set'') ''1''
     (NewPollingService \<lparr>wall = 0, monotonic = 0, zoneName = [], zoneOffset = 0\<rparr> \<lparr>ConfigInterval = 1, StatusInterval = 1\<rparr>)) = None"
  by (rule one_topic_panics [OF named_New, THEN conjunct1, THEN iffD2]) (rule refl)

end
