(* ===== verification/Mqtt_Interleaving.thy ===== *)
theory Mqtt_Interleaving
  imports Mqtt_Service Discovery_Properties
begin

text \<open>
  The MQTT service as goroutines: the publisher (\<open>Run\<close>), the polling service that hands it
  readings, the library's callbacks and the set-up of each connection (\<open>onConnect\<close>), in any
  interleaving of their steps under the mutex (\<open>src/mqtt.go\<close>, lines 126 to 136, 189 to 289
  and 342 to 524), composed with the polling service it switches on and off.
\<close>

section \<open>What the service relies on\<close>

text \<open>Only \<open>SetPollingEnabled\<close> decides whether polling is enabled.\<close>

locale polling_switch =
  fixes cs :: "'s command_service" and enabled :: "'s \<Rightarrow> bool"
  assumes set_enabled: "enabled (cs_SetPollingEnabled cs b s) = b"
    and queue_keeps: "enabled (snd (cs_QueueConfigWrite cs key v s)) = enabled s"
    and sync_keeps: "enabled (cs_RequestTimeSync cs s) = enabled s"
begin

lemma lost_agrees:
  "onConnectionLost cs (m, s) = (m', s') \<Longrightarrow> enabled s' = connected m'"
  by (auto simp: onConnectionLost_def set_enabled)

lemma finish_agrees:
  "enabled s = connected m \<Longrightarrow> finish_connect cs i (m, s) = (b, m', s') \<Longrightarrow> enabled s' = connected m'"
  by (auto simp: finish_connect_def set_enabled split: if_splits)

lemma message_keeps:
  "handleCommand oob cs m topic payload s = (r, s') \<Longrightarrow> enabled s' = enabled s"
  using queue_keeps by (auto simp: handleCommand_def sync_keeps Let_def split: if_splits sum.splits prod.splits)
    (metis snd_conv)+

end

interpretation switch: polling_switch polling_commands pollingEnabled
  by unfold_locales
    (auto simp: polling_commands_def SetPollingEnabled_def QueueConfigWrite_def RequestTimeSync_def signalWake_def Let_def)

section \<open>The goroutines\<close>

text \<open>
  Where the publisher stands. \<open>Deciding\<close> is the top of \<open>Run\<close>, \<open>Waiting\<close> its select; a batch is
  carried from the step that takes it to the step that announces it.
\<close>

datatype publisher =
    Deciding
  | Taking
  | Sending taken
  | Sent taken
  | Announcing "64 word" bool bool
  | Waiting
  | Stopped

text \<open>Where the set-up of a connection stands: one goroutine for each call of \<open>onConnect\<close>.\<close>

datatype phase = Adopting | Subscribing | Finishing | Requesting | Signalling

text \<open>
  \<open>callers\<close> counts the readings that are noted and not yet signalled, \<open>linked\<close> says whether the
  library has a connection, \<open>batches\<close> lists the batches sent, newest first.
\<close>

record 'c system =
  service :: "'c mqtt"
  poller :: polling
  publisher_at :: publisher
  setups :: "(64 word \<times> 'c \<times> phase) list"
  callers :: nat
  linked :: bool
  batches :: "taken list"

text \<open>
  The library calls \<open>OnConnectionDown\<close> once for each \<open>OnConnectionUp\<close> and before the next.
  The identity of a connection does not wrap around: there are fewer than \<open>2^64\<close> changes.
\<close>

inductive mqtt_step :: "f2i \<Rightarrow> (goval \<Rightarrow> string) \<Rightarrow> 'c system \<Rightarrow> 'c system \<Rightarrow> bool"
  for oob :: f2i and other :: "goval \<Rightarrow> string" where
  up: "\<not> linked w \<Longrightarrow> connectionID (service w) \<noteq> - 1 \<Longrightarrow> connection_up (service w) = (i, m) \<Longrightarrow>
    mqtt_step oob other w (w\<lparr>service := m, linked := True, setups := (i, c, Adopting) # setups w\<rparr>)"
| down: "linked w \<Longrightarrow> connectionID (service w) \<noteq> - 1 \<Longrightarrow>
    onConnectionLost polling_commands (service w, poller w) = (m, p) \<Longrightarrow>
    mqtt_step oob other w (w\<lparr>service := m, poller := p, linked := False\<rparr>)"
| adopt: "setups w = us @ (i, c, Adopting) # vs \<Longrightarrow> adopt_client c i (service w) = (b, m) \<Longrightarrow>
    mqtt_step oob other w (w\<lparr>service := m, setups := us @ (if b then [(i, c, Subscribing)] else []) @ vs\<rparr>)"
| give_up: "setups w = us @ (i, c, Subscribing) # vs \<Longrightarrow> i \<noteq> connectionID (service w) \<Longrightarrow>
    mqtt_step oob other w (w\<lparr>setups := us @ vs\<rparr>)"
| subscribed: "setups w = us @ (i, c, Subscribing) # vs \<Longrightarrow>
    mqtt_step oob other w (w\<lparr>setups := us @ (i, c, Finishing) # vs\<rparr>)"
| finish: "setups w = us @ (i, c, Finishing) # vs \<Longrightarrow>
    finish_connect polling_commands i (service w, poller w) = (b, m, p) \<Longrightarrow>
    mqtt_step oob other w
      (w\<lparr>service := m, poller := p, setups := us @ (if b then [(i, c, Requesting)] else []) @ vs\<rparr>)"
| request: "setups w = us @ (i, c, Requesting) # vs \<Longrightarrow>
    mqtt_step oob other w (w\<lparr>service := note_updates (service w), setups := us @ (i, c, Signalling) # vs\<rparr>)"
| set_up: "setups w = us @ (i, c, Signalling) # vs \<Longrightarrow>
    mqtt_step oob other w (w\<lparr>service := signalUpdatePublisher (service w), setups := us @ vs\<rparr>)"
| status: "mqtt_step oob other w (w\<lparr>service := note_status reading (service w), callers := Suc (callers w)\<rparr>)"
| config: "mqtt_step oob other w (w\<lparr>service := note_config reading (service w), callers := Suc (callers w)\<rparr>)"
| signal: "callers w = Suc n \<Longrightarrow>
    mqtt_step oob other w (w\<lparr>service := signalUpdatePublisher (service w), callers := n\<rparr>)"
| availability_changed: "mqtt_step oob other w (w\<lparr>service := InverterAvailabilityChanged available (service w)\<rparr>)"
| message: "handleCommand oob polling_commands (service w) topic payload (poller w) = (r, p) \<Longrightarrow>
    mqtt_step oob other w (w\<lparr>poller := p\<rparr>)"
| polls: "pollingEnabled p = pollingEnabled (poller w) \<Longrightarrow> mqtt_step oob other w (w\<lparr>poller := p\<rparr>)"
| decides: "publisher_at w = Deciding \<Longrightarrow> decide_step (service w) = (b, m) \<Longrightarrow>
    mqtt_step oob other w (w\<lparr>service := m, publisher_at := (if b then Taking else Waiting)\<rparr>)"
| takes: "publisher_at w = Taking \<Longrightarrow> take_step (service w) = (r, m) \<Longrightarrow>
    mqtt_step oob other w (w\<lparr>service := m, publisher_at := (case r of None \<Rightarrow> Deciding | Some t \<Rightarrow> Sending t)\<rparr>)"
| sends: "publisher_at w = Sending t \<Longrightarrow>
    mqtt_step oob other w (w\<lparr>service := send_taken other t (service w), publisher_at := Sent t, batches := t # batches w\<rparr>)"
| readies: "publisher_at w = Sent t \<Longrightarrow>
    ready_step (tk_connection t) (tk_config t \<noteq> None) (tk_status t \<noteq> None) (service w) = (r, m) \<Longrightarrow>
    mqtt_step oob other w (w\<lparr>service := m,
      publisher_at := (case r of None \<Rightarrow> Deciding | Some (d, on) \<Rightarrow> Announcing (tk_connection t) d on)\<rparr>)"
| announces: "publisher_at w = Announcing i d on \<Longrightarrow>
    mqtt_step oob other w (w\<lparr>service := announce oob d on (service w), publisher_at := Deciding\<rparr>)"
| wakes: "publisher_at w = Waiting \<Longrightarrow> updateWake (service w) \<Longrightarrow>
    mqtt_step oob other w (w\<lparr>service := (service w)\<lparr>updateWake := False\<rparr>, publisher_at := Deciding\<rparr>)"
| stops: "publisher_at w = Waiting \<Longrightarrow> mqtt_step oob other w (w\<lparr>publisher_at := Stopped\<rparr>)"

definition system_start :: "f2i \<Rightarrow> MQTTConfig \<Rightarrow> 'c option \<Rightarrow> polling \<Rightarrow> 'c system" where
  "system_start oob config c p =
     \<lparr>service = (NewMQTTService oob config)\<lparr>mqtt_client := c\<rparr>, poller = p, publisher_at = Deciding,
      setups = [], callers = 0, linked = False, batches = []\<rparr>"


section \<open>What no step breaks\<close>

definition update_due :: "'c mqtt \<Rightarrow> bool" where
  "update_due m \<longleftrightarrow> updatesPending m \<or> statusDirty m \<or> configDirty m"

definition wake_coming :: "'c system \<Rightarrow> bool" where
  "wake_coming w \<longleftrightarrow> updateWake (service w) \<or> 0 < callers w \<or> (\<exists>i c. (i, c, Signalling) \<in> set (setups w))"

definition config_sent :: "taken list \<Rightarrow> 64 word \<Rightarrow> bool" where
  "config_sent ts i \<longleftrightarrow> (\<exists>t \<in> set ts. tk_connection t = i \<and> tk_config t \<noteq> None)"

definition status_sent :: "taken list \<Rightarrow> 64 word \<Rightarrow> bool" where
  "status_sent ts i \<longleftrightarrow> (\<exists>t \<in> set ts. tk_connection t = i \<and> tk_status t \<noteq> None)"

lemma sent_intros [intro]:
  "t \<in> set ts \<Longrightarrow> tk_connection t = i \<Longrightarrow> tk_config t = Some y \<Longrightarrow> config_sent ts i"
  "t \<in> set ts \<Longrightarrow> tk_connection t = i \<Longrightarrow> tk_status t = Some y \<Longrightarrow> status_sent ts i"
  "config_sent ts i \<Longrightarrow> config_sent (t # ts) i"
  "status_sent ts i \<Longrightarrow> status_sent (t # ts) i"
  by (auto simp: config_sent_def status_sent_def)

text \<open>The switch follows the connection.\<close>

definition switched :: "'c system \<Rightarrow> bool" where
  "switched w \<longleftrightarrow> pollingEnabled (poller w) = connected (service w)"

text \<open>Every connection that is being set up is the current one or is past.\<close>

definition numbered :: "'c system \<Rightarrow> bool" where
  "numbered w \<longleftrightarrow>
     (\<forall>x \<in> set (setups w). fst x \<le> connectionID (service w) \<and> (\<not> linked w \<longrightarrow> fst x \<noteq> connectionID (service w))) \<and>
     (connected (service w) \<longrightarrow> linked w)"

text \<open>What is known of the readings sent holds of the current connection.\<close>

definition flags_connected :: "'c mqtt \<Rightarrow> bool" where
  "flags_connected m \<longleftrightarrow> (initialConfigPublished m \<or> initialStatusPublished m \<or> onlinePublished m \<longrightarrow> connected m)"

definition flags_backed :: "'c system \<Rightarrow> bool" where
  "flags_backed w \<longleftrightarrow>
     (initialConfigPublished (service w) \<longrightarrow> config_sent (batches w) (connectionID (service w))) \<and>
     (initialStatusPublished (service w) \<longrightarrow> status_sent (batches w) (connectionID (service w)))"

fun publisher_backed :: "taken list \<Rightarrow> publisher \<Rightarrow> bool" where
  "publisher_backed ts (Sent t) = (t \<in> set ts)"
| "publisher_backed ts (Announcing i _ _) = (config_sent ts i \<and> status_sent ts i)"
| "publisher_backed _ _ = True"

definition awake :: "'c system \<Rightarrow> bool" where
  "awake w \<longleftrightarrow> (publisher_at w = Waiting \<and> update_due (service w) \<longrightarrow> wake_coming w)"

text \<open>What publishing leaves alone.\<close>

definition control where
  "control m = (connected m, connectionID m, (initialConfigPublished m, initialStatusPublished m, onlinePublished m),
     (updatesPending m, statusDirty m, configDirty m), updateWake m)"

lemma control_publish [simp]: "control (publish topic payload retain m) = control m"
  by (simp add: control_def publish_def split: option.splits)

lemma control_fold:
  "(\<And>x m. control (f x m) = control m) \<Longrightarrow> control (fold f xs m) = control m"
  by (induction xs arbitrary: m) simp_all

lemma control_updates [simp]:
  "control (updateBatteryType battery m) = control m"
  "control (m\<lparr>lastPublishedConfig := c\<rparr>) = control m"
  by (simp_all add: updateBatteryType_def control_def)

lemma control_status [simp]: "control (publishStatus other vs m) = control m"
  unfolding publishStatus_def by (rule control_fold) (simp split: prod.splits)

lemma control_config [simp]: "control (publishConfig other vs m) = control m"
proof -
  have "control (fold (\<lambda>(key, v) m. publish (publish_topic (configTopics m) (base m) ''config'' key)
      (Bytes (mqttValue other v)) True m) vs m) = control m"
    by (rule control_fold) (simp split: prod.splits)
  then show ?thesis by (simp add: publishConfig_def Let_def split: option.splits goval.splits)
qed

lemma control_send [simp]: "control (send_taken other t m) = control m"
  by (simp add: send_taken_def Let_def split: option.splits)

lemma control_announce [simp]: "control (announce oob d on m) = control m"
  by (simp add: announce_def publishDeviceDiscovery_def publishDiscoveryPayload_def Let_def)

lemma control_eq:
  "control m = control m' \<longleftrightarrow> connected m = connected m' \<and> connectionID m = connectionID m' \<and>
     initialConfigPublished m = initialConfigPublished m' \<and> initialStatusPublished m = initialStatusPublished m' \<and>
     onlinePublished m = onlinePublished m' \<and> updatesPending m = updatesPending m' \<and> statusDirty m = statusDirty m' \<and>
     configDirty m = configDirty m' \<and> updateWake m = updateWake m'"
  by (simp add: control_def)

lemmas sent_control = control_send [unfolded control_eq] control_announce [unfolded control_eq]

lemma control_availability:
  "control (InverterAvailabilityChanged available m) = control (m\<lparr>onlinePublished := available \<and> connected m\<rparr>)"
  by (simp add: InverterAvailabilityChanged_def Let_def)

lemmas availability_control = control_availability [unfolded control_eq, simplified]

lemmas service_steps = connection_up_def onConnectionLost_def adopt_client_def finish_connect_def note_status_def
  note_config_def note_updates_def signalUpdatePublisher_def decide_step_def take_step_def ready_step_def

lemma next_identity:
  fixes i :: "64 word"
  assumes "i \<noteq> - 1"
  shows "j \<le> i \<Longrightarrow> j \<le> i + 1" and "j \<le> i \<Longrightarrow> j \<noteq> i + 1"
proof -
  have "1 + i \<noteq> 0" using assms by (metis add.commute add_eq_0_iff)
  from unatSuc [OF this] have "i < i + 1" by (simp add: word_less_nat_alt add.commute)
  then show "j \<le> i \<Longrightarrow> j \<le> i + 1" "j \<le> i \<Longrightarrow> j \<noteq> i + 1" by auto
qed

lemma step_switched: "mqtt_step oob other w w' \<Longrightarrow> switched w \<Longrightarrow> switched w'"
proof (induction rule: mqtt_step.induct)
  case (down w m p)
  then show ?case by (auto simp: switched_def dest: switch.lost_agrees)
next
  case (finish w us i c vs b m p)
  then show ?case using switch.finish_agrees by (simp add: switched_def)
next
  case (message w topic payload r p)
  then show ?case by (auto simp: switched_def dest: switch.message_keeps)
qed (auto simp: switched_def service_steps sent_control availability_control Let_def split: if_splits)

lemma step_numbered: "mqtt_step oob other w w' \<Longrightarrow> numbered w \<Longrightarrow> numbered w'"
proof (induction rule: mqtt_step.induct)
  case (down w m p)
  have "fst x \<le> connectionID (service w) + 1 \<and> fst x \<noteq> connectionID (service w) + 1" if "x \<in> set (setups w)" for x
    using down that next_identity [OF down(2), of "fst x"] by (simp add: numbered_def)
  with down show ?case by (auto simp: numbered_def onConnectionLost_def)
qed (auto simp: numbered_def service_steps sent_control availability_control Let_def next_identity split: if_splits)

lemma step_flags_connected:
  "mqtt_step oob other w w' \<Longrightarrow> flags_connected (service w) \<Longrightarrow> flags_connected (service w')"
  by (induction rule: mqtt_step.induct)
    (auto simp: flags_connected_def service_steps sent_control availability_control Let_def split: if_splits)

lemma step_flags_backed:
  assumes "mqtt_step oob other w w'" and "numbered w" and "flags_connected (service w)"
    and "flags_backed w" and "publisher_backed (batches w) (publisher_at w)"
  shows "flags_backed w'"
  using assms
proof (induction rule: mqtt_step.induct)
  case (readies w t r m)
  then show ?case
    by (auto simp: flags_backed_def ready_step_def Let_def split: if_splits)
qed (auto simp: flags_backed_def numbered_def flags_connected_def service_steps sent_control
    availability_control Let_def split: if_splits)

lemma step_publisher_backed:
  assumes "mqtt_step oob other w w'" and "flags_backed w" and "publisher_backed (batches w) (publisher_at w)"
  shows "publisher_backed (batches w') (publisher_at w')"
  using assms
proof (induction rule: mqtt_step.induct)
  case (readies w t r m)
  then show ?case
    by (auto simp: flags_backed_def ready_step_def Let_def split: if_splits)
qed (auto split: option.splits)

lemma step_awake: "mqtt_step oob other w w' \<Longrightarrow> awake w \<Longrightarrow> awake w'"
  by (induction rule: mqtt_step.induct)
    (auto simp: awake_def wake_coming_def update_due_def service_steps sent_control availability_control Let_def
      split: if_splits option.splits)


definition healthy :: "'c system \<Rightarrow> bool" where
  "healthy w \<longleftrightarrow> switched w \<and> numbered w \<and> flags_connected (service w) \<and> flags_backed w \<and>
     publisher_backed (batches w) (publisher_at w) \<and> awake w"

lemma healthy_start: "\<not> pollingEnabled p \<Longrightarrow> healthy (system_start oob config c p)"
  by (simp add: healthy_def system_start_def NewMQTTService_def Let_def switched_def numbered_def flags_connected_def
      flags_backed_def awake_def)

lemma step_healthy:
  assumes "mqtt_step oob other v w" and "healthy v"
  shows "healthy w"
proof -
  note step = assms(1) and parts = assms(2) [unfolded healthy_def]
  show ?thesis
    unfolding healthy_def
    by (intro conjI step_switched [OF step] step_numbered [OF step] step_flags_connected [OF step] step_flags_backed [OF step]
        step_publisher_backed [OF step] step_awake [OF step]) (simp_all only: parts)
qed

lemma reachable_healthy:
  assumes "\<not> pollingEnabled p" and "(mqtt_step oob other)\<^sup>*\<^sup>* (system_start oob config c p) w"
  shows "healthy w"
  using assms(2)
proof (induction rule: rtranclp_induct)
  case (step v w)
  from step_healthy [OF step(2,3)] show ?case .
qed (rule healthy_start [OF assms(1)])

section \<open>The steps left alone\<close>

text \<open>The steps of the publisher, one after another, are a turn of \<open>Run\<close>.\<close>

abbreviation reaches :: "f2i \<Rightarrow> (goval \<Rightarrow> string) \<Rightarrow> 'c system \<Rightarrow> 'c mqtt \<Rightarrow> publisher \<Rightarrow> bool" where
  "reaches oob other w m pos \<equiv> \<exists>w'. (mqtt_step oob other)\<^sup>*\<^sup>* w w' \<and> service w' = m \<and> publisher_at w' = pos"

lemma reaches_step: "mqtt_step oob other v w \<Longrightarrow> reaches oob other w m pos \<Longrightarrow> reaches oob other v m pos"
  using converse_rtranclp_into_rtranclp [where r = "mqtt_step oob other"] by fast

lemma reaches_self: "service w = m \<Longrightarrow> publisher_at w = pos \<Longrightarrow> reaches oob other w m pos"
  by blast

lemma turn_announces:
  assumes "publisher_at w = Announcing i d on"
  shows "reaches oob other w (announce oob d on (service w)) Deciding"
  by (rule reaches_step [OF announces [OF assms]]) (rule reaches_self, simp_all)

lemma turn_readies:
  assumes "publisher_at w = Sent t"
  shows "reaches oob other w
    (publishReadyAfterInitialState oob (tk_connection t) (tk_config t \<noteq> None) (tk_status t \<noteq> None) (service w)) Deciding"
proof -
  obtain r m where rd: "ready_step (tk_connection t) (tk_config t \<noteq> None) (tk_status t \<noteq> None) (service w) = (r, m)"
    by (meson surj_pair)
  note step = readies [OF assms rd, of oob other]
  show ?thesis
  proof (cases r)
    case None
    with rd show ?thesis
      unfolding publishReadyAfterInitialState_def by (intro reaches_step [OF step] reaches_self) simp_all
  next
    case (Some a)
    obtain d on where a: "a = (d, on)" by (cases a)
    let ?w = "w\<lparr>service := m, publisher_at := Announcing (tk_connection t) d on\<rparr>"
    have "mqtt_step oob other w ?w" using step by (simp add: Some a)
    from reaches_step [OF this turn_announces [of ?w]] show ?thesis
      unfolding publishReadyAfterInitialState_def rd by (simp add: Some a)
  qed
qed

lemma turn_takes:
  assumes "publisher_at w = Taking"
  shows "reaches oob other w (publishUpdates oob other (service w)) Deciding"
proof -
  obtain r m where tk: "take_step (service w) = (r, m)" by (meson surj_pair)
  note step = takes [OF assms tk, of oob other]
  show ?thesis
  proof (cases r)
    case None
    with tk show ?thesis unfolding publishUpdates_def by (intro reaches_step [OF step] reaches_self) simp_all
  next
    case (Some t)
    let ?v = "w\<lparr>service := m, publisher_at := Sending t\<rparr>"
    let ?w = "?v\<lparr>service := send_taken other t (service ?v), publisher_at := Sent t, batches := t # batches ?v\<rparr>"
    have "mqtt_step oob other w ?v" using step by (simp add: Some)
    moreover have "mqtt_step oob other ?v ?w" by (rule sends) simp
    ultimately show ?thesis
      using reaches_step [OF _ reaches_step [OF _ turn_readies [of ?w t]]] by (simp add: publishUpdates_def tk Some)
  qed
qed

lemma undisturbed_turn:
  assumes "publisher_at w = Deciding"
  shows "reaches oob other w (snd (mqtt_runPending oob other (service w)))
    (if fst (mqtt_runPending oob other (service w)) then Deciding else Waiting)"
proof -
  obtain b m where d: "decide_step (service w) = (b, m)" by (meson surj_pair)
  note step = decides [OF assms d, of oob other]
  show ?thesis
  proof (cases b)
    case False
    with d show ?thesis unfolding mqtt_runPending_def by (intro reaches_step [OF step] reaches_self) simp_all
  next
    case True
    let ?w = "w\<lparr>service := m, publisher_at := Taking\<rparr>"
    have "mqtt_step oob other w ?w" using step by (simp add: True)
    from reaches_step [OF this turn_takes [of ?w]] show ?thesis by (simp add: mqtt_runPending_def d True)
  qed
qed


section \<open>Properties\<close>

text \<open>C4: in every interleaving, the polling service
  is enabled exactly while the MQTT service is connected, which it is only on a connection
  of the library; without one it holds neither reading for published and has not said
  \<open>online\<close>.\<close>

theorem polling_follows_the_connection:
  assumes "\<not> pollingEnabled p" and "(mqtt_step oob other)\<^sup>*\<^sup>* (system_start oob config c p) w"
  shows "pollingEnabled (poller w) = connected (service w) \<and> (connected (service w) \<longrightarrow> linked w) \<and>
    (initialConfigPublished (service w) \<or> initialStatusPublished (service w) \<or> onlinePublished (service w) \<longrightarrow>
      connected (service w))"
  using reachable_healthy [OF assms]
  by (simp add: healthy_def switched_def numbered_def flags_connected_def)

text \<open>C15: when the publisher waits in its select while there is
  something to publish, the token that wakes it is there or a goroutine is about to put it
  there.\<close>

theorem no_update_is_stranded:
  assumes "\<not> pollingEnabled p" and "(mqtt_step oob other)\<^sup>*\<^sup>* (system_start oob config c p) w"
    and "publisher_at w = Waiting"
    and "updatesPending (service w) \<or> statusDirty (service w) \<or> configDirty (service w)"
  shows "updateWake (service w) \<or> 0 < callers w \<or> (\<exists>i c. (i, c, Signalling) \<in> set (setups w))"
  using reachable_healthy [OF assms(1,2)] assms(3,4)
  by (auto simp: healthy_def awake_def wake_coming_def update_due_def)

text \<open>C10: when the publisher goes to announce a
  connection, it has sent a configuration and a status that were both taken on that same
  connection, whatever was lost and set up again in between.\<close>

theorem online_follows_the_first_readings:
  assumes "\<not> pollingEnabled p" and "(mqtt_step oob other)\<^sup>*\<^sup>* (system_start oob config c p) w"
    and "publisher_at w = Announcing i d on"
  shows "(\<exists>t \<in> set (batches w). tk_connection t = i \<and> tk_config t \<noteq> None) \<and>
    (\<exists>t \<in> set (batches w). tk_connection t = i \<and> tk_status t \<noteq> None)"
  using reachable_healthy [OF assms(1,2)] assms(3)
  by (simp add: healthy_def config_sent_def status_sent_def)

section \<open>An interleaving to try them on\<close>

text \<open>A connection comes up and is set up; two empty readings arrive and are sent.\<close>

definition demo_poller :: polling where
  "demo_poller = NewPollingService \<lparr>wall = 0, monotonic = 0, zoneName = [], zoneOffset = 0\<rparr> \<lparr>ConfigInterval = 1, StatusInterval = 1\<rparr>"

definition demo_new :: "unit mqtt" where
  "demo_new = (NewMQTTService (\<lambda>_. 0) sample_config)\<lparr>mqtt_client := Some ()\<rparr>"

definition demo_connected :: "unit mqtt" where
  "demo_connected = demo_new\<lparr>connectionID := 1, mqtt_client := Some (), connected := True,
     initialConfigPublished := False, initialStatusPublished := False, onlinePublished := False\<rparr>"

definition demo_system :: "unit mqtt \<Rightarrow> polling \<Rightarrow> publisher \<Rightarrow> (64 word \<times> unit \<times> phase) list \<Rightarrow> nat \<Rightarrow> bool \<Rightarrow> taken list \<Rightarrow> unit system" where
  "demo_system m p pos ss n l ts =
     \<lparr>service = m, poller = p, publisher_at = pos, setups = ss, callers = n, linked = l, batches = ts\<rparr>"

abbreviation demo_start :: "unit system" where
  "demo_start \<equiv> system_start (\<lambda>_. 0) sample_config (Some ()) demo_poller"

abbreviation demo_step :: "unit system \<Rightarrow> unit system \<Rightarrow> bool" where
  "demo_step \<equiv> mqtt_step (\<lambda>_. 0) (\<lambda>_. [])"

lemma demo_start_eq: "demo_start = demo_system demo_new demo_poller Deciding [] 0 False []"
  by (simp add: system_start_def demo_system_def demo_new_def)

lemma demo_system_simps [simp]:
  "service (demo_system m p pos ss n l ts) = m" "poller (demo_system m p pos ss n l ts) = p"
  "publisher_at (demo_system m p pos ss n l ts) = pos" "setups (demo_system m p pos ss n l ts) = ss"
  "callers (demo_system m p pos ss n l ts) = n" "linked (demo_system m p pos ss n l ts) = l"
  "batches (demo_system m p pos ss n l ts) = ts"
  "demo_system m p pos ss n l ts\<lparr>service := m'\<rparr> = demo_system m' p pos ss n l ts"
  "demo_system m p pos ss n l ts\<lparr>poller := p'\<rparr> = demo_system m p' pos ss n l ts"
  "demo_system m p pos ss n l ts\<lparr>publisher_at := pos'\<rparr> = demo_system m p pos' ss n l ts"
  "demo_system m p pos ss n l ts\<lparr>setups := ss'\<rparr> = demo_system m p pos ss' n l ts"
  "demo_system m p pos ss n l ts\<lparr>callers := n'\<rparr> = demo_system m p pos ss n' l ts"
  "demo_system m p pos ss n l ts\<lparr>linked := l'\<rparr> = demo_system m p pos ss n l' ts"
  "demo_system m p pos ss n l ts\<lparr>batches := ts'\<rparr> = demo_system m p pos ss n l ts'"
  by (simp_all add: demo_system_def)

lemma demo_disabled: "\<not> pollingEnabled demo_poller"
  by (simp add: demo_poller_def NewPollingService_def)

lemma demo_new_id: "connectionID demo_new = 0"
  by (simp add: demo_new_def NewMQTTService_def Let_def)

lemma demo_connects:
  "demo_step\<^sup>*\<^sup>* demo_start
     (demo_system demo_connected (SetPollingEnabled True demo_poller) Deciding [(1, (), Requesting)] 0 True [])"
proof -
  let ?m = "demo_new\<lparr>connectionID := 1\<rparr>" and ?c = "demo_new\<lparr>connectionID := 1, mqtt_client := Some ()\<rparr>"
  have "demo_step (demo_system demo_new demo_poller Deciding [] 0 False [])
      (demo_system ?m demo_poller Deciding [(1, (), Adopting)] 0 True [])"
    using up [of "demo_system demo_new demo_poller Deciding [] 0 False []" 1 ?m "(\<lambda>_. 0)" "\<lambda>_. []" "()"]
    by (simp add: connection_up_def Let_def demo_new_id)
  moreover have "demo_step (demo_system ?m demo_poller Deciding [(1, (), Adopting)] 0 True [])
      (demo_system ?c demo_poller Deciding [(1, (), Subscribing)] 0 True [])"
    using adopt [of "demo_system ?m demo_poller Deciding [(1, (), Adopting)] 0 True []" "[]" 1 "()" "[]" True ?c]
    by (simp add: adopt_client_def)
  moreover have "demo_step (demo_system ?c demo_poller Deciding [(1, (), Subscribing)] 0 True [])
      (demo_system ?c demo_poller Deciding [(1, (), Finishing)] 0 True [])"
    using subscribed [of "demo_system ?c demo_poller Deciding [(1, (), Subscribing)] 0 True []" "[]" 1 "()" "[]"] by simp
  moreover have "demo_step (demo_system ?c demo_poller Deciding [(1, (), Finishing)] 0 True [])
      (demo_system demo_connected (SetPollingEnabled True demo_poller) Deciding [(1, (), Requesting)] 0 True [])"
    using finish [of "demo_system ?c demo_poller Deciding [(1, (), Finishing)] 0 True []" "[]" 1 "()" "[]" True demo_connected
        "SetPollingEnabled True demo_poller"]
    by (simp add: finish_connect_def demo_connected_def polling_commands_def)
  ultimately show ?thesis unfolding demo_start_eq by (meson rtranclp.rtrancl_into_rtrancl rtranclp.rtrancl_refl)
qed


theorem polling_follows_the_connection_witness:
  "pollingEnabled (SetPollingEnabled True demo_poller) = connected demo_connected \<and> connected demo_connected"
  using polling_follows_the_connection [OF demo_disabled demo_connects] by (simp add: demo_connected_def)

text \<open>The publisher waits when a status arrives.\<close>

definition demo_late :: "unit mqtt" where
  "demo_late = signalUpdatePublisher (note_status [] demo_new)"

lemma demo_waits: "demo_step\<^sup>*\<^sup>* demo_start (demo_system demo_late demo_poller Waiting [] 0 False [])"
proof -
  let ?w = "demo_system demo_new demo_poller Deciding [] 0 False []"
  have "decide_step demo_new = (False, demo_new)"
    by (simp add: decide_step_def demo_new_def NewMQTTService_def Let_def)
  then have "demo_step ?w (demo_system demo_new demo_poller Waiting [] 0 False [])"
    using decides [of ?w False demo_new "\<lambda>_. 0" "\<lambda>_. []"] by simp
  moreover have "demo_step (demo_system demo_new demo_poller Waiting [] 0 False [])
      (demo_system (note_status [] demo_new) demo_poller Waiting [] 1 False [])"
    using status [of "\<lambda>_. 0" "\<lambda>_. []" "demo_system demo_new demo_poller Waiting [] 0 False []" "[]"] by simp
  moreover have "demo_step (demo_system (note_status [] demo_new) demo_poller Waiting [] 1 False [])
      (demo_system demo_late demo_poller Waiting [] 0 False [])"
    using signal [of "demo_system (note_status [] demo_new) demo_poller Waiting [] 1 False []" 0] by (simp add: demo_late_def)
  ultimately show ?thesis unfolding demo_start_eq by (meson rtranclp.rtrancl_into_rtrancl rtranclp.rtrancl_refl)
qed

theorem no_update_is_stranded_witness: "statusDirty demo_late \<and> updateWake demo_late"
proof -
  have "statusDirty demo_late" by (simp add: demo_late_def signalUpdatePublisher_def note_status_def)
  with no_update_is_stranded [OF demo_disabled demo_waits] show ?thesis by simp
qed

text \<open>Both readings arrive on the connection and are sent.\<close>

definition demo_batch :: taken where
  "demo_batch = \<lparr>tk_connection = 1, tk_status = Some [], tk_config = Some []\<rparr>"

lemma demo_announces:
  "\<exists>m p ss n. demo_step\<^sup>*\<^sup>* demo_start (demo_system m p (Announcing 1 False True) ss n True [demo_batch])"
proof -
  let ?m = demo_connected and ?p = "SetPollingEnabled True demo_poller" and ?ss = "[(1 :: 64 word, (), Requesting)]"
  let ?n = "note_status [] (note_config [] ?m)"
  have "demo_step (demo_system ?m ?p Deciding ?ss 0 True []) (demo_system (note_config [] ?m) ?p Deciding ?ss 1 True [])"
    using config [of "\<lambda>_. 0" "\<lambda>_. []" "demo_system ?m ?p Deciding ?ss 0 True []" "[]"] by simp
  moreover have "demo_step (demo_system (note_config [] ?m) ?p Deciding ?ss 1 True []) (demo_system ?n ?p Deciding ?ss 2 True [])"
    using status [of "\<lambda>_. 0" "\<lambda>_. []" "demo_system (note_config [] ?m) ?p Deciding ?ss 1 True []" "[]"]
    by (simp add: numeral_2_eq_2)
  moreover obtain m2 where m2: "decide_step ?n = (True, m2)" by (simp add: decide_step_def note_status_def)
  then have "demo_step (demo_system ?n ?p Deciding ?ss 2 True []) (demo_system m2 ?p Taking ?ss 2 True [])"
    using decides [of "demo_system ?n ?p Deciding ?ss 2 True []" True m2 "\<lambda>_. 0" "\<lambda>_. []"] by simp
  moreover have c2: "connected m2" "connectionID m2 = 1" "statusDirty m2" "configDirty m2" "pendingStatus m2 = []"
      "pendingConfig m2 = []" "\<not> discoveryPending m2" "\<not> onlinePublished m2"
    using m2 by (auto simp: decide_step_def note_status_def note_config_def demo_connected_def demo_new_def NewMQTTService_def Let_def)
  then obtain m3 where m3: "take_step m2 = (Some demo_batch, m3)"
      "connected m3" "connectionID m3 = 1" "\<not> discoveryPending m3" "\<not> onlinePublished m3"
    by (simp add: take_step_def demo_batch_def)
  then have "demo_step (demo_system m2 ?p Taking ?ss 2 True []) (demo_system m3 ?p (Sending demo_batch) ?ss 2 True [])"
    using takes [of "demo_system m2 ?p Taking ?ss 2 True []" "Some demo_batch" m3 "\<lambda>_. 0" "\<lambda>_. []"] by simp
  moreover let ?m4 = "send_taken (\<lambda>_. []) demo_batch m3"
  have "demo_step (demo_system m3 ?p (Sending demo_batch) ?ss 2 True []) (demo_system ?m4 ?p (Sent demo_batch) ?ss 2 True [demo_batch])"
    using sends [of "demo_system m3 ?p (Sending demo_batch) ?ss 2 True []" demo_batch "\<lambda>_. 0" "\<lambda>_. []"] by simp
  moreover have "\<not> discoveryPending ?m4"
    using m3 by (simp add: send_taken_def demo_batch_def publishStatus_def publishConfig_def Let_def)
  then obtain m5 where "ready_step 1 True True ?m4 = (Some (False, True), m5)"
    using m3 by (simp add: ready_step_def sent_control)
  then have "demo_step (demo_system ?m4 ?p (Sent demo_batch) ?ss 2 True [demo_batch])
      (demo_system m5 ?p (Announcing 1 False True) ?ss 2 True [demo_batch])"
    using readies [of "demo_system ?m4 ?p (Sent demo_batch) ?ss 2 True [demo_batch]" demo_batch "Some (False, True)" m5 "\<lambda>_. 0" "\<lambda>_. []"]
    by (simp add: demo_batch_def)
  ultimately show ?thesis using demo_connects by (meson rtranclp.rtrancl_into_rtrancl)
qed

theorem online_follows_the_first_readings_witness:
  "\<exists>w. demo_step\<^sup>*\<^sup>* demo_start w \<and> publisher_at w = Announcing 1 False True \<and>
    (\<exists>t. t \<in> set (batches w) \<and> tk_connection t = 1 \<and> tk_config t \<noteq> None)"
proof -
  from demo_announces obtain w where w: "demo_step\<^sup>*\<^sup>* demo_start w" "publisher_at w = Announcing 1 False True"
    by (metis demo_system_simps(3))
  from online_follows_the_first_readings [OF demo_disabled w] w show ?thesis by blast
qed

end
