(* ===== verification/Config.thy ===== *)
theory Config
  imports Mqtt_State Recovery
begin

text \<open>
  The configuration file (\<open>src/config.go\<close>): its schema, the readers of single settings, the
  checks on the whole, and what an accepted file guarantees to the services built from it.

  The library that parses the file is not in the repository. A loaded file is what that
  library answers: its sections in order, each with its keys and their strings.
\<close>

section \<open>The loaded file\<close>

type_synonym ini = "(string \<times> (string \<times> string) list) list"

definition GetKey :: "ini \<Rightarrow> string \<Rightarrow> string \<Rightarrow> string option" where
  "GetKey cfg section key = (case map_of cfg section of None \<Rightarrow> None | Some ks \<Rightarrow> map_of ks key)"

text \<open>\<open>Section(s).Key(k).String()\<close> is the empty string for a key that is not there.\<close>

definition key_string :: "ini \<Rightarrow> string \<Rightarrow> string \<Rightarrow> string" where
  "key_string cfg section key = (case GetKey cfg section key of None \<Rightarrow> [] | Some s \<Rightarrow> s)"

definition config_error :: "string \<Rightarrow> string \<Rightarrow> err" where
  "config_error setting problem = EMsg (MConfig setting problem)"

section \<open>Settings\<close>

datatype log_level = LevelDebug | LevelInfo | LevelWarn | LevelError

record AppConfig =
  app_Port :: string
  app_Timeout :: duration
  app_MQTT :: MQTTConfig
  app_Polling :: PollingConfig
  app_Recovery :: RecoveryConfig
  app_LogLevel :: log_level

definition config_value :: "ini \<Rightarrow> string \<Rightarrow> string \<Rightarrow> string \<Rightarrow> string" where
  "config_value cfg section key fallback =
     (let raw = trimSpace (key_string cfg section key) in if raw = [] then fallback else raw)"

text \<open>No code point beyond ASCII has a letter of these three words as its lower case.\<close>

definition optionalValue :: "ini \<Rightarrow> string \<Rightarrow> string \<Rightarrow> string" where
  "optionalValue cfg section key =
     (let raw = trimSpace (key_string cfg section key)
      in if map lower_ascii raw \<in> {[], ''none'', ''null'', ''false''} then [] else raw)"

text \<open>\<open>strconv.Atoi\<close> and \<open>strconv.ParseBool\<close>.\<close>

definition atoi :: "string \<Rightarrow> err + int" where
  "atoi s =
     (let ds = drop_sign s; n = foldl (\<lambda>a c. 10 * a + int (digit_val c)) 0 ds;
          v = (if s \<noteq> [] \<and> hd s = CHR ''-'' then - n else n)
      in if ds = [] \<or> \<not> list_all is_digit ds then Inl (EMsg (MParseSyntax s))
         else if in_int64 v then Inr v else Inl (EMsg (MParseRange s)))"

definition parse_bool :: "string \<Rightarrow> err + bool" where
  "parse_bool s =
     (if s \<in> {''1'', ''t'', ''T'', ''TRUE'', ''true'', ''True''} then Inr True
      else if s \<in> {''0'', ''f'', ''F'', ''FALSE'', ''false'', ''False''} then Inr False
      else Inl (EMsg (MParseSyntax s)))"

definition intValue :: "ini \<Rightarrow> string \<Rightarrow> string \<Rightarrow> int \<Rightarrow> err + int" where
  "intValue cfg section key fallback =
     (case GetKey cfg section key of
        None \<Rightarrow> Inr fallback
      | Some entry \<Rightarrow>
          (let raw = trimSpace entry
           in guard_err (raw = []) (config_error (section @ ''.'' @ key) ''must not be empty'')
                (case atoi raw of
                   Inl e \<Rightarrow> Inl (EWrap (''invalid '' @ section @ ''.'' @ key) e)
                 | Inr parsed \<Rightarrow> Inr parsed)))"

definition boolValue :: "ini \<Rightarrow> string \<Rightarrow> string \<Rightarrow> bool \<Rightarrow> err + bool" where
  "boolValue cfg section key fallback =
     (case GetKey cfg section key of
        None \<Rightarrow> Inr fallback
      | Some entry \<Rightarrow>
          (case parse_bool (trimSpace entry) of
             Inl e \<Rightarrow> Inl (EWrap (''invalid '' @ section @ ''.'' @ key) e)
           | Inr parsed \<Rightarrow> Inr parsed))"

text \<open>The constant \<open>float64(math.MaxInt64)/float64(time.Second)\<close> of line 328.\<close>

definition max_seconds :: float64 where
  "max_seconds = fdiv (float_of_int max_int64) (float_of_int second)"

definition seconds_duration :: "f2i \<Rightarrow> float64 \<Rightarrow> duration" where
  "seconds_duration oob s = int64_of_float oob (fmul s (float_of_int second))"

definition durationSeconds :: "f2i \<Rightarrow> ini \<Rightarrow> string \<Rightarrow> string \<Rightarrow> float64 \<Rightarrow> err + duration" where
  "durationSeconds oob cfg section key fallback =
     (case GetKey cfg section key of
        None \<Rightarrow> Inr (seconds_duration oob fallback)
      | Some entry \<Rightarrow>
          (let raw = trimSpace entry; setting = section @ ''.'' @ key
           in guard_err (raw = []) (config_error setting ''must not be empty'')
                (case parseFloat raw of
                   Inl _ \<Rightarrow> Inl (config_error setting ''must be a finite positive number'')
                 | Inr parsed \<Rightarrow>
                     guard_err (is_nan parsed \<or> is_inf parsed \<or> fle parsed (FFin 0))
                       (config_error setting ''must be a finite positive number'')
                     (guard_err (flt max_seconds parsed) (config_error setting ''is too large'')
                       (Inr (seconds_duration oob parsed))))))"

section \<open>The schema\<close>

definition configSchema :: "(string \<times> string list) list" where
  "configSchema =
     [(''MODBUS'', [''PORT'', ''TIMEOUT_SEC'']),
      (''MQTT'', [''HOST'', ''PORT'', ''USER'', ''PASSWORD'', ''TLS_ENABLED'', ''TLS_CA_FILE'', ''TLS_CERT_FILE'',
        ''TLS_KEY_FILE'', ''TLS_SERVER_NAME'', ''CLIENT_ID'', ''KEEPALIVE_SEC'', ''WILL_DELAY_SEC'',
        ''OPERATION_TIMEOUT_SEC'', ''DISCONNECT_TIMEOUT_SEC'', ''TOPIC_PREFIX'', ''HA_DISCOVERY_PREFIX'',
        ''HA_DEVICE_ID'', ''HA_DEVICE_NAME'']),
      (''POLLING'', [''CONFIG_INTERVAL_SEC'', ''STATUS_INTERVAL_SEC'']),
      (''RECOVERY'', [''RECONNECT_ATTEMPTS'', ''INITIAL_BACKOFF_SEC'', ''MAX_BACKOFF_SEC'', ''RESET_COOLDOWN_SEC'']),
      (''LOGGING'', [''LEVEL''])]"

fun check_keys :: "string \<Rightarrow> string list \<Rightarrow> string list \<Rightarrow> err + unit" where
  "check_keys section allowed [] = Inr ()"
| "check_keys section allowed (key # keys) =
     guard_err (key \<notin> set allowed) (config_error (section @ ''.'' @ key) ''unknown configuration key'')
       (check_keys section allowed keys)"

fun check_sections :: "ini \<Rightarrow> err + unit" where
  "check_sections [] = Inr ()"
| "check_sections ((name, ks) # rest) =
     (if name = ''DEFAULT'' then
        guard_err (ks \<noteq> []) (config_error name ''keys must be inside a named section'') (check_sections rest)
      else
        (case map_of configSchema name of
           None \<Rightarrow> Inl (config_error name ''unknown configuration section'')
         | Some allowed \<Rightarrow>
             and_then (check_keys name allowed (map fst ks)) (\<lambda>_. check_sections rest)))"

definition validateConfigSchema :: "ini \<Rightarrow> err + unit" where
  "validateConfigSchema cfg = check_sections cfg"

fun check_explicit :: "ini \<Rightarrow> (string \<times> string) list \<Rightarrow> err + unit" where
  "check_explicit cfg [] = Inr ()"
| "check_explicit cfg ((section, key) # rest) =
     guard_err (GetKey cfg section key \<noteq> None \<and> trimSpace (key_string cfg section key) = [])
       (config_error (section @ ''.'' @ key) ''must not be empty'') (check_explicit cfg rest)"

fun check_prefixes :: "ini \<Rightarrow> string list \<Rightarrow> err + unit" where
  "check_prefixes cfg [] = Inr ()"
| "check_prefixes cfg (key # rest) =
     guard_err (GetKey cfg ''MQTT'' key \<noteq> None \<and> trimByte (CHR ''/'') (trimSpace (key_string cfg ''MQTT'' key)) = [])
       (config_error (''MQTT.'' @ key) ''must contain a topic name'') (check_prefixes cfg rest)"

definition validateExplicitValues :: "ini \<Rightarrow> err + unit" where
  "validateExplicitValues cfg =
     and_then
       (check_explicit cfg
         [(''MODBUS'', ''PORT''), (''MQTT'', ''HOST''), (''MQTT'', ''CLIENT_ID''), (''MQTT'', ''TOPIC_PREFIX''),
          (''MQTT'', ''HA_DISCOVERY_PREFIX''), (''MQTT'', ''HA_DEVICE_ID''), (''MQTT'', ''HA_DEVICE_NAME''),
          (''LOGGING'', ''LEVEL'')])
       (\<lambda>_. check_prefixes cfg [''TOPIC_PREFIX'', ''HA_DISCOVERY_PREFIX''])"

section \<open>Names and topics\<close>

text \<open>The characters that are refused are ASCII, so runes and bytes agree on them.\<close>

definition bad_character :: "bool \<Rightarrow> char \<Rightarrow> bool" where
  "bad_character pathSafe c \<longleftrightarrow>
     of_char c < (0x20 :: nat) \<or> of_char c = (0x7f :: nat) \<or> c = CHR ''+'' \<or> c = CHR ''#'' \<or> pathSafe \<and> c = CHR ''/''"

definition validateMQTTIdentifier :: "string \<Rightarrow> string \<Rightarrow> bool \<Rightarrow> err + unit" where
  "validateMQTTIdentifier name v pathSafe =
     guard_err (v = []) (config_error name ''must not be empty'')
       (guard_err (list_ex (bad_character pathSafe) v) (config_error name ''contains an invalid character'') (Inr ()))"

definition validateMQTTTopic :: "string \<Rightarrow> string \<Rightarrow> err + unit" where
  "validateMQTTTopic name topic =
     guard_err (topic = []) (config_error name ''must not be empty'')
       (guard_err (list_ex (bad_character False) topic)
         (config_error name ''must be a valid MQTT topic without wildcards'') (Inr ()))"

definition normalizeTopic :: "string \<Rightarrow> string \<Rightarrow> string" where
  "normalizeTopic topic fallback =
     (let trimmed = trimByte (CHR ''/'') topic in if trimmed = [] then fallback else trimmed)"

text \<open>
  \<open>strings.ToUpper(s) = t\<close> for an upper-case ASCII \<open>t\<close>: two code points beyond ASCII have an
  ASCII letter as their upper case, U+0131 (\<open>I\<close>) and U+017F (\<open>S\<close>).
\<close>

definition upper_ascii :: "char \<Rightarrow> char" where
  "upper_ascii c = (if is_lower c then char_of (of_char c - (32 :: nat)) else c)"

fun upper_is :: "string \<Rightarrow> string \<Rightarrow> bool" where
  "upper_is s [] = (s = [])"
| "upper_is s (c # t) =
     (if s \<noteq> [] \<and> upper_ascii (hd s) = c then upper_is (tl s) t
      else if c = CHR ''I'' \<and> hasPrefix s [CHR 0xC4, CHR 0xB1] then upper_is (drop 2 s) t
      else if c = CHR ''S'' \<and> hasPrefix s [CHR 0xC5, CHR 0xBF] then upper_is (drop 2 s) t
      else False)"

definition parseLogLevel :: "string \<Rightarrow> err + log_level" where
  "parseLogLevel raw =
     (let s = trimSpace raw
      in if upper_is s ''DEBUG'' then Inr LevelDebug
         else if upper_is s ''INFO'' then Inr LevelInfo
         else if upper_is s ''WARN'' \<or> upper_is s ''WARNING'' then Inr LevelWarn
         else if upper_is s ''ERROR'' then Inr LevelError
         else Inl (EMsg (MLogLevel raw)))"


section \<open>The whole file\<close>

text \<open>Lines 112 to 207: the settings as they are read, in the order of the code.\<close>

definition read_settings :: "f2i \<Rightarrow> ini \<Rightarrow> err + AppConfig" where
  "read_settings oob cfg =
     (let port = trimSpace (key_string cfg ''MODBUS'' ''PORT''); seconds = durationSeconds oob cfg
      in guard_err (port = []) (config_error ''MODBUS.PORT'' ''is required'')
        (and_then (seconds ''MODBUS'' ''TIMEOUT_SEC'' (FFin (3 / 2))) (\<lambda>modbusTimeout.
         and_then (intValue cfg ''MQTT'' ''PORT'' 1883) (\<lambda>mqttPort.
         and_then (boolValue cfg ''MQTT'' ''TLS_ENABLED'' False) (\<lambda>tlsEnabled.
         and_then (seconds ''MQTT'' ''KEEPALIVE_SEC'' (FFin 60)) (\<lambda>keepalive.
         and_then (seconds ''MQTT'' ''WILL_DELAY_SEC'' (FFin 300)) (\<lambda>willDelay.
         and_then (seconds ''MQTT'' ''OPERATION_TIMEOUT_SEC'' (FFin 10)) (\<lambda>operationTimeout.
         and_then (seconds ''MQTT'' ''DISCONNECT_TIMEOUT_SEC'' (FFin 5)) (\<lambda>disconnectTimeout.
         and_then (seconds ''POLLING'' ''CONFIG_INTERVAL_SEC'' (FFin 600)) (\<lambda>configInterval.
         and_then (seconds ''POLLING'' ''STATUS_INTERVAL_SEC'' (FFin 2)) (\<lambda>statusInterval.
         and_then (intValue cfg ''RECOVERY'' ''RECONNECT_ATTEMPTS'' 3) (\<lambda>reconnectAttempts.
         and_then (seconds ''RECOVERY'' ''INITIAL_BACKOFF_SEC'' (FFin 1)) (\<lambda>initialBackoff.
         and_then (seconds ''RECOVERY'' ''MAX_BACKOFF_SEC'' (FFin 10)) (\<lambda>maxBackoff.
         and_then (seconds ''RECOVERY'' ''RESET_COOLDOWN_SEC'' (FFin 300)) (\<lambda>resetCooldown.
           let haDeviceID = config_value cfg ''MQTT'' ''HA_DEVICE_ID'' ''growatt_spf5000es''
           in Inr
             \<lparr>app_Port = port, app_Timeout = modbusTimeout,
              app_MQTT =
                \<lparr>mq_Host = config_value cfg ''MQTT'' ''HOST'' ''localhost'', mq_Port = mqttPort,
                 mq_Username = optionalValue cfg ''MQTT'' ''USER'', mq_Password = optionalValue cfg ''MQTT'' ''PASSWORD'',
                 mq_TLSEnabled = tlsEnabled, mq_TLSCAFile = optionalValue cfg ''MQTT'' ''TLS_CA_FILE'',
                 mq_TLSCertFile = optionalValue cfg ''MQTT'' ''TLS_CERT_FILE'',
                 mq_TLSKeyFile = optionalValue cfg ''MQTT'' ''TLS_KEY_FILE'',
                 mq_TLSServerName = optionalValue cfg ''MQTT'' ''TLS_SERVER_NAME'',
                 mq_ClientID = config_value cfg ''MQTT'' ''CLIENT_ID'' haDeviceID,
                 mq_Keepalive = keepalive, mq_WillDelay = willDelay,
                 mq_OperationTimeout = operationTimeout, mq_DisconnectTimeout = disconnectTimeout,
                 mq_TopicPrefix = normalizeTopic (config_value cfg ''MQTT'' ''TOPIC_PREFIX'' haDeviceID) haDeviceID,
                 mq_HADiscoveryPrefix =
                   normalizeTopic (config_value cfg ''MQTT'' ''HA_DISCOVERY_PREFIX'' ''homeassistant'') ''homeassistant'',
                 mq_HADeviceID = haDeviceID,
                 mq_HADeviceName = config_value cfg ''MQTT'' ''HA_DEVICE_NAME'' ''Growatt SPF 5000 ES''\<rparr>,
              app_Polling = \<lparr>ConfigInterval = configInterval, StatusInterval = statusInterval\<rparr>,
              app_Recovery =
                \<lparr>ReconnectAttempts = reconnectAttempts, InitialBackoff = initialBackoff, MaxBackoff = maxBackoff,
                 ResetCooldown = resetCooldown\<rparr>,
              app_LogLevel = LevelInfo\<rparr>)))))))))))))))"

text \<open>
  Lines 209 to 258. The two topics are in a map, and the order in which it is ranged over is
  the runtime's: \<open>swapped\<close>.
\<close>

definition check_settings :: "bool \<Rightarrow> AppConfig \<Rightarrow> err + unit" where
  "check_settings swapped app =
     (let m = app_MQTT app; p = app_Polling app; r = app_Recovery app;
          prefix = validateMQTTTopic ''MQTT.TOPIC_PREFIX'' (mq_TopicPrefix m);
          discovery = validateMQTTTopic ''MQTT.HA_DISCOVERY_PREFIX'' (mq_HADiscoveryPrefix m)
      in guard_err (app_Timeout app < 100 * millisecond) (config_error ''MODBUS.TIMEOUT_SEC'' ''must be at least 0.1'')
        (guard_err (mq_Keepalive m < second) (config_error ''MQTT.KEEPALIVE_SEC'' ''must be at least 1'')
        (guard_err (mq_Keepalive m > 65535 * second) (config_error ''MQTT.KEEPALIVE_SEC'' ''must not exceed 65535'')
        (guard_err (mq_WillDelay m < second \<or> mq_WillDelay m > (2 ^ 32 - 2) * second)
          (config_error ''MQTT.WILL_DELAY_SEC'' ''must be between 1 and 4294967294'')
        (guard_err (mq_OperationTimeout m < 100 * millisecond)
          (config_error ''MQTT.OPERATION_TIMEOUT_SEC'' ''must be at least 0.1'')
        (guard_err (ConfigInterval p < second) (config_error ''POLLING.CONFIG_INTERVAL_SEC'' ''must be at least 1'')
        (guard_err (StatusInterval p < second) (config_error ''POLLING.STATUS_INTERVAL_SEC'' ''must be at least 1'')
        (guard_err (ReconnectAttempts r < 1 \<or> ReconnectAttempts r > 20)
          (config_error ''RECOVERY.RECONNECT_ATTEMPTS'' ''must be between 1 and 20'')
        (guard_err (MaxBackoff r < InitialBackoff r)
          (config_error ''RECOVERY.MAX_BACKOFF_SEC'' ''must be at least RECOVERY.INITIAL_BACKOFF_SEC'')
        (guard_err (mq_Port m < 1 \<or> mq_Port m > 65535) (config_error ''MQTT.PORT'' ''must be between 1 and 65535'')
        (guard_err ((mq_TLSCertFile m = []) \<noteq> (mq_TLSKeyFile m = []))
          (config_error ''MQTT.TLS_CERT_FILE'' ''and MQTT.TLS_KEY_FILE must be configured together'')
        (guard_err (\<not> mq_TLSEnabled m \<and> (mq_TLSCAFile m \<noteq> [] \<or> mq_TLSCertFile m \<noteq> [] \<or> mq_TLSServerName m \<noteq> []))
          (config_error ''MQTT'' ''TLS files and server name require MQTT.TLS_ENABLED=true'')
        (and_then (validateMQTTIdentifier ''MQTT.CLIENT_ID'' (mq_ClientID m) False) (\<lambda>_.
         and_then (validateMQTTIdentifier ''MQTT.HA_DEVICE_ID'' (mq_HADeviceID m) True) (\<lambda>_.
         and_then (if swapped then discovery else prefix) (\<lambda>_.
           if swapped then prefix else discovery))))))))))))))))"

text \<open>\<open>load\<close> is \<open>ini.Load\<close>.\<close>

definition readConfig :: "f2i \<Rightarrow> bool \<Rightarrow> (string \<Rightarrow> string + ini) \<Rightarrow> string \<Rightarrow> err + AppConfig" where
  "readConfig oob swapped load path =
     (case load path of
        Inl e \<Rightarrow> Inl (EWrap (''read config '' @ path) (EExt e))
      | Inr cfg \<Rightarrow>
          and_then (validateConfigSchema cfg) (\<lambda>_.
          and_then (validateExplicitValues cfg) (\<lambda>_.
          and_then (read_settings oob cfg) (\<lambda>app.
          and_then (check_settings swapped app) (\<lambda>_.
          and_then (parseLogLevel (config_value cfg ''LOGGING'' ''LEVEL'' ''INFO'')) (\<lambda>level.
            Inr (app\<lparr>app_LogLevel := level\<rparr>)))))))"


section \<open>What is logged of it\<close>

datatype log_value = LText string | LInt int | LBool bool | LFloat float64

text \<open>\<open>Duration.Seconds\<close> and \<open>slog.Level.String\<close>.\<close>

definition Seconds :: "duration \<Rightarrow> float64" where
  "Seconds d =
     fadd (float_of_int (sgn d * (\<bar>d\<bar> div second)))
       (fdiv (float_of_int (sgn d * (\<bar>d\<bar> mod second))) (float_of_int 1000000000))"

fun level_name :: "log_level \<Rightarrow> string" where
  "level_name LevelDebug = ''DEBUG''"
| "level_name LevelInfo = ''INFO''"
| "level_name LevelWarn = ''WARN''"
| "level_name LevelError = ''ERROR''"

text \<open>The settings \<open>logConfig\<close> reports, in order, each with its value.\<close>

definition logConfig :: "AppConfig \<Rightarrow> (string \<times> log_value) list" where
  "logConfig c =
     (let m = app_MQTT c; r = app_Recovery c
      in [(''MODBUS.PORT'', LText (app_Port c)),
          (''MODBUS.TIMEOUT_SEC'', LFloat (Seconds (app_Timeout c))),
          (''MQTT.HOST'', LText (mq_Host m)),
          (''MQTT.PORT'', LInt (mq_Port m)),
          (''MQTT.USER'', LText (mq_Username m)),
          (''MQTT.PASSWORD'', LText (if mq_Password m \<noteq> [] then ''configured'' else ''not configured'')),
          (''MQTT.TLS_ENABLED'', LBool (mq_TLSEnabled m)),
          (''MQTT.TLS_CA_FILE'', LText (mq_TLSCAFile m)),
          (''MQTT.TLS_CERT_FILE'', LText (mq_TLSCertFile m)),
          (''MQTT.TLS_KEY_FILE'', LText (mq_TLSKeyFile m)),
          (''MQTT.TLS_SERVER_NAME'', LText (mq_TLSServerName m)),
          (''MQTT.CLIENT_ID'', LText (mq_ClientID m)),
          (''MQTT.KEEPALIVE_SEC'', LFloat (Seconds (mq_Keepalive m))),
          (''MQTT.WILL_DELAY_SEC'', LFloat (Seconds (mq_WillDelay m))),
          (''MQTT.OPERATION_TIMEOUT_SEC'', LFloat (Seconds (mq_OperationTimeout m))),
          (''MQTT.DISCONNECT_TIMEOUT_SEC'', LFloat (Seconds (mq_DisconnectTimeout m))),
          (''MQTT.TOPIC_PREFIX'', LText (mq_TopicPrefix m)),
          (''MQTT.HA_DISCOVERY_PREFIX'', LText (mq_HADiscoveryPrefix m)),
          (''MQTT.HA_DEVICE_ID'', LText (mq_HADeviceID m)),
          (''MQTT.HA_DEVICE_NAME'', LText (mq_HADeviceName m)),
          (''POLLING.CONFIG_INTERVAL_SEC'', LFloat (Seconds (ConfigInterval (app_Polling c)))),
          (''POLLING.STATUS_INTERVAL_SEC'', LFloat (Seconds (StatusInterval (app_Polling c)))),
          (''RECOVERY.RECONNECT_ATTEMPTS'', LInt (ReconnectAttempts r)),
          (''RECOVERY.INITIAL_BACKOFF_SEC'', LFloat (Seconds (InitialBackoff r))),
          (''RECOVERY.MAX_BACKOFF_SEC'', LFloat (Seconds (MaxBackoff r))),
          (''RECOVERY.RESET_COOLDOWN_SEC'', LFloat (Seconds (ResetCooldown r))),
          (''LOGGING.LEVEL'', LText (level_name (app_LogLevel c)))])"

text \<open>The log tells whether there is a password, and nothing else about it.\<close>

lemma password_not_logged:
  assumes "(p = []) = (q = [])"
  shows "logConfig (c\<lparr>app_MQTT := (app_MQTT c)\<lparr>mq_Password := p\<rparr>\<rparr>) =
    logConfig (c\<lparr>app_MQTT := (app_MQTT c)\<lparr>mq_Password := q\<rparr>\<rparr>)"
  using assms by (simp add: logConfig_def Let_def)

end
