(* ===== verification/Config_Properties.thy ===== *)
theory Config_Properties
  imports Config
begin

text \<open>
  What an accepted configuration file guarantees: nothing in it is ignored, its settings are
  in range, and the intervals of the MQTT session fit the fields they are sent in.
\<close>

section \<open>Accepted files\<close>

lemma accepted_parts:
  assumes "readConfig oob swapped load path = Inr app"
  obtains cfg app0 level where "load path = Inr cfg" and "validateConfigSchema cfg = Inr ()"
    and "validateExplicitValues cfg = Inr ()" and "read_settings oob cfg = Inr app0"
    and "check_settings swapped app0 = Inr ()" and "app = app0\<lparr>app_LogLevel := level\<rparr>"
  using assms by (auto simp: readConfig_def split: sum.splits)

text \<open>What the checks on single names say.\<close>

definition clean :: "bool \<Rightarrow> string \<Rightarrow> bool" where
  "clean pathSafe s \<longleftrightarrow> s \<noteq> [] \<and> \<not> list_ex (bad_character pathSafe) s"

lemma name_checks [simp]:
  "validateMQTTIdentifier name v pathSafe = Inr u \<longleftrightarrow> clean pathSafe v"
  "validateMQTTTopic name v = Inr u \<longleftrightarrow> clean False v"
  by (simp_all add: validateMQTTIdentifier_def validateMQTTTopic_def clean_def)

lemma clean_checks:
  "clean pathSafe v \<Longrightarrow> validateMQTTIdentifier name v pathSafe = Inr ()"
  "clean False v \<Longrightarrow> validateMQTTTopic name v = Inr ()"
  by simp_all

lemma checked_settings:
  assumes "check_settings swapped app = Inr ()"
  shows "100 * millisecond \<le> app_Timeout app" and "second \<le> mq_Keepalive (app_MQTT app)"
    and "mq_Keepalive (app_MQTT app) \<le> 65535 * second" and "second \<le> mq_WillDelay (app_MQTT app)"
    and "mq_WillDelay (app_MQTT app) \<le> (2 ^ 32 - 2) * second" and "100 * millisecond \<le> mq_OperationTimeout (app_MQTT app)"
    and "second \<le> ConfigInterval (app_Polling app)" and "second \<le> StatusInterval (app_Polling app)"
    and "1 \<le> ReconnectAttempts (app_Recovery app)" and "ReconnectAttempts (app_Recovery app) \<le> 20"
    and "InitialBackoff (app_Recovery app) \<le> MaxBackoff (app_Recovery app)"
    and "1 \<le> mq_Port (app_MQTT app)" and "mq_Port (app_MQTT app) \<le> 65535"
    and "mq_TLSCertFile (app_MQTT app) = [] \<longleftrightarrow> mq_TLSKeyFile (app_MQTT app) = []"
    and "mq_TLSEnabled (app_MQTT app) \<or>
      mq_TLSCAFile (app_MQTT app) = [] \<and> mq_TLSCertFile (app_MQTT app) = [] \<and> mq_TLSServerName (app_MQTT app) = []"
    and "clean False (mq_ClientID (app_MQTT app))" and "clean True (mq_HADeviceID (app_MQTT app))"
    and "clean False (mq_TopicPrefix (app_MQTT app))" and "clean False (mq_HADiscoveryPrefix (app_MQTT app))"
  using assms by (auto simp: check_settings_def Let_def split: if_splits)

section \<open>Topics\<close>






section \<open>The schema\<close>

definition in_schema :: "string \<times> (string \<times> string) list \<Rightarrow> bool" where
  "in_schema s \<longleftrightarrow>
     (if fst s = ''DEFAULT'' then snd s = []
      else (case map_of configSchema (fst s) of
              None \<Rightarrow> False
            | Some allowed \<Rightarrow> fst ` set (snd s) \<subseteq> set allowed))"

lemma check_keys_iff: "check_keys section allowed ks = Inr u \<longleftrightarrow> set ks \<subseteq> set allowed"
  by (induction ks) auto

lemma check_sections_iff: "check_sections cfg = Inr u \<longleftrightarrow> list_all in_schema cfg"
  by (induction cfg rule: check_sections.induct) (auto simp: in_schema_def check_keys_iff split: option.splits)

lemma keys_error: "check_keys section allowed ks = Inl e \<Longrightarrow> \<exists>s p. e = EMsg (MConfig s p)"
  by (induction ks) (auto simp: guard_err_def config_error_def split: if_splits)

lemma schema_error: "check_sections cfg = Inl e \<Longrightarrow> \<exists>s p. e = EMsg (MConfig s p)"
  by (induction cfg rule: check_sections.induct)
    (auto simp: guard_err_def config_error_def and_then_eq_Inl dest: keys_error split: if_splits option.splits)

lemma check_explicit_iff: "check_explicit cfg fs = Inr u \<longleftrightarrow>
    (\<forall>(section, key) \<in> set fs. case GetKey cfg section key of None \<Rightarrow> True | Some s \<Rightarrow> trimSpace s \<noteq> [])"
  by (induction fs) (auto simp: key_string_def split: option.splits)


section \<open>Durations\<close>

lemma round_half_even_le: "x \<le> of_int n \<Longrightarrow> round_half_even x \<le> n"
proof (cases "\<lfloor>x\<rfloor> = n")
  case True
  moreover assume "x \<le> of_int n"
  ultimately have "x = of_int n" by (metis of_int_floor_le order_antisym)
  then show ?thesis by simp
next
  case False
  moreover assume "x \<le> of_int n"
  ultimately have "\<lfloor>x\<rfloor> + 1 \<le> n" by (metis floor_mono floor_of_int add1_zle_eq le_neq_trans)
  then show ?thesis by (simp add: round_half_even_def Let_def)
qed

lemma round_half_even_nonneg: "0 \<le> x \<Longrightarrow> 0 \<le> round_half_even x"
  by (simp add: round_half_even_def Let_def)

text \<open>What is a little above \<open>2 ^ 63\<close> rounds to it.\<close>

lemma rne_up_to_limit:
  assumes "0 < y" and "y \<le> 2 ^ 63 + 1024"
  obtains z where "rne y = FFin z" and "0 \<le> z" and "z \<le> 2 ^ 63"
proof -
  define e where "e = max (ilog2 y - 52) (-1074)"
  define m where "m = round_half_even (y / 2 powi e)"
  have "y < 2 powi 64" using assms(2) by simp
  then have log: "ilog2 y < 64" by (rule ilog2_less [OF assms(1)])
  then have e: "e < 971" by (simp add: e_def)
  then have r: "rne y = FFin (of_int m * 2 powi e)"
    using assms(1) by (simp add: rne_def Let_def e_def [symmetric] m_def [symmetric])
  have m0: "0 \<le> m" unfolding m_def by (rule round_half_even_nonneg) (use assms(1) in simp)
  have "of_int m * 2 powi e \<le> (2 ^ 63 :: rat)"
  proof (cases "y < 2 powi 63")
    case True
    then have "ilog2 y < 63" by (rule ilog2_less [OF assms(1)])
    then have e10: "e + 53 \<le> 63" by (simp add: e_def)
    have "y < 2 powi (ilog2 y + 1)" by (rule ilog2_bounds(2) [OF assms(1)])
    also have "\<dots> \<le> 2 powi (e + 53)" by (rule power_int_increasing) (simp_all add: e_def)
    also have "\<dots> = 2 ^ 53 * 2 powi e" by (simp add: power_int_add)
    finally have "y / 2 powi e \<le> of_int (2 ^ 53)" by (simp add: divide_le_eq)
    then have "m \<le> 2 ^ 53" unfolding m_def by (rule round_half_even_le)
    then have "of_int m * 2 powi e \<le> (2 ^ 53 :: rat) * 2 powi e"
      by (intro mult_right_mono) (metis of_int_le_iff of_int_numeral of_int_power, simp)
    also have "\<dots> = 2 powi (e + 53)" by (simp add: power_int_add)
    also have "\<dots> \<le> 2 powi 63" by (rule power_int_increasing [OF e10]) simp
    finally show ?thesis by simp
  next
    case False
    then have "63 \<le> ilog2 y" by (intro ilog2_ge) simp
    with log have e11: "e = 11" by (simp add: e_def)
    define q where "q = y / 2048"
    have q: "2 ^ 52 \<le> q" "q \<le> 2 ^ 52 + 1 / 2" using False assms(2) by (simp_all add: q_def)
    then have floor: "\<lfloor>q\<rfloor> = 2 ^ 52" by (intro floor_unique) simp_all
    have "even ((2 :: int) ^ 52)" by simp
    with q(2) floor have "round_half_even q = 2 ^ 52" by (simp add: round_half_even_def Let_def)
    then show ?thesis by (simp add: m_def e11 q_def)
  qed
  with m0 r show thesis by (intro that [of "of_int m * 2 powi e"]) simp_all
qed


lemma max_seconds_value: "max_seconds = FFin (4835703278458517 / 524288)"
  by code_simp

lemma second_float: "float_of_int second = FFin 1000000000"
  by code_simp

lemma accepted_duration:
  assumes "durationSeconds oob cfg section key fallback = Inr d" and "GetKey cfg section key = Some entry"
  obtains x z where "parseFloat (trimSpace entry) = Inr (FFin x)" and "0 < x"
    and "fmul (FFin x) (float_of_int second) = FFin z" and "0 \<le> z" and "z \<le> 2 ^ 63"
    and "d = (if z = 2 ^ 63 then sint (oob (FFin (2 ^ 63))) else \<lfloor>z\<rfloor>)"
proof -
  obtain p where p: "parseFloat (trimSpace entry) = Inr p" "\<not> is_nan p" "\<not> is_inf p" "\<not> fle p (FFin 0)"
      "\<not> flt max_seconds p" "d = seconds_duration oob p"
    using assms by (auto simp: durationSeconds_def Let_def split: sum.splits)
  then obtain x where x: "p = FFin x" by (cases p) simp_all
  with p(4) have x0: "0 < x" by (auto simp: fle_def)
  have "x * 1000000000 \<le> 2 ^ 63 + 1024" using p(5) by (simp add: x max_seconds_value)
  moreover have "0 < x * 1000000000" using x0 by simp
  ultimately obtain z where z: "rne (x * 1000000000) = FFin z" "0 \<le> z" "z \<le> 2 ^ 63"
    using rne_up_to_limit by blast
  have "d = (if z = 2 ^ 63 then sint (oob (FFin (2 ^ 63))) else \<lfloor>z\<rfloor>)"
  proof (cases "z = 2 ^ 63")
    case True
    then show ?thesis
      using p(6) z(1) by (simp add: x seconds_duration_def second_float in_int64_def max_int64_def truncate_rat_def)
  next
    case False
    with z(3) have "z < of_int (2 ^ 63)" by simp
    then have "\<lfloor>z\<rfloor> < 2 ^ 63" by (simp only: floor_less_iff)
    moreover have "0 \<le> \<lfloor>z\<rfloor>" using z(2) by simp
    ultimately show ?thesis
      using False p(6) z by (simp add: x seconds_duration_def second_float in_int64_def max_int64_def min_int64_def truncate_rat_def)
  qed
  with that p(1) x x0 z show thesis by (simp add: second_float)
qed

text \<open>Seconds that are a whole number of nanoseconds below \<open>2 ^ 53\<close> convert exactly.\<close>

lemma seconds_exact:
  assumes "x * 1000000000 = of_int n" and "\<bar>n\<bar> < 2 ^ 53"
  shows "seconds_duration oob (FFin x) = n"
proof -
  have "in_int64 n" using assms(2) by (auto simp: in_int64_def min_int64_def max_int64_def)
  with assms show ?thesis by (simp add: seconds_duration_def second_float rne_of_int truncate_rat_def)
qed

lemma default_seconds:
  "seconds_duration oob (FFin (3 / 2)) = 1500000000" "seconds_duration oob (FFin 60) = 60000000000"
  "seconds_duration oob (FFin 300) = 300000000000" "seconds_duration oob (FFin 10) = 10000000000"
  "seconds_duration oob (FFin 5) = 5000000000" "seconds_duration oob (FFin 600) = 600000000000"
  "seconds_duration oob (FFin 2) = 2000000000" "seconds_duration oob (FFin 1) = 1000000000"
  by (rule seconds_exact; simp)+

section \<open>A file with nothing but the port\<close>

definition port_only :: "string \<Rightarrow> ini" where
  "port_only port = [(''DEFAULT'', []), (''MODBUS'', [(''PORT'', port)])]"

lemma port_only_keys:
  "GetKey (port_only port) section key = (if section = ''MODBUS'' \<and> key = ''PORT'' then Some port else None)"
  by (simp add: GetKey_def port_only_def)

definition default_settings :: "string \<Rightarrow> AppConfig" where
  "default_settings port =
     \<lparr>app_Port = port, app_Timeout = 1500 * millisecond,
      app_MQTT =
        \<lparr>mq_Host = ''localhost'', mq_Port = 1883, mq_Username = [], mq_Password = [], mq_TLSEnabled = False,
         mq_TLSCAFile = [], mq_TLSCertFile = [], mq_TLSKeyFile = [], mq_TLSServerName = [],
         mq_ClientID = ''growatt_spf5000es'', mq_Keepalive = 60 * second, mq_WillDelay = 300 * second,
         mq_OperationTimeout = 10 * second, mq_DisconnectTimeout = 5 * second,
         mq_TopicPrefix = ''growatt_spf5000es'', mq_HADiscoveryPrefix = ''homeassistant'',
         mq_HADeviceID = ''growatt_spf5000es'', mq_HADeviceName = ''Growatt SPF 5000 ES''\<rparr>,
      app_Polling = \<lparr>ConfigInterval = 600 * second, StatusInterval = 2 * second\<rparr>,
      app_Recovery = \<lparr>ReconnectAttempts = 3, InitialBackoff = second, MaxBackoff = 10 * second, ResetCooldown = 300 * second\<rparr>,
      app_LogLevel = LevelInfo\<rparr>"

lemma trim_nothing: "trimSpace [] = []"
  by code_simp

lemma default_names:
  "normalizeTopic ''growatt_spf5000es'' ''growatt_spf5000es'' = ''growatt_spf5000es''"
  "normalizeTopic ''homeassistant'' ''homeassistant'' = ''homeassistant''"
  "clean False ''growatt_spf5000es''" "clean True ''growatt_spf5000es''" "clean False ''homeassistant''"
  by code_simp+

lemma default_level: "parseLogLevel ''INFO'' = Inr LevelInfo"
  by code_simp

lemma port_only_settings:
  assumes "trimSpace port \<noteq> []"
  shows "read_settings oob (port_only port) = Inr (default_settings (trimSpace port))"
proof -
  have keys: "key_string (port_only port) s k = (if s = ''MODBUS'' \<and> k = ''PORT'' then port else [])" for s k
    by (simp add: key_string_def port_only_keys)
  show ?thesis
    using assms
    by (simp add: read_settings_def keys durationSeconds_def intValue_def boolValue_def port_only_keys default_seconds
        config_value_def optionalValue_def trim_nothing default_names default_settings_def second_def millisecond_def Let_def)
qed

lemma default_settings_pass: "check_settings swapped (default_settings port) = Inr ()"
  by (cases swapped)
    (simp_all add: check_settings_def default_settings_def default_names second_def millisecond_def Let_def clean_checks)

lemma minimal_accepted:
  assumes "load path = Inr (port_only port)" and "trimSpace port \<noteq> []"
  shows "readConfig oob swapped load path = Inr (default_settings (trimSpace port))"
proof -
  have "validateConfigSchema (port_only port) = Inr ()"
    by (simp add: validateConfigSchema_def check_sections_iff port_only_def in_schema_def configSchema_def)
  moreover have "validateExplicitValues (port_only port) = Inr ()"
    using assms(2) by (simp add: validateExplicitValues_def port_only_keys key_string_def)
  moreover have "config_value (port_only port) ''LOGGING'' ''LEVEL'' ''INFO'' = ''INFO''"
    by (simp add: config_value_def key_string_def port_only_keys trim_nothing)
  moreover have "(default_settings (trimSpace port))\<lparr>app_LogLevel := LevelInfo\<rparr> = default_settings (trimSpace port)"
    by (simp add: default_settings_def)
  ultimately show ?thesis
    using assms port_only_settings [of port oob] default_settings_pass [of swapped "trimSpace port"] default_level
    by (simp add: readConfig_def)
qed

lemma demo_accepted:
  "readConfig (\<lambda>_. 0) False (\<lambda>_. Inr (port_only ''/dev/ttyUSB0'')) ''config.ini'' = Inr (default_settings ''/dev/ttyUSB0'')"
proof -
  have "trimSpace ''/dev/ttyUSB0'' = ''/dev/ttyUSB0''" by code_simp
  with minimal_accepted [of "\<lambda>_. Inr (port_only ''/dev/ttyUSB0'')" _ "''/dev/ttyUSB0''" "\<lambda>_. 0" False] show ?thesis by simp
qed

section \<open>Intervals of the session\<close>

lemma whole_seconds_pos: "second \<le> d \<Longrightarrow> whole_seconds d = d div second \<and> 1 \<le> d div second"
proof -
  assume "second \<le> d"
  then have "second div second \<le> d div second" by (intro zdiv_mono1) (simp_all add: second_def)
  with \<open>second \<le> d\<close> show ?thesis by (simp add: whole_seconds_def second_def)
qed

lemma whole_seconds_le: "d \<le> n * second \<Longrightarrow> d div second \<le> n"
proof -
  assume "d \<le> n * second"
  then have "d div second \<le> n * second div second" by (intro zdiv_mono1) (simp_all add: second_def)
  then show ?thesis by (simp add: second_def)
qed

lemma session_expiry:
  assumes "1 \<le> k" and "k \<le> 2 ^ 32 - 2"
  shows "uint (max 60 ((word_of_int k :: 32 word) + 1)) = max 60 (k + 1)"
proof -
  have sum: "(word_of_int k :: 32 word) + 1 = word_of_int (k + 1)" by simp
  have "uint (word_of_int (k + 1) :: 32 word) = k + 1"
    using assms unfolding uint_word_of_int take_bit_eq_mod by simp
  then show ?thesis unfolding sum by (simp only: max_def word_le_def) simp
qed

section \<open>Properties\<close>




text \<open>C22: the intervals an accepted configuration
  gives the MQTT session keep their value in the 16 and 32 bit fields they are sent in, none
  is zero, and the session expires only after the will was due.\<close>

theorem accepted_intervals_fit_the_session:
  assumes "readConfig oob swapped load path = Inr app"
  shows "let m = app_MQTT app; cc = client_config_of willTopic m
    in uint (cc_KeepAlive cc) = mq_Keepalive m div second \<and> 1 \<le> uint (cc_KeepAlive cc) \<and>
       uint (cc_WillDelayInterval cc) = mq_WillDelay m div second \<and> 1 \<le> uint (cc_WillDelayInterval cc) \<and>
       uint (cc_SessionExpiryInterval cc) = max 60 (mq_WillDelay m div second + 1)"
proof -
  obtain app0 level where "check_settings swapped app0 = Inr ()" and app: "app = app0\<lparr>app_LogLevel := level\<rparr>"
    using assms by (rule accepted_parts)
  note checked = checked_settings [OF this(1)]
  define m where "m = app_MQTT app0"
  have k: "whole_seconds (mq_Keepalive m) = mq_Keepalive m div second" "1 \<le> mq_Keepalive m div second"
      "mq_Keepalive m div second \<le> 65535"
    using whole_seconds_pos [OF checked(2)] whole_seconds_le [OF checked(3)] by (simp_all add: m_def)
  have w: "whole_seconds (mq_WillDelay m) = mq_WillDelay m div second" "1 \<le> mq_WillDelay m div second"
      "mq_WillDelay m div second \<le> 2 ^ 32 - 2"
    using whole_seconds_pos [OF checked(4)] whole_seconds_le [OF checked(5)] by (simp_all add: m_def)
  have "uint (word_of_int (mq_Keepalive m div second) :: 16 word) = mq_Keepalive m div second"
    using k by (simp add: uint_word_of_int take_bit_eq_mod)
  moreover have "uint (word_of_int (mq_WillDelay m div second) :: 32 word) = mq_WillDelay m div second"
    using w by (simp add: uint_word_of_int take_bit_eq_mod)
  ultimately show ?thesis
    using k w session_expiry [OF w(2,3)] by (simp add: app client_config_of_def Let_def m_def [symmetric])
qed

theorem accepted_intervals_fit_the_session_witness:
  "uint (cc_KeepAlive (client_config_of ''t'' (app_MQTT (default_settings ''/dev/ttyUSB0'')))) = 60 \<and>
   uint (cc_SessionExpiryInterval (client_config_of ''t'' (app_MQTT (default_settings ''/dev/ttyUSB0'')))) = 301"
  using accepted_intervals_fit_the_session [OF demo_accepted, of "''t''"]
  by (simp add: Let_def default_settings_def second_def)


text \<open>A file with a section or a key that the
  schema does not have, or with a key outside the sections, is refused with a configuration
  error: no setting is ignored silently.\<close>

theorem misspelt_settings_are_refused:
  assumes "load path = Inr cfg" and "(name, ks) \<in> set cfg"
    and "name = ''DEFAULT'' \<and> ks \<noteq> [] \<or>
      name \<noteq> ''DEFAULT'' \<and> map_of configSchema name = None \<or>
      name \<noteq> ''DEFAULT'' \<and> map_of configSchema name = Some allowed \<and> key \<in> fst ` set ks \<and> key \<notin> set allowed"
  shows "\<exists>setting problem. readConfig oob swapped load path = Inl (EMsg (MConfig setting problem))"
proof -
  have "\<not> in_schema (name, ks)" using assms(3) unfolding in_schema_def by (elim disjE conjE) auto
  with assms(2) have "\<not> list_all in_schema cfg" by (auto simp: list_all_iff)
  then obtain e where e: "check_sections cfg = Inl e" using check_sections_iff [of cfg] by (cases "check_sections cfg") auto
  from schema_error [OF e] obtain setting problem where "e = EMsg (MConfig setting problem)" by blast
  with assms(1) e show ?thesis by (simp add: readConfig_def validateConfigSchema_def)
qed

theorem misspelt_settings_are_refused_witness:
  "\<exists>setting problem.
     readConfig (\<lambda>_. 0) False (\<lambda>_. Inr [(''DEFAULT'', []), (''MQTT'', [(''HOSTS'', ''broker'')])]) ''config.ini'' =
       Inl (EMsg (MConfig setting problem))"
  by (rule misspelt_settings_are_refused [where name = "''MQTT''" and key = "''HOSTS''" and ks = "[(''HOSTS'', ''broker'')]"
        and cfg = "[(''DEFAULT'', []), (''MQTT'', [(''HOSTS'', ''broker'')])]" and allowed = "the (map_of configSchema ''MQTT'')"])
    (simp_all add: configSchema_def)


lemma rne_below_power:
  assumes "0 < y" and "y < 2 powi k" and "-1021 \<le> k" and "k < 900"
  obtains m e where "rne y = FFin (of_int m * 2 powi e)" and "0 \<le> m" and "m \<le> 2 ^ 53" and "e + 53 \<le> k"
    and "m = round_half_even (y / 2 powi e)"
proof -
  define e where "e = max (ilog2 y - 52) (-1074)"
  define m where "m = round_half_even (y / 2 powi e)"
  have "ilog2 y < k" by (rule ilog2_less [OF assms(1,2)])
  with assms(3) have e: "e + 53 \<le> k" by (simp add: e_def)
  with assms(4) have "e < 971" by simp
  then have "rne y = FFin (of_int m * 2 powi e)"
    using assms(1) by (simp add: rne_def Let_def e_def [symmetric] m_def [symmetric])
  moreover have "0 \<le> m" unfolding m_def by (rule round_half_even_nonneg) (use assms(1) in simp)
  moreover have "m \<le> 2 ^ 53"
  proof -
    have "y < 2 powi (ilog2 y + 1)" by (rule ilog2_bounds(2) [OF assms(1)])
    also have "\<dots> \<le> 2 powi (e + 53)" by (rule power_int_increasing) (simp_all add: e_def)
    also have "\<dots> = 2 ^ 53 * 2 powi e" by (simp add: power_int_add)
    finally have "y / 2 powi e \<le> of_int (2 ^ 53)" by (simp add: divide_le_eq)
    then show ?thesis unfolding m_def by (rule round_half_even_le)
  qed
  ultimately show thesis using that e m_def by blast
qed

text \<open>A rounded value of \<open>2 ^ 33\<close> or more is a multiple of \<open>2 powi (-19)\<close>.\<close>

lemma rounded_grid:
  assumes "rne v = FFin x" and "2 ^ 33 \<le> x" and "x < 2 ^ 34"
  shows "\<exists>j. x * 2 ^ 19 = of_int j"
proof -
  define e where "e = max (ilog2 \<bar>v\<bar> - 52) (-1074)"
  define m where "m = round_half_even (v / 2 powi e)"
  have v0: "v \<noteq> 0" using assms(1,2) by (auto simp: rne_def)
  then have x: "x = of_int m * 2 powi e"
    using assms(1) by (auto simp: rne_def Let_def e_def [symmetric] m_def [symmetric] split: if_splits)
  have p: "(0 :: rat) < 2 powi e" by simp
  have v: "0 < v"
  proof (rule ccontr)
    assume "\<not> 0 < v"
    then have "v / 2 powi e \<le> of_int 0" by (simp add: divide_le_0_iff)
    then have "m \<le> 0" unfolding m_def by (rule round_half_even_le)
    then have "x \<le> 0" using p by (simp add: x mult_le_0_iff)
    with assms(2) show False by simp
  qed
  have "v < 2 powi (ilog2 v + 1)" by (rule ilog2_bounds(2) [OF v])
  also have "\<dots> \<le> 2 powi (e + 53)" by (rule power_int_increasing) (use v in \<open>simp_all add: e_def\<close>)
  also have "\<dots> = 2 ^ 53 * 2 powi e" by (simp add: power_int_add)
  finally have "v / 2 powi e \<le> of_int (2 ^ 53)" by (simp add: divide_le_eq)
  then have m: "m \<le> 2 ^ 53" unfolding m_def by (rule round_half_even_le)
  then have "(of_int m :: rat) \<le> 2 ^ 53" by (metis of_int_le_iff of_int_numeral of_int_power)
  then have xb: "x \<le> 2 ^ 53 * 2 powi e" using p by (simp add: x)
  show ?thesis
  proof (cases "-19 \<le> e")
    case True
    then have "(2 powi e :: rat) = of_int (2 ^ nat (e + 19)) * 2 powi (-19)"
      using powi_shift [of "-19" e] by simp
    then have "x * 2 ^ 19 = of_int (m * 2 ^ nat (e + 19))" by (simp add: x power_int_minus_divide)
    then show ?thesis by blast
  next
    case False
    have "(2 powi e :: rat) \<le> 2 powi (-20)" by (rule power_int_increasing) (use False in simp_all)
    then have "x \<le> 2 ^ 33" using xb by (simp add: power_int_minus_divide)
    with assms(2) have "x * 2 ^ 19 = of_int (2 ^ 52)" by simp
    then show ?thesis by blast
  qed
qed

lemma parsed_is_rounded:
  assumes "parseFloat s = Inr (FFin x)"
  shows "\<exists>v. rne v = FFin x"
proof (cases "special_float s")
  case None
  with assms show ?thesis by (auto simp: parseFloat_def split: option.splits if_splits)
next
  case (Some f)
  with assms show ?thesis by (auto simp: parseFloat_def special_float_def Let_def split: if_splits)
qed

text \<open>The number before the largest that is accepted is far enough away from the limit.\<close>

lemma below_max_seconds:
  assumes "rne v = FFin x" and "flt (FFin x) max_seconds"
  shows "x * 1000000000 \<le> 2 ^ 63 - 1024"
proof (cases "2 ^ 33 \<le> x")
  case True
  have x: "x * 2 ^ 19 < 4835703278458517" using assms(2) by (simp add: max_seconds_value)
  then have "x < 2 ^ 34" by simp
  with rounded_grid [OF assms(1) True] obtain j where j: "x * 2 ^ 19 = of_int j" by blast
  with x have "(of_int j :: rat) < of_int 4835703278458517" by simp
  then have "j < 4835703278458517" by (simp only: of_int_less_iff)
  then have "j \<le> 4835703278458516" by simp
  then have "(of_int j :: rat) \<le> of_int 4835703278458516" by (simp only: of_int_le_iff)
  with j show ?thesis by simp
next
  case False
  then show ?thesis by simp
qed

lemma short_product:
  assumes "0 < y" and "y \<le> 2 ^ 63 - 1024"
  obtains z where "rne y = FFin z" and "0 \<le> z" and "z < 2 ^ 63" and "\<bar>of_int \<lfloor>z\<rfloor> - y\<bar> \<le> 1 + y / 2 ^ 53"
proof -
  have "y < 2 powi 63" using assms(2) by simp
  then obtain m e where z: "rne y = FFin (of_int m * 2 powi e)" "0 \<le> m" "m \<le> 2 ^ 53" "e + 53 \<le> 63"
    and m: "m = round_half_even (y / 2 powi e)"
    using rne_below_power [OF assms(1), of 63] by auto
  define z where "z = (of_int m * 2 powi e :: rat)"
  have z0: "0 \<le> z" using z(2) by (simp add: z_def)
  have rm: "(of_int m :: rat) \<le> of_int (2 ^ 53)" using z(3) by (simp only: of_int_le_iff)
  have "z < 2 ^ 63"
  proof (cases "e = 10")
    case True
    have "y / 2 powi e \<le> of_int (2 ^ 53 - 1)" using assms(2) True by simp
    then have "m \<le> 2 ^ 53 - 1" unfolding m by (rule round_half_even_le)
    then have "(of_int m :: rat) \<le> of_int (2 ^ 53 - 1)" by (simp only: of_int_le_iff)
    with True show ?thesis by (simp add: z_def)
  next
    case False
    then have "(2 powi e :: rat) \<le> 2 powi 9" by (intro power_int_increasing) (use z(4) in simp_all)
    then have "z \<le> of_int (2 ^ 53) * 2 powi 9" unfolding z_def using rm z(2) by (intro mult_mono) simp_all
    then show ?thesis by simp
  qed
  moreover have "\<bar>of_int \<lfloor>z\<rfloor> - y\<bar> \<le> 1 + y / 2 ^ 53"
  proof (cases "1 \<le> y")
    case True
    have "y < 2 ^ 63" using assms(2) by simp
    also have "\<dots> < 2 powi 1022" by (simp only: powi2_less_iff power_int_numeral [symmetric])
    finally have "\<bar>y\<bar> < 2 powi 1022" using assms(1) by simp
    moreover have "(2 powi (-1022) :: rat) \<le> 2 powi 0" by (rule power_int_increasing) simp_all
    then have "2 powi (-1022) \<le> \<bar>y\<bar>" using True by simp
    ultimately obtain v where "rne y = FFin v" "\<bar>v - y\<bar> \<le> \<bar>y\<bar> / 2 ^ 53" using rne_relative_error by blast
    then have "\<bar>z - y\<bar> \<le> y / 2 ^ 53" using z(1) assms(1) by (simp add: z_def)
    moreover have "of_int \<lfloor>z\<rfloor> \<le> z" "z < of_int \<lfloor>z\<rfloor> + 1" by linarith+
    ultimately show ?thesis by linarith
  next
    case False
    then have "y < 2 powi 0" by simp
    then obtain m' e' where z': "rne y = FFin (of_int m' * 2 powi e')" "0 \<le> m'" "m' \<le> 2 ^ 53" "e' + 53 \<le> 0"
      by (rule rne_below_power [OF assms(1), of 0]) simp_all
    have "(of_int m' :: rat) \<le> of_int (2 ^ 53)" using z'(3) by (simp only: of_int_le_iff)
    moreover have "(2 powi e' :: rat) \<le> 2 powi (-53)" by (intro power_int_increasing) (use z'(4) in simp_all)
    ultimately have "of_int m' * 2 powi e' \<le> (of_int (2 ^ 53) * 2 powi (-53) :: rat)" using z'(2) by (intro mult_mono) simp_all
    then have "z \<le> 1" using z(1) z'(1) by (simp add: z_def power_int_minus_divide)
    then have "\<lfloor>z\<rfloor> \<le> 1" "0 \<le> \<lfloor>z\<rfloor>" using z0 by (simp_all add: floor_le_iff)
    then have "\<lfloor>z\<rfloor> = 0 \<or> \<lfloor>z\<rfloor> = 1" by linarith
    moreover have "0 \<le> y / 2 ^ 53" using assms(1) by simp
    ultimately show ?thesis using False assms(1) by auto
  qed
  ultimately show thesis using that z(1) z0 by (simp add: z_def)
qed

text \<open>C39: a number of seconds that is accepted is at
  most \<open>max_seconds\<close>. Below it the duration is the product with a billion, rounded to a float
  and cut to whole nanoseconds: it is a duration, and off by no more than one nanosecond and
  the rounding of the product. At \<open>max_seconds\<close>, and there only, the product rounds to
  \<open>2 ^ 63\<close> nanoseconds, which no duration holds, and the setting becomes what the machine
  makes of that conversion.\<close>

theorem durations_overflow_at_the_limit:
  assumes "durationSeconds oob cfg section key fallback = Inr d" and "GetKey cfg section key = Some entry"
  shows "\<exists>x. parseFloat (trimSpace entry) = Inr (FFin x) \<and> 0 < x \<and>
    (if FFin x = max_seconds
     then fmul (FFin x) (float_of_int second) = FFin (2 ^ 63) \<and> d = sint (oob (FFin (2 ^ 63)))
     else flt (FFin x) max_seconds \<and>
       (\<exists>z. fmul (FFin x) (float_of_int second) = FFin z \<and> d = \<lfloor>z\<rfloor>) \<and>
       0 \<le> d \<and> d \<le> max_int64 \<and> \<bar>of_int d - x * 10 ^ 9\<bar> \<le> 1 + x * 10 ^ 9 / 2 ^ 53)"
proof -
  obtain p where p: "parseFloat (trimSpace entry) = Inr p" "\<not> is_nan p" "\<not> is_inf p" "\<not> fle p (FFin 0)"
      "\<not> flt max_seconds p" "d = seconds_duration oob p"
    using assms by (auto simp: durationSeconds_def Let_def split: sum.splits)
  then obtain x where x: "p = FFin x" by (cases p) simp_all
  with p(4) have x0: "0 < x" by (auto simp: fle_def)
  obtain v where v: "rne v = FFin x" using parsed_is_rounded p(1) x by blast
  show ?thesis
  proof (cases "FFin x = max_seconds")
    case True
    have "fmul max_seconds (float_of_int second) = FFin (2 ^ 63)"
      unfolding max_seconds_value second_float by code_simp
    with True p(1,6) x x0 show ?thesis
      by (intro exI [of _ x]) (simp add: seconds_duration_def in_int64_def max_int64_def truncate_rat_def)
  next
    case False
    with p(5) have lt: "flt (FFin x) max_seconds" by (auto simp: x max_seconds_value)
    have "0 < x * 1000000000" using x0 by simp
    then obtain z where z: "rne (x * 1000000000) = FFin z" "0 \<le> z" "z < 2 ^ 63"
        "\<bar>of_int \<lfloor>z\<rfloor> - x * 1000000000\<bar> \<le> 1 + x * 1000000000 / 2 ^ 53"
      using short_product below_max_seconds [OF v lt] by blast
    then have "z < of_int (2 ^ 63)" by simp
    then have "\<lfloor>z\<rfloor> < 2 ^ 63" by (simp only: floor_less_iff)
    moreover have "0 \<le> \<lfloor>z\<rfloor>" using z(2) by simp
    ultimately have r: "0 \<le> \<lfloor>z\<rfloor>" "\<lfloor>z\<rfloor> \<le> max_int64" "in_int64 \<lfloor>z\<rfloor>"
      by (simp_all add: in_int64_def max_int64_def min_int64_def)
    have prod: "fmul (FFin x) (float_of_int second) = FFin z" using z(1) by (simp add: second_float)
    then have d: "d = \<lfloor>z\<rfloor>" using p(6) z(2) r(3) by (simp add: x seconds_duration_def truncate_rat_def)
    have "x * 10 ^ 9 = x * 1000000000" by simp
    with False lt prod d r z(4) p(1) x x0 show ?thesis by (intro exI [of _ x]) auto
  qed
qed

text \<open>The numeral of that one case.\<close>

lemma limit_numeral: "parseFloat ''9223372036.854776'' = Inr max_seconds"
proof -
  have scan: "scan_mantissa False ''9223372036.854776'' 0 0 False False False = (9223372036854776, 6, True, False, [])"
    by (simp add: is_digit_def digit_val_def)
  have "special_float ''9223372036.854776'' = None" by code_simp
  moreover have "has_base_prefix ''x'' ''9223372036.854776'' = False" "drop_sign ''9223372036.854776'' = ''9223372036.854776''"
    by code_simp+
  moreover have "(10 :: rat) powi (- 6) = 1 / 1000000" by (simp add: power_int_minus_divide)
  moreover have "rne (9223372036854776 / 1000000) = FFin (4835703278458517 / 524288)" by code_simp
  ultimately show ?thesis
    by (simp add: parseFloat_def readFloat_def scan max_seconds_value del: scan_mantissa.simps)
qed

lemma limit_duration:
  "durationSeconds oob [(section, [(key, ''9223372036.854776'')])] section key fallback = Inr (sint (oob (FFin (2 ^ 63))))"
proof -
  have "trimSpace ''9223372036.854776'' = ''9223372036.854776''" by code_simp
  moreover have "fmul max_seconds (float_of_int second) = FFin (2 ^ 63)"
    unfolding max_seconds_value second_float by code_simp
  moreover have "\<not> flt max_seconds max_seconds" "\<not> fle max_seconds (FFin 0)" "\<not> is_nan max_seconds" "\<not> is_inf max_seconds"
    by (simp_all add: max_seconds_value fle_def)
  ultimately show ?thesis
    by (simp add: durationSeconds_def GetKey_def limit_numeral seconds_duration_def in_int64_def max_int64_def truncate_rat_def)
qed

text \<open>On amd64, where the conversion gives the smallest integer, the cooldown becomes negative.\<close>

theorem durations_overflow_at_the_limit_witness:
  "\<exists>x. parseFloat ''9223372036.854776'' = Inr (FFin x) \<and> fmul (FFin x) (float_of_int second) = FFin (2 ^ 63) \<and>
    durationSeconds (\<lambda>_. push_bit 63 1) [(''RECOVERY'', [(''RESET_COOLDOWN_SEC'', ''9223372036.854776'')])]
      ''RECOVERY'' ''RESET_COOLDOWN_SEC'' (FFin 300) = Inr (- (2 ^ 63))"
proof -
  let ?cfg = "[(''RECOVERY'', [(''RESET_COOLDOWN_SEC'', ''9223372036.854776'')])]"
  have "sint (push_bit 63 1 :: 64 word) = - (2 ^ 63)" by code_simp
  with limit_duration [of "\<lambda>_. push_bit 63 1"]
  have r: "durationSeconds (\<lambda>_. push_bit 63 1) ?cfg ''RECOVERY'' ''RESET_COOLDOWN_SEC'' (FFin 300) = Inr (- (2 ^ 63))" by simp
  have "GetKey ?cfg ''RECOVERY'' ''RESET_COOLDOWN_SEC'' = Some ''9223372036.854776''" by (simp add: GetKey_def)
  moreover have "trimSpace ''9223372036.854776'' = ''9223372036.854776''" by code_simp
  ultimately obtain x where x: "parseFloat ''9223372036.854776'' = Inr (FFin x)"
    and m: "if FFin x = max_seconds then fmul (FFin x) (float_of_int second) = FFin (2 ^ 63) else 0 \<le> (- (2 ^ 63) :: int)"
    using durations_overflow_at_the_limit [OF r] by (metis (full_types))
  have "FFin x = max_seconds" using x limit_numeral by simp
  with m have "fmul (FFin x) (float_of_int second) = FFin (2 ^ 63)" by simp
  with x r show ?thesis by blast
qed

text \<open>A file that only names the serial port is
  accepted, with these settings for everything else. The topic prefix is the identifier of
  the device.\<close>

theorem defaults_of_a_minimal_file:
  assumes "load path = Inr (port_only port)" and "trimSpace port \<noteq> []"
  shows "\<exists>app. readConfig oob swapped load path = Inr app \<and> app_Port app = trimSpace port \<and>
    app_Timeout app = 1500 * millisecond \<and> app_LogLevel app = LevelInfo \<and>
    app_Polling app = \<lparr>ConfigInterval = 600 * second, StatusInterval = 2 * second\<rparr> \<and>
    app_Recovery app =
      \<lparr>ReconnectAttempts = 3, InitialBackoff = second, MaxBackoff = 10 * second, ResetCooldown = 300 * second\<rparr> \<and>
    app_MQTT app =
      \<lparr>mq_Host = ''localhost'', mq_Port = 1883, mq_Username = [], mq_Password = [], mq_TLSEnabled = False,
       mq_TLSCAFile = [], mq_TLSCertFile = [], mq_TLSKeyFile = [], mq_TLSServerName = [],
       mq_ClientID = ''growatt_spf5000es'', mq_Keepalive = 60 * second, mq_WillDelay = 300 * second,
       mq_OperationTimeout = 10 * second, mq_DisconnectTimeout = 5 * second,
       mq_TopicPrefix = ''growatt_spf5000es'', mq_HADiscoveryPrefix = ''homeassistant'',
       mq_HADeviceID = ''growatt_spf5000es'', mq_HADeviceName = ''Growatt SPF 5000 ES''\<rparr>"
  using minimal_accepted [where load = load and path = path and port = port, OF assms] by (simp add: default_settings_def)

theorem defaults_of_a_minimal_file_witness:
  "\<exists>app. readConfig (\<lambda>_. 0) True (\<lambda>_. Inr (port_only ''COM1'')) ''config.ini'' = Inr app \<and>
    mq_TopicPrefix (app_MQTT app) = ''growatt_spf5000es''"
proof -
  have "trimSpace ''COM1'' \<noteq> []" by code_simp
  with defaults_of_a_minimal_file [of "\<lambda>_. Inr (port_only ''COM1'')" "''config.ini''" "''COM1''" "\<lambda>_. 0" True]
  show ?thesis by auto
qed

end
