(* ===== verification/Service.thy ===== *)
theory Service
  imports Config_Properties Mqtt_Properties Polling_Properties
begin

text \<open>
  The program as a whole (\<open>src/main.go\<close>): the revision it reports, the two loops it runs side
  by side, and the order in which it builds, starts and closes its parts.
\<close>

section \<open>The revision\<close>

text \<open>\<open>info\<close> is what \<open>debug.ReadBuildInfo\<close> returns: its settings, or None.\<close>

fun vcs_settings :: "(string \<times> string) list \<Rightarrow> string \<Rightarrow> bool \<Rightarrow> string \<times> bool" where
  "vcs_settings [] found modified = (found, modified)"
| "vcs_settings ((key, v) # rest) found modified =
     (if key = ''vcs.revision'' then vcs_settings rest v modified
      else if key = ''vcs.modified'' then vcs_settings rest found (v = ''true'')
      else vcs_settings rest found modified)"

definition revision :: "string \<Rightarrow> (string \<times> string) list option \<Rightarrow> string" where
  "revision buildRevision info =
     (if buildRevision \<noteq> [] then buildRevision
      else
        (case info of
           None \<Rightarrow> ''unknown''
         | Some settings \<Rightarrow>
             (case vcs_settings settings [] False of
                (vcsRevision, modified) \<Rightarrow>
                  if vcsRevision = [] then ''unknown''
                  else if modified then vcsRevision @ ''-dirty''
                  else vcsRevision)))"

section \<open>The loops\<close>

text \<open>
  \<open>runServiceLoops\<close> with its goroutines. \<open>running\<close> are the services whose \<open>Run\<close> has not
  returned, \<open>errCh\<close> is the channel they send their result to, \<open>stopped\<close> says whether \<open>stop\<close>
  has been called and \<open>received\<close> lists the results in the order of their arrival.
\<close>

record loops =
  running :: "nat list"
  errCh :: "err option list"
  stopped :: bool
  received :: "err option list"
  runErr :: "err option"

definition note_result :: "err option \<Rightarrow> err option \<Rightarrow> err option" where
  "note_result acc r =
     (case r of None \<Rightarrow> acc | Some e \<Rightarrow> if isCanceled e then acc else errors_Join [acc, Some e])"

text \<open>\<open>ends i c r\<close>: service \<open>i\<close> can return \<open>r\<close> when its context is cancelled (\<open>c\<close>) or not.\<close>

inductive loops_step :: "(nat \<Rightarrow> bool \<Rightarrow> err option \<Rightarrow> bool) \<Rightarrow> loops \<Rightarrow> loops \<Rightarrow> bool" for ends where
  returns: "running l = us @ i # vs \<Longrightarrow> ends i (stopped l) r \<Longrightarrow>
    loops_step ends l (l\<lparr>running := us @ vs, errCh := errCh l @ [r]\<rparr>)"
| receives: "errCh l = r # rs \<Longrightarrow>
    loops_step ends l
      (l\<lparr>errCh := rs, stopped := True, received := received l @ [r], runErr := note_result (runErr l) r\<rparr>)"

definition loops_start :: "nat \<Rightarrow> loops" where
  "loops_start n = \<lparr>running = [0..<n], errCh = [], stopped = False, received = [], runErr = None\<rparr>"

text \<open>\<open>for range services\<close> ends when a result has been received from each.\<close>

definition loops_done :: "nat \<Rightarrow> loops \<Rightarrow> bool" where
  "loops_done n l \<longleftrightarrow> length (received l) = n"

section \<open>The program\<close>

text \<open>The deferred function of \<open>run\<close>: it stops the MQTT service and closes the inverter.\<close>

definition shut_down ::
    "('c \<Rightarrow> 'w \<Rightarrow> 'w) \<Rightarrow> ('i \<times> 'w) connection \<Rightarrow> err option \<Rightarrow> 'i recovering \<times> 'c mqtt \<times> 'w \<Rightarrow>
     err option \<times> 'i recovering \<times> 'c mqtt \<times> 'w" where
  "shut_down disconnect conn r s =
     (case s of (i, m, w) \<Rightarrow>
       (case mqtt_Stop disconnect (m, w) of (m1, w1) \<Rightarrow>
         (case rec_Close conn (i, w1) of
            (Inl e, i2, w2) \<Rightarrow> (errors_Join [r, Some (EWrap ''close inverter'' e)], i2, m1, w2)
          | (Inr _, i2, w2) \<Rightarrow> (r, i2, m1, w2))))"

text \<open>
  What \<open>run\<close> is given: the machine, the libraries and, as \<open>p_loops\<close>, the loops on the parts
  they run on.
\<close>

record ('c, 'w, 'r, 'k) platform =
  p_oob :: f2i
  p_swapped :: bool
  p_load :: "string \<Rightarrow> string + ini"
  p_host :: "'w host"
  p_bus :: "'w bus"
  p_systemctl :: "('w, unit) ext"
  p_sample :: clockSample
  p_tls_files :: "('w, 'r, 'k) tls_files"
  p_new_connection :: "client_config \<Rightarrow> ('r, 'k) tls_config option \<Rightarrow> ('w, 'c) ext"
  p_disconnect :: "'c \<Rightarrow> 'w \<Rightarrow> 'w"
  p_loops :: "inverter recovering \<times> polling \<times> 'c mqtt \<times> 'w \<Rightarrow> err option \<times> inverter recovering \<times> polling \<times> 'c mqtt \<times> 'w"

definition started_parts ::
    "('c, 'w, 'r, 'k) platform \<Rightarrow> AppConfig \<Rightarrow> 'w \<Rightarrow> err option \<times> inverter recovering \<times> 'c mqtt \<times> 'w" where
  "started_parts pf config w =
     (let conn = inverter_conn (p_oob pf) (p_host pf) (p_bus pf);
          inverter = SetAvailabilitySink (NewRecoveringInverter (NewInverter (app_Timeout config)));
          polling = SetSink (NewPollingService (p_sample pf) (app_Polling config));
          mqtt = NewMQTTService (p_oob pf) (app_MQTT config)
      in case rec_Connect (p_host pf) conn (p_systemctl pf) (app_Recovery config) (inverter, w) of
           (Inl e, i1, w1) \<Rightarrow> (Some e, i1, mqtt, w1)
         | (Inr _, i1, w1) \<Rightarrow>
             (case host_now (p_host pf) w1 of (now, w2) \<Rightarrow>
               (case mqtt_Start (p_tls_files pf) (p_new_connection pf) (mqtt, w2) of
                  (Inl e, m3, w3) \<Rightarrow> (Some e, i1, m3, w3)
                | (Inr _, m3, w3) \<Rightarrow>
                    (case p_loops pf (i1, poll_Start now polling, m3, w3) of
                       (r, i4, _, m4, w4) \<Rightarrow> (r, i4, m4, w4)))))"

definition run :: "('c, 'w, 'r, 'k) platform \<Rightarrow> 'w \<Rightarrow> err option \<times> 'w" where
  "run pf w =
     (case readConfig (p_oob pf) (p_swapped pf) (p_load pf) ''config.ini'' of
        Inl e \<Rightarrow> (Some e, w)
      | Inr config \<Rightarrow>
          (case started_parts pf config w of
             (r, s) \<Rightarrow>
               (case shut_down (p_disconnect pf) (inverter_conn (p_oob pf) (p_host pf) (p_bus pf)) r s of
                  (r', _, _, w') \<Rightarrow> (r', w'))))"

section \<open>What no step of the loops breaks\<close>

fun joins :: "err \<Rightarrow> err \<Rightarrow> bool" where
  "joins x (EJoin es) \<longleftrightarrow> x = EJoin es \<or> list_ex (joins x) es"
| "joins x e \<longleftrightarrow> x = e"

definition real_failure :: "err option \<Rightarrow> bool" where
  "real_failure r \<longleftrightarrow> (case r of None \<Rightarrow> False | Some e \<Rightarrow> \<not> isCanceled e)"

definition reports :: "err option list \<Rightarrow> err option \<Rightarrow> bool" where
  "reports rs acc \<longleftrightarrow>
     (acc = None \<longleftrightarrow> (\<forall>r \<in> set rs. \<not> real_failure r)) \<and>
     (\<forall>e. Some e \<in> set rs \<longrightarrow> \<not> isCanceled e \<longrightarrow> (\<exists>j. acc = Some j \<and> joins e j))"

lemma joins_self [simp]: "joins e e"
  by (cases e) simp_all

lemma note_reported:
  assumes "reports rs acc"
  shows "reports (rs @ [r]) (note_result acc r)"
proof (cases "real_failure r")
  case False
  then have "note_result acc r = acc" by (auto simp: note_result_def real_failure_def split: option.splits)
  with False assms show ?thesis by (auto simp: reports_def real_failure_def)
next
  case True
  then obtain e where r: "r = Some e" "\<not> isCanceled e" by (auto simp: real_failure_def split: option.splits)
  show ?thesis
  proof (cases acc)
    case None
    with r True assms show ?thesis by (auto simp: reports_def note_result_def)
  next
    case (Some a)
    with r True assms show ?thesis by (auto simp: reports_def note_result_def)
  qed
qed

definition loops_ok :: "nat \<Rightarrow> loops \<Rightarrow> bool" where
  "loops_ok n l \<longleftrightarrow>
     length (running l) + length (errCh l) + length (received l) = n \<and>
     (received l \<noteq> [] \<longrightarrow> stopped l) \<and> reports (received l) (runErr l)"

lemma reachable_loops:
  assumes "(loops_step ends)\<^sup>*\<^sup>* (loops_start n) l"
  shows "loops_ok n l"
  using assms
proof (induction rule: rtranclp_induct)
  case base
  show ?case by (simp add: loops_ok_def loops_start_def reports_def)
next
  case (step k l)
  from step(2,3) show ?case
    by (cases rule: loops_step.cases) (auto simp: loops_ok_def note_reported)
qed

text \<open>Each step lowers this measure, so no more than twice as many steps as services follow.\<close>

definition loops_left :: "loops \<Rightarrow> nat" where
  "loops_left l = 2 * length (running l) + length (errCh l)"

lemma step_left: "loops_step ends k l \<Longrightarrow> loops_left l < loops_left k"
  by (induction rule: loops_step.induct) (auto simp: loops_left_def)

lemma steps_left: "(loops_step ends ^^ s) k l \<Longrightarrow> s + loops_left l \<le> loops_left k"
proof (induction s arbitrary: l)
  case (Suc s)
  from Suc.prems obtain j where j: "(loops_step ends ^^ s) k j" "loops_step ends j l" by (auto elim: relpowp_Suc_E)
  with Suc.IH [OF j(1)] step_left [OF j(2)] show ?case by simp
qed simp


section \<open>Properties\<close>

text \<open>When a result has been received from every service, all
  have returned and their context is cancelled; the error returned is nil exactly when every
  result was nil or the cancellation of the context, and otherwise joins every other error.\<close>

theorem loops_report_every_failure:
  assumes "(loops_step ends)\<^sup>*\<^sup>* (loops_start n) l" and "loops_done n l" and "0 < n"
  shows "running l = [] \<and> errCh l = [] \<and> stopped l \<and>
    (runErr l = None \<longleftrightarrow> (\<forall>r \<in> set (received l). r = None \<or> (\<exists>e. r = Some e \<and> isCanceled e))) \<and>
    (\<forall>e. Some e \<in> set (received l) \<longrightarrow> \<not> isCanceled e \<longrightarrow> (\<exists>j. runErr l = Some j \<and> joins e j))"
proof -
  have "loops_ok n l" by (rule reachable_loops [OF assms(1)])
  moreover have "(\<not> real_failure r) = (r = None \<or> (\<exists>e. r = Some e \<and> isCanceled e))" for r
    by (cases r) (simp_all add: real_failure_def)
  ultimately show ?thesis using assms(2,3) by (auto simp: loops_ok_def loops_done_def reports_def)
qed

text \<open>C21: the context of the services is cancelled once a
  result has been received, the loops take at most two steps for each service, and they are
  done when all have returned and all results are in. They can stop before only while no
  result waits to be received and none of the services that still run returns: nothing but a
  service that does not return under its context holds up the end of the program.\<close>

theorem only_a_service_holds_up_the_end:
  assumes "(loops_step ends)\<^sup>*\<^sup>* (loops_start n) l"
  shows "(received l = [] \<or> stopped l) \<and>
    (loops_done n l \<longleftrightarrow> running l = [] \<and> errCh l = []) \<and>
    ((\<exists>l'. loops_step ends l l') \<longleftrightarrow> errCh l \<noteq> [] \<or> (\<exists>i r. i \<in> set (running l) \<and> ends i (stopped l) r)) \<and>
    (\<forall>s l'. (loops_step ends ^^ s) l l' \<longrightarrow> s \<le> 2 * n)"
proof (intro conjI allI impI)
  have ok: "loops_ok n l" by (rule reachable_loops [OF assms])
  then show "received l = [] \<or> stopped l" by (auto simp: loops_ok_def)
  show "loops_done n l \<longleftrightarrow> running l = [] \<and> errCh l = []"
    using ok by (auto simp: loops_ok_def loops_done_def)
  show "(\<exists>l'. loops_step ends l l') \<longleftrightarrow> errCh l \<noteq> [] \<or> (\<exists>i r. i \<in> set (running l) \<and> ends i (stopped l) r)"
  proof
    assume "\<exists>l'. loops_step ends l l'"
    then show "errCh l \<noteq> [] \<or> (\<exists>i r. i \<in> set (running l) \<and> ends i (stopped l) r)"
      by (auto elim!: loops_step.cases)
  next
    assume "errCh l \<noteq> [] \<or> (\<exists>i r. i \<in> set (running l) \<and> ends i (stopped l) r)"
    then show "\<exists>l'. loops_step ends l l'"
    proof (elim disjE exE conjE)
      assume "errCh l \<noteq> []"
      then obtain r rs where "errCh l = r # rs" by (cases "errCh l") auto
      from receives [OF this] show ?thesis by blast
    next
      fix i r assume "i \<in> set (running l)" "ends i (stopped l) r"
      then obtain us vs where "running l = us @ i # vs" by (meson split_list)
      from returns [of l us i vs ends r, OF this \<open>ends i (stopped l) r\<close>] show ?thesis by blast
    qed
  qed
  fix s l'
  assume "(loops_step ends ^^ s) l l'"
  from steps_left [OF this] ok show "s \<le> 2 * n" by (simp add: loops_left_def loops_ok_def)
qed

text \<open>Whatever the parts of an accepted configuration did, the program
  stops the MQTT service and closes the inverter last. It ends without an error exactly when
  neither they nor the closing failed, and an error of theirs is reported even when the
  closing fails too. They cannot have succeeded unless the inverter was connected and the
  MQTT service then started.\<close>

theorem run_hides_no_failure:
  assumes "readConfig (p_oob pf) (p_swapped pf) (p_load pf) ''config.ini'' = Inr config"
    and "started_parts pf config w = (r, i, m, w1)"
  shows "\<exists>q i2 w2. rec_Close (inverter_conn (p_oob pf) (p_host pf) (p_bus pf)) (i, snd (mqtt_Stop (p_disconnect pf) (m, w1))) = (q, i2, w2) \<and>
    snd (run pf w) = w2 \<and>
    (fst (run pf w) = None \<longleftrightarrow> r = None \<and> q = Inr ()) \<and>
    (\<forall>e. r = Some e \<longrightarrow> (\<exists>j. fst (run pf w) = Some j \<and> joins e j)) \<and>
    (r = None \<longrightarrow>
      (\<exists>i1 v1 now v2 m3 v3.
        rec_Connect (p_host pf) (inverter_conn (p_oob pf) (p_host pf) (p_bus pf)) (p_systemctl pf) (app_Recovery config)
          (SetAvailabilitySink (NewRecoveringInverter (NewInverter (app_Timeout config))), w) = (Inr (), i1, v1) \<and>
        host_now (p_host pf) v1 = (now, v2) \<and>
        mqtt_Start (p_tls_files pf) (p_new_connection pf) (NewMQTTService (p_oob pf) (app_MQTT config), v2) = (Inr (), m3, v3)))"
proof -
  have chain: "r = None \<longrightarrow>
      (\<exists>i1 v1 now v2 m3 v3.
        rec_Connect (p_host pf) (inverter_conn (p_oob pf) (p_host pf) (p_bus pf)) (p_systemctl pf) (app_Recovery config)
          (SetAvailabilitySink (NewRecoveringInverter (NewInverter (app_Timeout config))), w) = (Inr (), i1, v1) \<and>
        host_now (p_host pf) v1 = (now, v2) \<and>
        mqtt_Start (p_tls_files pf) (p_new_connection pf) (NewMQTTService (p_oob pf) (app_MQTT config), v2) = (Inr (), m3, v3))"
    using assms(2) by (auto simp: started_parts_def Let_def split: prod.splits sum.splits)
  obtain m1 w2 where stop: "mqtt_Stop (p_disconnect pf) (m, w1) = (m1, w2)" by (meson surj_pair)
  obtain q i3 w3 where close: "rec_Close (inverter_conn (p_oob pf) (p_host pf) (p_bus pf)) (i, w2) = (q, i3, w3)"
    by (rule prod_cases3)
  show ?thesis
  proof (cases q)
    case (Inl e)
    with assms stop close chain show ?thesis by (cases r) (auto simp: run_def shut_down_def)
  next
    case (Inr u)
    with assms stop close chain show ?thesis by (auto simp: run_def shut_down_def)
  qed
qed


section \<open>Services to try them on\<close>

text \<open>One service fails at any time, the other returns when its context is cancelled.\<close>

definition demo_ends :: "nat \<Rightarrow> bool \<Rightarrow> err option \<Rightarrow> bool" where
  "demo_ends i c r \<longleftrightarrow> (if i = 0 then r = Some (EMsg MQueueFull) else c \<and> r = Some (ECtx Canceled))"

definition demo_first :: loops where
  "demo_first =
     \<lparr>running = [1], errCh = [], stopped = True, received = [Some (EMsg MQueueFull)], runErr = Some (EJoin [EMsg MQueueFull])\<rparr>"

definition demo_last :: loops where
  "demo_last =
     \<lparr>running = [], errCh = [], stopped = True, received = [Some (EMsg MQueueFull), Some (ECtx Canceled)],
      runErr = Some (EJoin [EMsg MQueueFull])\<rparr>"

lemma demo_first_reached: "(loops_step demo_ends)\<^sup>*\<^sup>* (loops_start 2) demo_first"
proof -
  let ?s = "loops_start 2" and ?f = "Some (EMsg MQueueFull)"
  let ?m = "?s\<lparr>running := [1], errCh := [?f]\<rparr>"
  have "loops_step demo_ends ?s ?m"
    using returns [of ?s "[]" 0 "[1]" demo_ends ?f] by (simp add: loops_start_def demo_ends_def upt_rec)
  moreover have "loops_step demo_ends ?m demo_first"
    using receives [of ?m ?f "[]" demo_ends] by (simp add: loops_start_def demo_first_def note_result_def)
  ultimately show ?thesis by (meson rtranclp.rtrancl_into_rtrancl rtranclp.rtrancl_refl)
qed

lemma demo_last_reached: "(loops_step demo_ends)\<^sup>*\<^sup>* (loops_start 2) demo_last"
proof -
  let ?c = "Some (ECtx Canceled)"
  let ?m = "demo_first\<lparr>running := [], errCh := [?c]\<rparr>"
  have "loops_step demo_ends demo_first ?m"
    using returns [of demo_first "[]" 1 "[]" demo_ends ?c] by (simp add: demo_first_def demo_ends_def)
  moreover have "loops_step demo_ends ?m demo_last"
    using receives [of ?m ?c "[]" demo_ends] by (simp add: demo_first_def demo_last_def note_result_def)
  ultimately show ?thesis using demo_first_reached by (meson rtranclp.rtrancl_into_rtrancl)
qed

theorem loops_report_every_failure_witness: "\<exists>j. runErr demo_last = Some j \<and> joins (EMsg MQueueFull) j"
proof -
  have "loops_done 2 demo_last" by (simp add: loops_done_def demo_last_def)
  from loops_report_every_failure [OF demo_last_reached this] show ?thesis by (simp add: demo_last_def)
qed

text \<open>
  The two services of the program when a signal has cancelled their context: the polling
  service returns, but the MQTT service holds a reading that came after its connection was
  lost. The program then never ends.
\<close>

definition cancelled_bench :: "(nat, int) machine" where
  "cancelled_bench = bench\<lparr>m_host := (m_host bench)\<lparr>ctx_err := \<lambda>_. Some Canceled\<rparr>\<rparr>"

definition late_start :: "unit mqtt" where
  "late_start = late_service polling_commands [] (sample_service, bench_service)"

definition signalled_ends :: "nat \<Rightarrow> bool \<Rightarrow> err option \<Rightarrow> bool" where
  "signalled_ends i c r \<longleftrightarrow> r \<noteq> None \<and>
     (if i = 0 then \<exists>k. fst (poll_Run k cancelled_bench (bench_service, 0, 2000)) = r
      else \<exists>k. fst (mqtt_Run k (\<lambda>_. 0) (\<lambda>_. []) (\<lambda>m w. (Some Canceled, m, w)) (late_start, ())) = r)"

definition stuck_loops :: loops where
  "stuck_loops = \<lparr>running = [1], errCh = [], stopped = True, received = [Some (ECtx Canceled)], runErr = None\<rparr>"

theorem only_a_service_holds_up_the_end_witness:
  "(loops_step signalled_ends)\<^sup>*\<^sup>* (loops_start 2) stuck_loops \<and>
   \<not> loops_done 2 stuck_loops \<and> \<not> (\<exists>l'. loops_step signalled_ends stuck_loops l')"
proof -
  let ?ends = signalled_ends and ?s = "loops_start 2" and ?c = "Some (ECtx Canceled)"
  let ?m = "?s\<lparr>running := [1], errCh := [?c]\<rparr>"
  have "fst (poll_Run 1 cancelled_bench (bench_service, 0, 2000)) = ?c" by code_simp
  then have "\<exists>k. fst (poll_Run k cancelled_bench (bench_service, 0, 2000)) = ?c" by (rule exI)
  then have "?ends 0 c ?c" for c by (simp add: signalled_ends_def)
  then have "loops_step ?ends ?s ?m"
    using returns [of ?s "[]" 0 "[1]" ?ends ?c] by (simp add: loops_start_def upt_rec)
  moreover have "loops_step ?ends ?m stuck_loops"
    using receives [of ?m ?c "[]" ?ends] by (simp add: loops_start_def stuck_loops_def note_result_def)
  ultimately have reached: "(loops_step ?ends)\<^sup>*\<^sup>* ?s stuck_loops"
    by (meson rtranclp.rtrancl_into_rtrancl rtranclp.rtrancl_refl)
  have "\<not> ?ends 1 c r" for c r by (auto simp: signalled_ends_def late_start_def late_run)
  with only_a_service_holds_up_the_end [OF reached] reached show ?thesis by (simp add: stuck_loops_def)
qed

text \<open>A serial line on which everything fails.\<close>

definition dead_platform :: "(unit, unit, unit, unit) platform" where
  "dead_platform =
     \<lparr>p_oob = (\<lambda>_. 0), p_swapped = False, p_load = (\<lambda>_. Inr (port_only ''/dev/ttyUSB0'')),
      p_host = \<lparr>host_now = (\<lambda>w. (1000, w)), host_wait = (\<lambda>_ w. (None, w)), ctx_err = (\<lambda>_. None), host_zone = (\<lambda>_ _. 0)\<rparr>,
      p_bus = \<lparr>bus_connect = (\<lambda>_ w. (Inl ''EIO'', w)), bus_close = (\<lambda>w. (Inl ''EIO'', w)),
        bus_read_input = (\<lambda>_ _ _ w. (Inl ''EIO'', w)), bus_read_holding = (\<lambda>_ _ _ w. (Inl ''EIO'', w)),
        bus_write_single = (\<lambda>_ _ _ w. (Inl ''EIO'', w)), bus_write_multiple = (\<lambda>_ _ _ _ w. (Inl ''EIO'', w))\<rparr>,
      p_systemctl = (\<lambda>w. (Inr (), w)), p_sample = \<lparr>wall = 0, monotonic = 0, zoneName = [], zoneOffset = 0\<rparr>,
      p_tls_files = \<lparr>tf_ReadFile = (\<lambda>_ w. (Inl ''ENOENT'', w)), tf_SystemCertPool = (\<lambda>w. (Inr None, w)), tf_NewCertPool = (),
        tf_AppendCertsFromPEM = (\<lambda>_ _. None), tf_LoadX509KeyPair = (\<lambda>_ _ w. (Inl ''ENOENT'', w))\<rparr>,
      p_new_connection = (\<lambda>_ _ w. (Inr (), w)), p_disconnect = (\<lambda>_ w. w),
      p_loops = (\<lambda>s. (None, s))\<rparr>"

theorem run_hides_no_failure_witness: "fst (run dead_platform ()) \<noteq> None"
proof -
  let ?pf = dead_platform and ?config = "default_settings ''/dev/ttyUSB0''"
  have config: "readConfig (p_oob ?pf) (p_swapped ?pf) (p_load ?pf) ''config.ini'' = Inr ?config"
    using demo_accepted by (simp add: dead_platform_def)
  obtain r i m w1 where s: "started_parts ?pf ?config () = (r, i, m, w1)" by (rule prod_cases4)
  have "fst (rec_Close (inverter_conn (p_oob ?pf) (p_host ?pf) (p_bus ?pf)) (i, v)) \<noteq> Inr ()" for v
    by (simp add: rec_Close_def on_inverter_def inverter_conn_def inv_Close_def client_Close_def dead_platform_def
        on_client_def from_library_def split: prod.splits)
  with run_hides_no_failure [OF config s] show ?thesis by (metis fst_conv)
qed

end
