(* ===== verification/Spec2Isabelle.thy ===== *)
theory Spec2Isabelle
  imports Windows Write_Spacing Inverter_Contract Reset_Spacing Polling_Properties Polling_Interleaving Entities Mqtt_Properties Mqtt_Interleaving Service
begin

text \<open>
  A model of spf5000es-server, a Go service that reads a Growatt SPF 5000 ES inverter over a
  serial Modbus line, publishes what it reads to MQTT with discovery documents for Home
  Assistant, and writes the settings it is sent.

  The program. \<open>run\<close> (\<open>src/main.go\<close>) reads \<open>config.ini\<close>, builds a chain of parts and runs two
  loops. The polling service (\<open>src/polling.go\<close>) owns the inverter: it reads the status and
  configuration registers on their intervals, writes queued commands, watches the clock and
  sets the inverter's time. It reaches the inverter (\<open>src/inverter.go\<close>, tables and codec of
  \<open>src/registers.go\<close>) through the recovering inverter (\<open>src/recovery.go\<close>), which reconnects
  and resets the adapter, and the Modbus client (\<open>src/modbus_client.go\<close>). The MQTT service
  (\<open>src/mqtt.go\<close>) is the sink of its readings and of the availability of the inverter; it
  queues commands and switches polling on while a broker is connected, off when it is lost.

  The theories, each with the source it models:

  Prelude, Go\_Error, Go\_Float, Go\_Strings, Go\_Value, Go\_Runtime: what the code uses of Go.
  Errors are trees with \<open>errors.As\<close> and \<open>errors.Is\<close> on them; a \<open>float64\<close> is an exact rational
  with NaN and the infinities, rounded to nearest even after each operation; a string is a
  list of bytes; times and durations are 64-bit nanoseconds with their saturation and
  wrap-around. A fallible operation returns \<open>err + 'a\<close>, one on the world also the world.

  Transforms, Registers (\<open>src/registers.go\<close>): the read and write transforms and both tables,
  row by row. The locale \<open>transform_pair\<close> is what a row promises, that what it reads it writes
  back; it is interpreted on every pair of transforms in the tables.

  Codec, Windows (\<open>src/inverter.go\<close>, \<open>src/registers.go\<close>, \<open>src/modbus_client.go\<close>): words to
  values and back, bytes to words and back, and the reads a table is cut into. Shown: the
  round trips, when decoding fails, that the windows tile the range and tear no row. The
  window arithmetic is that of a 64-bit \<open>int\<close>.

  Modbus\_Client, Write\_Spacing (\<open>src/modbus_client.go\<close>): every request with its time limit
  and its error kind; any sequence of calls keeps writes 850 ms apart.

  Inverter, Inverter\_Contract (\<open>src/inverter.go\<close>): reading, writing one key, the clock, and
  the pending read-back. Shown of a reading: the words it decodes are those the bus answered,
  and what is logged of each pending write. The locale \<open>data_source\<close> is the contract of \<open>inverterDataSource\<close>,
  \<open>inverter_connection\<close> extends it by connecting and closing; \<open>inv\<close> interprets it. On a bus
  whose registers are memory, a written value is the one read back.

  Recovery, Recovery\_Properties, Reset\_Spacing (\<open>src/recovery.go\<close>): the locale \<open>recovering_client\<close> is a
  connection with recovery around it, a sublocale of \<open>data_source\<close>; \<open>rinv\<close> interprets it on
  the inverter. Shown: bounds on the attempts, what the sink is told, that refusals pass
  through, that a device that comes back is found, and, over any sequence of calls in a world
  with a journal of the resets that systemd granted, that these keep the cooldown.

  Clock\_Watchdog, Polling, Polling\_Properties, Polling\_Interleaving (\<open>src/clock_watchdog.go\<close>,
  \<open>src/polling.go\<close>): one turn of the loop as a function, and the loop with its callers as a
  step relation whose steps are the single accesses to the shared atomics and channels. The
  locale \<open>polling_client\<close> is the loop on any data source, \<open>service\<close> interprets it. Shown: the
  latest command of each key is written, once, in the order of the first; what a turn
  delivers; that no wake-up is lost in any interleaving.

  Number\_Limits, Topics, Mqtt\_Values, Mqtt\_State, Discovery, Discovery\_Properties, Entities
  (\<open>src/registers.go\<close> and \<open>src/mqtt.go\<close>): the limits of the writable numbers, the names in
  topics, the payloads written and read, the state, and the discovery document. Shown: a
  number that passes its limits fits its register, each register has one component, a command
  sent to the topic that is announced reaches the register it is announced for, and the
  entity announced for a row suits the values the row reads.

  Mqtt\_Service, Mqtt\_Properties, Mqtt\_Interleaving (\<open>src/mqtt.go\<close>): the publisher and the
  set-up of a connection as functions, and both with the library's callbacks as a step
  relation whose steps are the sections under the mutex. The locale \<open>polling_switch\<close> is what
  the service needs of the command service; \<open>switch\<close> interprets it on the polling service.
  Shown: polling is on exactly while connected, no update is left behind by a waiting
  publisher, and the readiness of a connection is announced only after a status and a
  configuration were sent on it.

  Config, Config\_Properties (\<open>src/config.go\<close>): the schema, the readers, every check. Shown:
  what each accepted setting is good for, and the fields of the MQTT session it fits.

  Service (\<open>src/main.go\<close>): building, starting and closing the parts, and the two loops side by
  side. Shown: once one has ended, the context of the others is cancelled, and nothing but a
  service that does not return under it holds up the end; the witness runs the two loops of
  the program into that case.

  This theory: from a command topic over the queue and the recovery to the register.

  Parameters. What is not in the repository is an argument: \<open>host\<close> (clock, timers, context,
  zone), \<open>bus\<close> (the Modbus library and the line), \<open>systemctl\<close>, the library that parses the
  file (\<open>load\<close>), the MQTT and TLS libraries (\<open>subscribe\<close>, \<open>new_connection\<close>, \<open>disconnect\<close>,
  \<open>tls_files\<close>), \<open>oob\<close> (the platform's conversion to \<open>int64\<close> of a float out of its range), \<open>other\<close>
  (\<open>fmt.Append\<close> on a value the tables never produce) and \<open>swapped\<close> (the order in which Go
  ranges over the map of two topics). Where a property needs a law of one, it is a premise
  (\<open>timers_ok\<close>: a timer that is not interrupted fires no earlier than it was set for, and the
  clock is past the zero time; \<open>comes_back\<close>, \<open>holds_memory\<close> and \<open>quiet\<close> describe a device), and its witness shows a
  function with that law.

  Bounds. The loops that run until they are stopped (\<open>poll_Run\<close>, \<open>mqtt_Run\<close>,
  \<open>subscribe_loop\<close>) take a number of turns and say when they are still going; their
  properties hold of every number. Every other loop of the code is a terminating function.
  Maps are association lists whose order stands for the order the runtime ranges in, and
  properties hold of every order. Names and keys are ASCII, which all names of the program are.
  In \<open>mqtt_step\<close> a batch is sent in one step, and the identity of a connection does not wrap
  around (fewer than \<open>2^64\<close> changes).

  What modelling showed. A reading that arrives while the broker is away keeps the publisher
  busy and deaf to a shutdown (\<open>a_late_reading_spins\<close>). A publisher that was already sending
  announces an unavailable inverter as online (\<open>offline_is_overtaken\<close>). A duration at the limit
  passes the check and overflows, that one alone (\<open>durations_overflow_at_the_limit\<close>).

  Not modelled. The set-up of logging (\<open>configureLogging\<close>, \<open>newTextLogHandler\<close>, the debug logger
  of the Modbus library), since nothing reads a log line back; the exit status and the signal
  handler of \<open>main\<close>; in \<open>run\<close> the two loops are one argument, since \<open>loops_step\<close>,
  \<open>poll_Run\<close> and \<open>mqtt_Run\<close> model them.
\<close>

section \<open>From the broker to the register\<close>

lemma number_writable:
  assumes "d \<in> set (holdingRegisters oob)" and "configDiscovery m d = (''number'', payload)"
  shows "isWritableNumberRegister oob (reg_Key d)"
proof -
  have "holdingByKey oob (reg_Key d) = Some d" using assms(1) by (simp add: holdingByKey_mem)
  with number_fields [OF assms(2)] show ?thesis
    by (simp add: isWritableNumberRegister_def isBooleanRegister_def)
qed

lemma written_or_fraction:
  assumes "(\<exists>d vals. prepare_write oob key v = Inr (d, vals)) \<or> prepare_write oob key v = Inl x"
    and "rec_WriteConfig h (inverter_conn oob h b) systemctl cfg key v s = (Inl e, s')"
  shows "\<not> isCommandError e \<or> e = x"
  using assms(1)
proof
  assume "\<exists>d vals. prepare_write oob key v = Inr (d, vals)"
  then have "rejection_of oob key v = None" by (auto simp: rejection_of_def)
  from rinv.recovered.accepted [OF this assms(2)] show ?thesis ..
next
  assume "prepare_write oob key v = Inl x"
  then have "rejection_of oob key v = Some x" by (simp add: rejection_of_def)
  from rinv.recovered.rejected [OF this, of h b systemctl cfg s] assms(2) show ?thesis by simp
qed

text \<open>C12: when the handler takes a payload on the command topic of a
  register that is announced as a number, the value the payload parses to is a number within
  the announced minimum and maximum, and it is that value that is queued for that register,
  after what was queued before, with the polling loop woken. Whenever the inverter is then
  asked to write it, behind the recovery and on whatever line, the command is refused for a
  fraction only, never for its range.\<close>

theorem announced_numbers_are_written:
  assumes "named oob m" and "d \<in> set (holdingRegisters oob)" and "configDiscovery m d = (''number'', document)"
    and "lastPublishedConfig m = [] \<or>
      decodeRegisterTable registers (holdingRegisters oob) = Inr (lastPublishedConfig m)"
    and "handleCommand oob polling_commands m (base m @ ''/config/'' @ slug (reg_Key d) @ ''/set'') payload p =
      (Some (Inr ()), p')"
  shows "\<exists>v number low high. parseMQTTCommandValue oob payload = Inr v \<and> scalarAsFloat64 v = Some number \<and>
    map_of document ''min'' = Some (JNumber low) \<and> map_of document ''max'' = Some (JNumber high) \<and>
    \<not> flt number low \<and> \<not> flt high number \<and>
    commands p' = commands p @ [(reg_Key d, v)] \<and> wake p' \<and>
    (\<forall>s e s'. rec_WriteConfig h (inverter_conn oob h b) systemctl cfg (reg_Key d) v s = (Inl e, s') \<longrightarrow>
       \<not> isCommandError e \<or> e = ECommand (EWrap (''invalid value for '' @ reg_Key d) (EMsg MNotInteger)))"
proof -
  note number = number_writable [OF assms(2,3)]
  obtain v where v: "parseMQTTCommandValue oob payload = Inr v"
    and ok: "validateWritableNumberValue oob (reg_Key d) v (lastPublishedConfig m) (batteryTypeKnown m) = Inr ()"
    and q: "QueueConfigWrite (reg_Key d) v p = (Inr (), p')"
    using assms(5) unfolding handleCommand_routes [OF assms(1,2)]
    by (auto simp: polling_commands_def split: sum.splits prod.splits)
  obtain x where x: "scalarAsFloat64 v = Some x" "\<not> flt x (lim_Min (service_numberLimits m (reg_Key d)))"
    "\<not> flt (lim_Max (service_numberLimits m (reg_Key d))) x"
    using ok number
    by (auto simp: validateWritableNumberValue_def service_numberLimits_def Let_def split: option.splits if_splits)
  then have "command_number v" using parsed_command [OF v] by auto
  from validated_prepares [OF number this known_amps [OF assms(4)] ok]
  have "\<forall>s e s'. rec_WriteConfig h (inverter_conn oob h b) systemctl cfg (reg_Key d) v s = (Inl e, s') \<longrightarrow>
      \<not> isCommandError e \<or> e = ECommand (EWrap (''invalid value for '' @ reg_Key d) (EMsg MNotInteger))"
    using written_or_fraction by blast
  moreover have "commands p' = commands p @ [(reg_Key d, v)]" "wake p'"
    using q by (auto simp: QueueConfigWrite_def signalWake_def split: if_splits)
  ultimately show ?thesis using v x number_fields(1,2) [OF assms(3)] by blast
qed

abbreviation fresh_polling :: polling where
  "fresh_polling \<equiv> NewPollingService \<lparr>wall = 0, monotonic = 0, zoneName = [], zoneOffset = 0\<rparr>
     \<lparr>ConfigInterval = second, StatusInterval = second\<rparr>"

theorem announced_numbers_are_written_witness:
  "commands (snd (handleCommand (\<lambda>_. 0) polling_commands sample_service
     (base sample_service @ ''/config/'' @ slug ''ComAddress'' @ ''/set'') ''7'' fresh_polling)) = [(''ComAddress'', GFloat (FFin 7))]"
proof -
  let ?m = sample_service and ?d = "reg ''ComAddress'' 30 1 RegisterUint identity (Some (intWrite (\<lambda>_. 0)))"
  have d: "?d \<in> set (holdingRegisters (\<lambda>_. 0))" by (simp add: holdingRegisters_def)
  have c: "configDiscovery ?m ?d = (''number'', snd (configDiscovery ?m ?d))"
    by (simp add: configDiscovery_def isBooleanRegister_def booleanKeys_def selectOptions_def Let_def)
  have l: "lastPublishedConfig ?m = []" "batteryTypeKnown ?m = []" by (simp_all add: NewMQTTService_def Let_def)
  have v: "parseMQTTCommandValue (\<lambda>_. 0) ''7'' = Inr (GFloat (FFin 7))" by code_simp
  have "validateWritableNumberValue (\<lambda>_. 0) ''ComAddress'' (GFloat (FFin 7)) [] [] = Inr ()" by code_simp
  moreover have "\<exists>p'. QueueConfigWrite ''ComAddress'' (GFloat (FFin 7)) fresh_polling = (Inr (), p')"
    by (simp add: QueueConfigWrite_def NewPollingService_def pollCommandQueueSize_def)
  ultimately obtain p' where h: "handleCommand (\<lambda>_. 0) polling_commands ?m
      (base ?m @ ''/config/'' @ slug (reg_Key ?d) @ ''/set'') ''7'' fresh_polling = (Some (Inr ()), p')"
    unfolding handleCommand_routes [OF named_New d] by (auto simp: polling_commands_def l v)
  have "commands p' = commands fresh_polling @ [(reg_Key ?d, GFloat (FFin 7))]"
    using announced_numbers_are_written [OF named_New d c disjI1 [OF l(1)] h] by (auto simp: v)
  then show ?thesis using h by (simp add: NewPollingService_def)
qed

end
